(* ===== verification/FS_Prelude.thy ===== *)
theory FS_Prelude
  imports Main "HOL-Library.Word"
begin

text \<open>
  Shared vocabulary of the model of \<open>src/FAT based FS/libfs/fs.c\<close>: the C integer
  types as words, the compile-time constants of \<open>fs.h\<close> and \<open>disk.h\<close>, the error
  outcomes of the library (every \<open>return -1\<close> of the C code carries the reason it was
  taken, and undefined behaviour is an outcome of its own), the C library primitives
  the code calls (\<open>memcpy\<close> on byte buffers, NUL-terminated strings), and the
  little-endian byte codec of the on-disk integers.  The collection \<open>fs_simps\<close>
  gathers the characteristic equations of these primitives that the component theories
  use with \<open>simp add: fs_simps\<close>.
\<close>

named_theorems fs_simps "characteristic equations of the C primitives of the model"

section \<open>C integer types\<close>

type_synonym u8 = "8 word"
type_synonym u16 = "16 word"
type_synonym u32 = "32 word"
type_synonym block = "u8 list"

section \<open>Constants of fs.h and disk.h\<close>

text \<open>
  \<open>BLOCK_SIZE\<close> is fixed by the layout of \<open>struct super_block_t\<close> (14 bytes of
  fields and 4079 of padding); \<open>FS_FILE_MAX_COUNT\<close> entries of 32 bytes fill the one
  root-directory block; \<open>FS_FILENAME_LEN\<close> is the size of the name field of
  \<open>struct file\<close>; \<open>FS_OPEN_MAX_COUNT\<close> is the size of the descriptor table.
\<close>

definition BLOCK_SIZE :: nat where
  "BLOCK_SIZE = 4096"

definition FS_FILENAME_LEN :: nat where
  "FS_FILENAME_LEN = 16"

definition FS_FILE_MAX_COUNT :: nat where
  "FS_FILE_MAX_COUNT = 128"

definition FS_OPEN_MAX_COUNT :: nat where
  "FS_OPEN_MAX_COUNT = 32"

text \<open>The end-of-chain marker of a FAT entry and the "no data block" marker of a
  directory entry: both are the literal \<open>0xFFFF\<close> of the source.\<close>

definition FAT_EOC :: u16 where
  "FAT_EOC = 0xFFFF"

text \<open>\<open>size_t\<close> values are naturals below \<open>2 ^ 64\<close>; \<open>(int) x\<close> of such a value
  keeps its low 32 bits and reads them as two's complement (the conversion gcc makes).\<close>

type_synonym size_t = nat

definition c_int :: "size_t \<Rightarrow> int" where
  "c_int n = sint (word_of_nat n :: 32 word)"

section \<open>Outcomes\<close>

text \<open>Undefined behaviour the C code can reach: an array index out of its object, a
  \<open>memcpy\<close> outside the bounce buffer or the caller's buffer, a read of memory that was
  never initialised, a string read that runs off its object, an \<open>int\<close> sum that
  overflows.\<close>

datatype ub =
    FatOutOfBounds
  | FdOutOfBounds
  | DirOutOfBounds
  | BounceOverflow
  | BufferOverrun
  | UninitialisedRead
  | UnterminatedString
  | SignedOverflow

text \<open>Why an operation returned \<open>-1\<close> (or that its behaviour is undefined).\<close>

datatype fs_error =
    NotMounted
  | InvalidArgument
  | NotFound
  | AlreadyExists
  | DirectoryFull
  | DescriptorTableFull
  | OffsetOutOfRange
  | NotOpen
  | BadSignature
  | BadBlockCount
  | IOFailure
  | Undefined ub

definition is_ub :: "fs_error \<Rightarrow> bool" where
  "is_ub e = (case e of Undefined _ \<Rightarrow> True | _ \<Rightarrow> False)"

text \<open>The integer a C function returns for an outcome: \<open>-1\<close> for every error.\<close>

definition c_ret :: "fs_error + int \<Rightarrow> int" where
  "c_ret r = (case r of Inl _ \<Rightarrow> -1 | Inr v \<Rightarrow> v)"

section \<open>memcpy\<close>

text \<open>\<open>memcpy(dst + d, src + s, n)\<close> on buffers modelled as lists: defined only when
  both ranges lie inside their objects.\<close>

definition memcpy :: "'a list \<Rightarrow> nat \<Rightarrow> 'a list \<Rightarrow> nat \<Rightarrow> nat \<Rightarrow> 'a list option" where
  "memcpy dst d src s n =
     (if d + n \<le> length dst \<and> s + n \<le> length src
      then Some (take d dst @ take n (drop s src) @ drop (d + n) dst) else None)"

section \<open>NUL-terminated strings\<close>

definition NUL :: char where
  "NUL = CHR 0x00"

text \<open>The string a \<open>char *\<close> denotes when the object it points into holds \<open>xs\<close>:
  the characters before the first NUL; \<open>None\<close> when the read would run off the object.\<close>

definition c_str :: "char list \<Rightarrow> char list option" where
  "c_str xs = (if NUL \<in> set xs then Some (takeWhile (\<lambda>c. c \<noteq> NUL) xs) else None)"

text \<open>\<open>strcpy\<close> of \<open>name\<close> into a field of \<open>FS_FILENAME_LEN\<close> characters that holds
  \<open>old\<close>: the name and its terminator are written from the start of the field.  When the
  name has \<open>FS_FILENAME_LEN\<close> characters the terminator lands on the first byte of the
  next field of the struct; at both call sites (\<open>fs_create\<close>, \<open>fs_open\<close>) that field
  is assigned right after, so only the field itself keeps a trace of the copy.\<close>

definition strcpy_field :: "char list \<Rightarrow> char list \<Rightarrow> char list" where
  "strcpy_field old name =
     take FS_FILENAME_LEN (name @ NUL # drop (Suc (length name)) old)"

section \<open>Bytes and characters, little-endian integers\<close>

definition byte_char :: "u8 \<Rightarrow> char" where
  "byte_char b = char_of (unat b)"

fun le_bytes :: "nat \<Rightarrow> nat \<Rightarrow> u8 list" where
  "le_bytes 0 v = []"
| "le_bytes (Suc n) v = of_nat (v mod 256) # le_bytes n (v div 256)"

fun le_val :: "u8 list \<Rightarrow> nat" where
  "le_val [] = 0"
| "le_val (b # bs) = unat b + 256 * le_val bs"

section \<open>Lemmas\<close>

subsection \<open>Casts and bytes\<close>

lemma c_int_small: "n < 2 ^ 31 \<Longrightarrow> c_int n = int n"
  unfolding c_int_def signed_of_nat
  by (simp add: signed_take_bit_int_eq_self_iff)

lemma sint_small: "unat (w :: 32 word) < 2 ^ 31 \<Longrightarrow> sint w = int (unat w)"
proof -
  assume a: "unat w < 2 ^ 31"
  have u: "uint w = int (unat w)" by (rule uint_nat)
  have a2: "unat w < 2147483648" using a by simp
  have lt: "uint w < 2147483648" using a2 u by linarith
  have ge: "- 2147483648 \<le> uint w" by (rule order_trans [of _ 0]) simp_all
  have st: "signed_take_bit 31 (uint w) = uint w"
    using lt ge by (simp add: signed_take_bit_int_eq_self_iff)
  show ?thesis by (simp only: sint_uint) (simp add: st)
qed

lemma byte_char_0 [simp]: "byte_char 0 = NUL"
  by (simp add: byte_char_def NUL_def char_of_eq_iff)

subsection \<open>memcpy\<close>

lemma memcpy_Some_iff [fs_simps]:
  "memcpy dst d src s n = Some r \<longleftrightarrow>
     d + n \<le> length dst \<and> s + n \<le> length src \<and>
     r = take d dst @ take n (drop s src) @ drop (d + n) dst"
  by (auto simp: memcpy_def)

lemma memcpy_None_iff [fs_simps]:
  "memcpy dst d src s n = None \<longleftrightarrow> \<not> (d + n \<le> length dst \<and> s + n \<le> length src)"
  by (simp add: memcpy_def)

lemma memcpy_length:
  "memcpy dst d src s n = Some r \<Longrightarrow> length r = length dst"
  by (auto simp: memcpy_def split: if_splits)

lemma memcpy_nth:
  assumes "memcpy dst d src s n = Some r" and "i < length dst"
  shows "r ! i = (if d \<le> i \<and> i < d + n then src ! (s + (i - d)) else dst ! i)"
proof -
  from assms(1) have b: "d + n \<le> length dst" "s + n \<le> length src"
    and r: "r = take d dst @ take n (drop s src) @ drop (d + n) dst"
    by (auto simp: memcpy_def split: if_splits)
  have lt: "length (take d dst) = d" and ln: "length (take n (drop s src)) = n"
    using b by auto
  show ?thesis
  proof (cases "i < d")
    case True
    then show ?thesis using lt b by (simp add: r nth_append)
  next
    case False
    then show ?thesis using lt ln b assms(2)
      by (auto simp: r nth_append add.commute)
  qed
qed

lemma memcpy_copied:
  "memcpy dst d src s n = Some r \<Longrightarrow> take n (drop d r) = take n (drop s src)"
  by (auto simp: memcpy_def split: if_splits)

lemma memcpy_zero [simp]:
  "d \<le> length dst \<Longrightarrow> s \<le> length src \<Longrightarrow> memcpy dst d src s 0 = Some dst"
  by (simp add: memcpy_def)

subsection \<open>Strings\<close>

lemma c_str_append_NUL [fs_simps]:
  assumes "NUL \<notin> set xs"
  shows "c_str (xs @ NUL # ys) = Some xs"
proof -
  have "takeWhile (\<lambda>c. c \<noteq> NUL) (xs @ NUL # ys) = xs @ takeWhile (\<lambda>c. c \<noteq> NUL) (NUL # ys)"
    using assms by (intro takeWhile_append2) auto
  then show ?thesis by (simp add: c_str_def)
qed

lemma c_str_Some_prefix:
  "c_str xs = Some n \<Longrightarrow> \<exists>ys. xs = n @ NUL # ys \<and> NUL \<notin> set n"
proof -
  assume "c_str xs = Some n"
  then have nul: "NUL \<in> set xs" and n: "n = takeWhile (\<lambda>c. c \<noteq> NUL) xs"
    by (auto simp: c_str_def split: if_splits)
  from nul have "dropWhile (\<lambda>c. c \<noteq> NUL) xs \<noteq> []" by simp
  then obtain y ys where d: "dropWhile (\<lambda>c. c \<noteq> NUL) xs = y # ys"
    by (cases "dropWhile (\<lambda>c. c \<noteq> NUL) xs") auto
  then have "y = NUL" using hd_dropWhile [of "\<lambda>c. c \<noteq> NUL" xs] by auto
  moreover have "NUL \<notin> set n" using n by (auto dest: set_takeWhileD)
  ultimately show ?thesis using n d takeWhile_dropWhile_id [of "\<lambda>c. c \<noteq> NUL" xs]
    by metis
qed

lemma strcpy_field_c_str:
  assumes "NUL \<notin> set name" and "length name < FS_FILENAME_LEN"
  shows "c_str (strcpy_field old name @ rest) = Some name"
proof -
  have k: "FS_FILENAME_LEN - length name = Suc (FS_FILENAME_LEN - Suc (length name))"
    using assms(2) by simp
  have "strcpy_field old name = name @ NUL # take (FS_FILENAME_LEN - Suc (length name))
          (drop (Suc (length name)) old)"
    using assms(2) by (simp add: strcpy_field_def take_append k)
  then show ?thesis using assms(1) by (simp add: c_str_append_NUL)
qed

lemma strcpy_field_full:
  "length name = FS_FILENAME_LEN \<Longrightarrow> strcpy_field old name = name"
  by (simp add: strcpy_field_def)

lemma length_strcpy_field:
  "length name \<le> FS_FILENAME_LEN \<Longrightarrow> length old = FS_FILENAME_LEN \<Longrightarrow>
   length (strcpy_field old name) = FS_FILENAME_LEN"
  by (auto simp: strcpy_field_def min_def)

subsection \<open>Little-endian integers\<close>

lemma length_le_bytes [simp]: "length (le_bytes n v) = n"
  by (induction n arbitrary: v) auto

lemma le_bytes_numeral:
  "le_bytes (numeral k) v = of_nat (v mod 256) # le_bytes (pred_numeral k) (v div 256)"
proof -
  have k: "numeral k = Suc (pred_numeral k)" by (rule numeral_eq_Suc)
  show ?thesis by (simp only: k le_bytes.simps)
qed

lemma le_val_le_bytes:
  "v < 256 ^ n \<Longrightarrow> le_val (le_bytes n v) = v"
proof (induction n arbitrary: v)
  case 0
  then show ?case by simp
next
  case (Suc n)
  have "v div 256 < 256 ^ n" using Suc.prems by (simp add: less_mult_imp_div_less)
  then have "le_val (le_bytes n (v div 256)) = v div 256" by (rule Suc.IH)
  moreover have "unat (of_nat (v mod 256) :: u8) = v mod 256"
    by (simp add: unat_of_nat)
  ultimately show ?case by simp
qed

lemma le_val_bound: "le_val bs < 256 ^ length bs"
proof (induction bs)
  case Nil
  then show ?case by simp
next
  case (Cons b bs)
  have "unat b < 256" using unsigned_less [of b] by simp
  with Cons.IH show ?case by simp
qed

lemma le_bytes_le_val: "le_bytes (length bs) (le_val bs) = bs"
proof (induction bs)
  case Nil
  then show ?case by simp
next
  case (Cons b bs)
  have ub: "unat b < 256" using unsigned_less [of b] by simp
  then have "(unat b + 256 * le_val bs) mod 256 = unat b" by simp
  moreover have "(unat b + 256 * le_val bs) div 256 = le_val bs" using ub by simp
  ultimately show ?case using Cons.IH by simp
qed

subsection \<open>Lists\<close>

lemma find_map_list: "find P (map f xs) = map_option f (find (P \<circ> f) xs)"
  by (induction xs) auto

lemma le_bytes_zero: "le_bytes n 0 = replicate n 0"
  by (induction n) auto

lemma unat_of_nat_u16: "x < 65536 \<Longrightarrow> unat (word_of_nat x :: u16) = x"
  by (simp add: unsigned_of_nat take_bit_nat_eq_self)

lemma unat_add_of_nat:
  assumes "unat (x :: 'a::len word) + c < 2 ^ LENGTH('a)"
  shows "unat (x + word_of_nat c) = unat x + c"
proof -
  have c: "unat (word_of_nat c :: 'a word) = c" using assms by (simp add: unat_of_nat)
  have "unat x + unat (word_of_nat c :: 'a word) < 2 ^ LENGTH('a)" using assms c by simp
  then have "unat (x + word_of_nat c) = unat x + unat (word_of_nat c :: 'a word)" by (rule unat_add_lem [THEN iffD1])
  then show ?thesis using c by simp
qed

lemma unat_u8_mod_256 [simp]: "unat (w :: u8) mod 256 = unat w"
proof -
  have "unat w < 2 ^ LENGTH(8)" by (rule unsigned_less)
  then show ?thesis by simp
qed

lemma le_val_le_bytes_u16: "le_val (le_bytes 2 (unat (w :: u16))) = unat w"
  using unsigned_less [of w] by (intro le_val_le_bytes) simp

lemma le_val_le_bytes_u32: "le_val (le_bytes 4 (unat (w :: u32))) = unat w"
  using unsigned_less [of w] by (intro le_val_le_bytes) simp

lemma le_val_le_bytes_u8: "le_val (le_bytes 1 (unat (w :: u8))) = unat w"
  using unsigned_less [of w] by (intro le_val_le_bytes) simp

lemma take_drop_concat:
  "\<forall>x\<in>set xs. length x = n \<Longrightarrow> i < length xs \<Longrightarrow> take n (drop (n * i) (concat xs)) = xs ! i"
proof (induction xs arbitrary: i)
  case (Cons x xs)
  then show ?case by (cases i) (simp_all add: drop_append)
qed simp

lemma concat_chunks:
  "concat (map (\<lambda>j. take k (drop (j * k) xs)) [0..<n]) = take (n * k) xs"
proof (induction n)
  case (Suc n)
  have t: "take (Suc n * k) xs = take (n * k) xs @ take k (drop (n * k) xs)"
    by (metis add.commute mult_Suc take_add)
  show ?case unfolding t using Suc by simp
qed simp

lemma length_concat_const: "\<forall>x\<in>set xs. length x = n \<Longrightarrow> length (concat xs) = n * length xs"
  by (induction xs) simp_all

lemma length_filter_update:
  "j < length xs \<Longrightarrow> P (xs ! j) = P y \<Longrightarrow> length (filter P (xs[j := y])) = length (filter P xs)"
proof (induction xs arbitrary: j)
  case (Cons x xs)
  then show ?case by (cases j) auto
qed simp

end
