(* ===== verification/Fat.thy ===== *)
theory Fat
  imports FS_Prelude
begin

text \<open>
  The file-allocation table in memory (the array \<open>fat\<close> of \<open>struct fat_blocks_t\<close>,
  one \<open>uint16_t\<close> per entry, \<open>num_fat_blocks * BLOCK_SIZE / 2\<close> entries as loaded by
  \<open>fs_mount\<close>) and the three routines of \<open>fs.c\<close> that only touch it: the chain walk
  \<open>correct_block\<close>, the allocator \<open>first_avail_fat\<close>, and the loop of
  \<open>fs_delete\<close> that frees a chain.  An index outside the array is undefined
  behaviour.  The loop of \<open>fs_delete\<close> need not end on a corrupted table, so it is a
  \<open>partial_function (option)\<close>.  Chains are abstracted as in the pointer-list
  theories: \<open>fat_path fat x bs y\<close> says that following the table from \<open>x\<close> visits the
  blocks \<open>bs\<close> and arrives at \<open>y\<close>; a file's chain ends at \<open>FAT_EOC\<close>.
\<close>

section \<open>Definitions\<close>

text \<open>\<open>fat[i].block\<close> as an rvalue and as an lvalue.\<close>

definition fat_get :: "u16 list \<Rightarrow> nat \<Rightarrow> fs_error + u16" where
  "fat_get fat i = (if i < length fat then Inr (fat ! i) else Inl (Undefined FatOutOfBounds))"

definition fat_set :: "u16 list \<Rightarrow> nat \<Rightarrow> u16 \<Rightarrow> fs_error + u16 list" where
  "fat_set fat i v = (if i < length fat then Inr (fat[i := v]) else Inl (Undefined FatOutOfBounds))"

text \<open>\<open>correct_block(index, block)\<close> (fs.c 376--385): follow the table \<open>block\<close> times.\<close>

fun correct_block :: "u16 list \<Rightarrow> u16 \<Rightarrow> nat \<Rightarrow> fs_error + u16" where
  "correct_block fat index 0 = Inr index"
| "correct_block fat index (Suc k) =
     (case fat_get fat (unat index) of
        Inl e \<Rightarrow> Inl e
      | Inr nxt \<Rightarrow> correct_block fat nxt k)"

text \<open>\<open>first_avail_fat()\<close> (fs.c 399--405): the loop from \<open>i\<close> with \<open>k\<close> iterations left.\<close>

fun first_avail_scan :: "u16 list \<Rightarrow> nat \<Rightarrow> nat \<Rightarrow> fs_error + int" where
  "first_avail_scan fat i 0 = Inr (-1)"
| "first_avail_scan fat i (Suc k) =
     (case fat_get fat i of
        Inl e \<Rightarrow> Inl e
      | Inr v \<Rightarrow> if v = 0 then Inr (int i) else first_avail_scan fat (Suc i) k)"

definition first_avail_fat :: "nat \<Rightarrow> u16 list \<Rightarrow> fs_error + int" where
  "first_avail_fat num_data_blocks fat = first_avail_scan fat 0 num_data_blocks"

text \<open>The \<open>while(fat_index != 0xFFFF)\<close> loop of \<open>fs_delete\<close> (fs.c 228--232).\<close>

partial_function (option) free_chain :: "u16 list \<Rightarrow> u16 \<Rightarrow> (fs_error + u16 list) option" where
  "free_chain fat fat_index =
     (if fat_index = FAT_EOC then Some (Inr fat)
      else (case fat_get fat (unat fat_index) of
              Inl e \<Rightarrow> Some (Inl e)
            | Inr next_fat_index \<Rightarrow> free_chain (fat[unat fat_index := 0]) next_fat_index))"

subsection \<open>Abstraction: chains\<close>

fun fat_path :: "u16 list \<Rightarrow> u16 \<Rightarrow> nat list \<Rightarrow> u16 \<Rightarrow> bool" where
  "fat_path fat x [] y \<longleftrightarrow> x = y"
| "fat_path fat x (b # bs) y \<longleftrightarrow>
     x \<noteq> FAT_EOC \<and> unat x = b \<and> b < length fat \<and> fat_path fat (fat ! b) bs y"

definition fat_chain :: "u16 list \<Rightarrow> u16 \<Rightarrow> nat list \<Rightarrow> bool" where
  "fat_chain fat x bs \<longleftrightarrow> fat_path fat x bs FAT_EOC"

text \<open>The table after each block of \<open>bs\<close> is marked free, and the reference
  allocator: the first free entry below \<open>n\<close>.\<close>

definition free_blocks :: "nat list \<Rightarrow> u16 list \<Rightarrow> u16 list" where
  "free_blocks bs fat = fold (\<lambda>b f. f[b := 0]) bs fat"

definition first_free :: "nat \<Rightarrow> u16 list \<Rightarrow> nat option" where
  "first_free n fat = find (\<lambda>i. fat ! i = 0) [0..<n]"

text \<open>Number of free entries among the first \<open>n\<close> of the table.\<close>

definition free_count :: "nat \<Rightarrow> u16 list \<Rightarrow> nat" where
  "free_count n ft = length (filter (\<lambda>i. ft ! i = 0) [0..<n])"

section \<open>Lemmas\<close>

lemma fat_get_Inr [simp]: "i < length fat \<Longrightarrow> fat_get fat i = Inr (fat ! i)"
  by (simp add: fat_get_def)

lemma fat_get_Inl [simp]:
  "\<not> i < length fat \<Longrightarrow> fat_get fat i = Inl (Undefined FatOutOfBounds)"
  by (simp add: fat_get_def)

lemma fat_set_Inr [simp]: "i < length fat \<Longrightarrow> fat_set fat i v = Inr (fat[i := v])"
  by (simp add: fat_set_def)

lemma fat_set_Inl [simp]:
  "\<not> i < length fat \<Longrightarrow> fat_set fat i v = Inl (Undefined FatOutOfBounds)"
  by (simp add: fat_set_def)

subsection \<open>Paths and chains\<close>

lemma fat_path_append:
  "fat_path fat x (as @ bs) z \<longleftrightarrow> (\<exists>y. fat_path fat x as y \<and> fat_path fat y bs z)"
  by (induction as arbitrary: x) auto

lemma fat_path_upd [simp]:
  "i \<notin> set bs \<Longrightarrow> fat_path (fat[i := v]) x bs y = fat_path fat x bs y"
  by (induction bs arbitrary: x) auto

lemma fat_path_set: "fat_path fat x bs y \<Longrightarrow> b \<in> set bs \<Longrightarrow> b < length fat"
  by (induction bs arbitrary: x) auto

lemma fat_chain_Nil [simp]: "fat_chain fat x [] \<longleftrightarrow> x = FAT_EOC"
  by (simp add: fat_chain_def)

lemma fat_chain_Cons [simp]:
  "fat_chain fat x (b # bs) \<longleftrightarrow>
     x \<noteq> FAT_EOC \<and> unat x = b \<and> b < length fat \<and> fat_chain fat (fat ! b) bs"
  by (simp add: fat_chain_def)

lemma fat_chain_upd [simp]:
  "i \<notin> set bs \<Longrightarrow> fat_chain (fat[i := v]) x bs = fat_chain fat x bs"
  by (simp add: fat_chain_def)

lemma fat_chain_unique: "fat_chain fat x bs \<Longrightarrow> fat_chain fat x cs \<Longrightarrow> bs = cs"
proof (induction bs arbitrary: x cs)
  case Nil
  then show ?case by (cases cs) auto
next
  case (Cons b bs)
  then show ?case by (cases cs) auto
qed

lemma fat_chain_not_back:
  assumes "fat_chain fat (fat ! b) bs" and "b < length fat" and "word_of_nat b \<noteq> FAT_EOC"
  shows "b \<notin> set bs"
proof
  assume "b \<in> set bs"
  then obtain us vs where bs: "bs = us @ b # vs" by (meson split_list)
  with assms(1) obtain y where "fat_path fat (fat ! b) us y" and y: "fat_path fat y (b # vs) FAT_EOC"
    by (auto simp: fat_chain_def fat_path_append)
  from y have "fat_chain fat (fat ! b) vs" by (simp add: fat_chain_def)
  with assms(1) have "bs = vs" by (rule fat_chain_unique)
  with bs show False by simp
qed

lemma fat_chain_distinct: "fat_chain fat x bs \<Longrightarrow> distinct bs"
proof (induction bs arbitrary: x)
  case Nil
  then show ?case by simp
next
  case (Cons b bs)
  then have ch: "fat_chain fat (fat ! b) bs" and b: "b < length fat" and x: "unat x = b"
    and ne: "x \<noteq> FAT_EOC" by auto
  have "word_of_nat b = x" using x by auto
  with ne ch b have "b \<notin> set bs" by (auto dest: fat_chain_not_back)
  with Cons.IH ch show ?case by simp
qed

lemma fat_chain_bound: "fat_chain fat x bs \<Longrightarrow> b \<in> set bs \<Longrightarrow> b < length fat"
  by (auto simp: fat_chain_def dest: fat_path_set)

subsection \<open>The chain walk\<close>

lemma correct_block_path:
  "fat_path fat x bs y \<Longrightarrow> correct_block fat x (length bs) = Inr y"
  by (induction bs arbitrary: x) auto

lemma correct_block_chain:
  assumes "fat_chain fat x bs" and "k \<le> length bs"
  shows "correct_block fat x k = Inr (if k < length bs then word_of_nat (bs ! k) else FAT_EOC)"
proof -
  from assms(1) have p: "fat_path fat x (take k bs @ drop k bs) FAT_EOC"
    by (simp add: fat_chain_def)
  then obtain y where py: "fat_path fat x (take k bs) y" and rest: "fat_path fat y (drop k bs) FAT_EOC"
    unfolding fat_path_append by blast
  from py have "correct_block fat x k = Inr y"
    using correct_block_path [OF py] assms(2) by simp
  moreover have "y = (if k < length bs then word_of_nat (bs ! k) else FAT_EOC)"
  proof (cases "k < length bs")
    case True
    then have "drop k bs = bs ! k # drop (Suc k) bs" by (simp add: Cons_nth_drop_Suc)
    with rest have "unat y = bs ! k" by auto
    moreover have "y = word_of_nat (unat y)" by simp
    ultimately show ?thesis using True by simp
  next
    case False
    with assms(2) rest show ?thesis by simp
  qed
  ultimately show ?thesis by simp
qed

subsection \<open>Freeing a chain\<close>

lemma free_chain_chain:
  "fat_chain fat x bs \<Longrightarrow> free_chain fat x = Some (Inr (free_blocks bs fat))"
proof (induction bs arbitrary: fat x)
  case Nil
  then show ?case by (simp add: free_chain.simps free_blocks_def)
next
  case (Cons b bs)
  then have ch: "fat_chain fat (fat ! b) bs" and b: "b < length fat" and x: "unat x = b"
    and ne: "x \<noteq> FAT_EOC" by auto
  have "b \<notin> set bs" using Cons.prems fat_chain_distinct by fastforce
  with ch have "fat_chain (fat[b := 0]) (fat ! b) bs" by simp
  then have "free_chain (fat[b := 0]) (fat ! b) = Some (Inr (free_blocks bs (fat[b := 0])))"
    by (rule Cons.IH)
  with b x ne show ?case
    by (simp add: free_chain.simps [of fat x] free_blocks_def)
qed

lemma free_blocks_nth:
  "i < length fat \<Longrightarrow> free_blocks bs fat ! i = (if i \<in> set bs then 0 else fat ! i)"
  by (induction bs arbitrary: fat) (auto simp: free_blocks_def nth_list_update)

lemma length_free_blocks [simp]: "length (free_blocks bs fat) = length fat"
  by (induction bs arbitrary: fat) (auto simp: free_blocks_def)

subsection \<open>The allocator\<close>

lemma first_avail_scan_find:
  "i + k \<le> length fat \<Longrightarrow>
   first_avail_scan fat i k =
     Inr (case find (\<lambda>j. fat ! j = 0) [i..<i + k] of None \<Rightarrow> -1 | Some j \<Rightarrow> int j)"
proof (induction k arbitrary: i)
  case 0
  then show ?case by simp
next
  case (Suc k)
  have "i < length fat" using Suc.prems by simp
  with Suc.IH [of "Suc i"] Suc.prems show ?case by (simp add: upt_conv_Cons del: upt_Suc)
qed

lemma first_avail_fat_first_free:
  "n \<le> length fat \<Longrightarrow>
   first_avail_fat n fat = Inr (case first_free n fat of None \<Rightarrow> -1 | Some j \<Rightarrow> int j)"
  by (simp add: first_avail_fat_def first_free_def first_avail_scan_find)

lemma first_free_Some:
  "first_free n fat = Some j \<Longrightarrow> j < n \<and> fat ! j = 0 \<and> (\<forall>i<j. fat ! i \<noteq> 0)"
  by (auto simp: first_free_def find_Some_iff)

lemma first_free_None:
  "first_free n fat = None \<longleftrightarrow> (\<forall>i<n. fat ! i \<noteq> 0)"
  by (auto simp: first_free_def find_None_iff)

subsection \<open>Extending a chain\<close>

lemma unat_not_EOC: "(x::u16) \<noteq> FAT_EOC \<Longrightarrow> unat x < 65535"
proof -
  assume x: "x \<noteq> FAT_EOC"
  have "unat x < 65536" using unsigned_less [of x] by simp
  moreover have "unat x \<noteq> 65535"
    using x by (auto simp: FAT_EOC_def word_unat_eq_iff)
  ultimately show ?thesis by simp
qed

lemma word_of_nat_not_EOC: "b < 65535 \<Longrightarrow> (word_of_nat b :: u16) \<noteq> FAT_EOC"
  by (auto simp: FAT_EOC_def word_unat_eq_iff unsigned_of_nat take_bit_nat_eq_self)

lemma fat_chain_elem:
  "fat_chain ft x cs \<Longrightarrow> b \<in> set cs \<Longrightarrow> b < length ft \<and> b < 65535"
  by (induction cs arbitrary: x) (auto dest: unat_not_EOC)

lemma fat_chain_nth:
  "fat_chain ft x cs \<Longrightarrow> j < length cs \<Longrightarrow>
   ft ! (cs ! j) = (if Suc j < length cs then word_of_nat (cs ! Suc j) else FAT_EOC)"
proof (induction cs arbitrary: x j)
  case (Cons b bs)
  then show ?case by (cases j; cases bs) auto
qed simp

lemma fat_path_last:
  "fat_chain ft x cs \<Longrightarrow> cs \<noteq> [] \<Longrightarrow> fat_path (ft[last cs := v]) x cs v"
proof (induction cs arbitrary: x)
  case (Cons b bs)
  show ?case
  proof (cases bs)
    case Nil
    then show ?thesis using Cons.prems by simp
  next
    case (Cons b' bs')
    have d: "b \<noteq> last bs" using fat_chain_distinct [OF Cons.prems(1)] \<open>bs = b' # bs'\<close>
      by (metis distinct.simps(2) last_in_set list.discI)
    then show ?thesis using Cons.prems Cons.IH [of "ft ! b"] \<open>bs = b' # bs'\<close> by simp
  qed
qed simp

lemma fat_chain_snoc:
  assumes "fat_chain ft x cs" and "cs \<noteq> []" and "nb \<notin> set cs" and "nb < length ft" and "nb < 65535"
  shows "fat_chain (ft[nb := FAT_EOC, last cs := word_of_nat nb]) x (cs @ [nb])"
proof -
  have "fat_chain (ft[nb := FAT_EOC]) x cs" using assms(1,3) by simp
  then have p: "fat_path (ft[nb := FAT_EOC, last cs := word_of_nat nb]) x cs (word_of_nat nb)"
    using assms(2) by (rule fat_path_last)
  have "last cs \<noteq> nb" using assms(2,3) last_in_set by blast
  then show ?thesis using p assms(4,5)
    by (auto simp: fat_chain_def fat_path_append word_of_nat_not_EOC unsigned_of_nat take_bit_nat_eq_self)
qed

lemma free_count_card: "free_count n ft = card {i. i < n \<and> ft ! i = 0}"
proof -
  have "{i. i < n \<and> ft ! i = 0} = set (filter (\<lambda>i. ft ! i = 0) [0..<n])" by auto
  moreover have "card (set (filter (\<lambda>i. ft ! i = 0) [0..<n])) = length (filter (\<lambda>i. ft ! i = 0) [0..<n])"
    by (rule distinct_card) simp
  ultimately show ?thesis by (simp add: free_count_def)
qed

lemma free_count_alloc:
  assumes "ft ! i = 0" and "i < n" and "i < length ft" and "v \<noteq> 0"
  shows "free_count n (ft[i := v]) = free_count n ft - 1"
proof -
  have "{j. j < n \<and> ft[i := v] ! j = 0} = {j. j < n \<and> ft ! j = 0} - {i}"
    using assms by (auto simp: nth_list_update)
  then show ?thesis using assms by (simp add: free_count_card)
qed

lemma free_count_keep:
  assumes "ft ! i \<noteq> 0" and "v \<noteq> 0"
  shows "free_count n (ft[i := v]) = free_count n ft"
proof -
  have "{j. j < n \<and> ft[i := v] ! j = 0} = {j. j < n \<and> ft ! j = 0}"
    using assms by (cases "i < length ft") (auto simp: nth_list_update list_update_beyond)
  then show ?thesis by (simp add: free_count_card)
qed

lemma first_free_exists: "0 < free_count n ft \<Longrightarrow> \<exists>j. first_free n ft = Some j"
  by (cases "first_free n ft") (auto simp: first_free_None free_count_def filter_empty_conv)

lemma free_count_free_blocks:
  assumes "distinct bs" and "\<forall>b\<in>set bs. ft ! b \<noteq> 0" and "n \<le> length ft"
  shows "free_count n (free_blocks bs ft) = free_count n ft + length (filter (\<lambda>b. b < n) bs)"
proof -
  let ?A = "{i. i < n \<and> ft ! i = 0}"
  let ?B = "set (filter (\<lambda>b. b < n) bs)"
  have u: "{i. i < n \<and> free_blocks bs ft ! i = 0} = ?A \<union> ?B"
    using assms(3) by (auto simp: free_blocks_nth)
  have "card (?A \<union> ?B) = card ?A + card ?B"
    by (rule card_Un_disjoint) (use assms(2) in auto)
  moreover have "card ?B = length (filter (\<lambda>b. b < n) bs)"
    using assms(1) by (intro distinct_card) simp
  ultimately show ?thesis unfolding free_count_card u by simp
qed

end
