(* ===== verification/Block_Device.thy ===== *)
theory Block_Device
  imports FS_Prelude
begin

text \<open>
  The virtual block device of \<open>disk.h\<close> (\<open>block_disk_open\<close>, \<open>block_disk_close\<close>,
  \<open>block_disk_count\<close>, \<open>block_read\<close>, \<open>block_write\<close>).  Its implementation is not
  part of the repository's sources; it is modelled from the specification's contract
  (section 6): a disk image is a list of blocks, at most one image is open, a block
  transfer fails when no image is open or the index is past the last block, and every
  failure is reported as \<open>-1\<close> (here: \<open>None\<close>).
\<close>

record disk =
  dk_name :: string
  dk_blocks :: "block list"
  dk_open :: bool

definition block_disk_open :: "string \<Rightarrow> disk \<Rightarrow> disk option" where
  "block_disk_open name d =
     (if dk_open d \<or> name \<noteq> dk_name d then None else Some (d\<lparr>dk_open := True\<rparr>))"

definition block_disk_close :: "disk \<Rightarrow> disk option" where
  "block_disk_close d = (if dk_open d then Some (d\<lparr>dk_open := False\<rparr>) else None)"

definition block_disk_count :: "disk \<Rightarrow> int" where
  "block_disk_count d = (if dk_open d then int (length (dk_blocks d)) else -1)"

definition block_read :: "nat \<Rightarrow> disk \<Rightarrow> block option" where
  "block_read i d = (if dk_open d \<and> i < length (dk_blocks d) then Some (dk_blocks d ! i) else None)"

text \<open>\<open>block_write\<close> transfers \<open>BLOCK_SIZE\<close> bytes from the caller's buffer.\<close>

definition block_write :: "nat \<Rightarrow> block \<Rightarrow> disk \<Rightarrow> disk option" where
  "block_write i b d =
     (if dk_open d \<and> i < length (dk_blocks d)
      then Some (d\<lparr>dk_blocks := (dk_blocks d)[i := take BLOCK_SIZE b]\<rparr>) else None)"

lemma block_read_Some_iff:
  "block_read i d = Some b \<longleftrightarrow> dk_open d \<and> i < length (dk_blocks d) \<and> b = dk_blocks d ! i"
  by (auto simp: block_read_def)

lemma block_write_Some_iff:
  "block_write i b d = Some d' \<longleftrightarrow>
     dk_open d \<and> i < length (dk_blocks d) \<and> d' = d\<lparr>dk_blocks := (dk_blocks d)[i := take BLOCK_SIZE b]\<rparr>"
  by (auto simp: block_write_def split: if_splits)

lemma block_write_frame:
  "block_write i b d = Some d' \<Longrightarrow>
   dk_open d' = dk_open d \<and> dk_name d' = dk_name d \<and> length (dk_blocks d') = length (dk_blocks d)"
  by (auto simp: block_write_def split: if_splits)

lemma block_read_write:
  "block_write i b d = Some d' \<Longrightarrow>
   block_read j d' = (if j = i then Some (take BLOCK_SIZE b) else block_read j d)"
  by (auto simp: block_write_def block_read_def split: if_splits)

end
