(* ===== verification/FS_State.thy ===== *)
theory FS_State
  imports Fat Block_Device
begin

text \<open>
  The data of \<open>fs.c\<close>: the packed structs \<open>super_block_t\<close>, \<open>file\<close> (a root-directory
  entry) and \<open>fd_table_entry\<close> as records with the source's field names, and the five
  globals (\<open>super_block\<close>, \<open>fat\<close>, \<open>root_direct\<close>, \<open>fd_table\<close>, \<open>mounted\<close>) together
  with the block device as one state record.  A global pointer that does not point to
  initialised memory (before the first mount, after \<open>free\<close> in \<open>fs_umount\<close>, or
  right after \<open>malloc\<close> in \<open>fs_mount\<close>) is \<open>None\<close>; an operation that dereferences
  it has undefined behaviour.

  Names are stored as the characters of their fixed-size field.  A C string read from a
  field (\<open>strcmp\<close>, \<open>strlen\<close>, \<open>printf("%s")\<close>) runs over the bytes of the
  packed struct until the first NUL, so it is read from the struct's bytes
  (\<open>entry_bytes\<close>, \<open>fd_name_bytes\<close>): a name that fills its field is continued by the
  bytes of the following fields.  Reading past the end of the entry is treated as
  undefined (\<open>c_str\<close> returns \<open>None\<close>).
\<close>

section \<open>Definitions\<close>

record super_block =
  signature :: "char list"
  total_blocks :: u16
  root_direct_index :: u16
  data_block_index :: u16
  num_data_blocks :: u16
  num_fat_blocks :: u8
  sb_padding :: "u8 list"

record file_entry =
  file_name :: "char list"
  file_size :: u32
  file_index :: u16
  file_padding :: "u8 list"

record fd_entry =
  fd_file_name :: "char list"
  fd_file_index :: int
  fd_offset :: size_t
  fd_available :: bool

record fs_state =
  super_block :: "super_block option"
  fat :: "u16 list option"
  root_direct :: "file_entry list option"
  fd_table :: "fd_entry list option"
  mounted :: bool
  disk :: disk

text \<open>The 32 bytes of a directory entry, as characters, and the C string at its name.\<close>

definition entry_bytes :: "file_entry \<Rightarrow> char list" where
  "entry_bytes e = file_name e @ map byte_char
     (le_bytes 4 (unat (file_size e)) @ le_bytes 2 (unat (file_index e)) @ file_padding e)"

definition entry_name :: "file_entry \<Rightarrow> char list option" where
  "entry_name e = c_str (entry_bytes e)"

text \<open>\<open>file_name[0] == '\0'\<close>: the slot is empty.\<close>

definition entry_empty :: "file_entry \<Rightarrow> bool" where
  "entry_empty e \<longleftrightarrow> hd (entry_bytes e) = NUL"

text \<open>The bytes of a descriptor-table entry from its name on: the name field, the
  \<open>int file_index\<close>, the \<open>size_t offset\<close> and the \<open>bool available\<close>.\<close>

definition fd_name_bytes :: "fd_entry \<Rightarrow> char list" where
  "fd_name_bytes f = fd_file_name f @ map byte_char
     (le_bytes 4 (unat (word_of_int (fd_file_index f) :: u32)) @ le_bytes 8 (fd_offset f mod 2 ^ 64)
      @ [if fd_available f then 1 else 0])"

text \<open>\<open>strlen(fd_table->table[fd].file_name)\<close>.\<close>

definition fd_strlen :: "fd_entry \<Rightarrow> nat option" where
  "fd_strlen f = map_option length (c_str (fd_name_bytes f))"

text \<open>Shape of the in-memory structures: every entry has the sizes of its struct, and
  the padding of a directory entry (never written by the library) holds a zero byte,
  so that the name of every entry can be read.\<close>

definition entry_wf :: "file_entry \<Rightarrow> bool" where
  "entry_wf e \<longleftrightarrow> length (file_name e) = FS_FILENAME_LEN \<and> length (file_padding e) = 10 \<and>
     0 \<in> set (file_padding e)"

definition dir_wf :: "file_entry list \<Rightarrow> bool" where
  "dir_wf dir \<longleftrightarrow> length dir = FS_FILE_MAX_COUNT \<and> list_all entry_wf dir"

definition fd_wf :: "fd_entry \<Rightarrow> bool" where
  "fd_wf f \<longleftrightarrow> length (fd_file_name f) = FS_FILENAME_LEN"

definition fdt_wf :: "fd_entry list \<Rightarrow> bool" where
  "fdt_wf fdt \<longleftrightarrow> length fdt = FS_OPEN_MAX_COUNT \<and> list_all fd_wf fdt"

section \<open>Lemmas\<close>

lemma entry_bytes_name_NUL:
  "NUL \<in> set (file_name e) \<Longrightarrow> entry_name e = c_str (file_name e)"
  by (simp add: entry_name_def entry_bytes_def c_str_def takeWhile_append1)

lemma entry_name_wf: "entry_wf e \<Longrightarrow> \<exists>n. entry_name e = Some n"
  by (force simp: entry_wf_def entry_name_def entry_bytes_def c_str_def)

lemma entry_empty_wf:
  "entry_wf e \<Longrightarrow> entry_empty e \<longleftrightarrow> hd (file_name e) = NUL"
  by (cases "file_name e") (auto simp: entry_wf_def entry_empty_def entry_bytes_def FS_FILENAME_LEN_def)

lemma fd_strlen_open: "\<not> fd_available f \<Longrightarrow> \<exists>n. fd_strlen f = Some n"
  by (simp add: fd_strlen_def fd_name_bytes_def c_str_def)

end
