(* ===== verification/Directory.thy ===== *)
theory Directory
  imports FS_State
begin

text \<open>
  The directory layer of \<open>fs.c\<close>: \<open>fs_create\<close> (165--201), \<open>fs_delete\<close>
  (203--240) and \<open>fs_ls\<close> (242--256) over the root directory \<open>root_direct\<close>.
  Each scan loop of the source is a recursive function over the directory entries:
  \<open>create_scan\<close> is the \<open>while\<close> loop of \<open>fs_create\<close>, which stops at the first
  empty slot; \<open>find_file_from\<close> is the \<open>for\<close> loop shared by \<open>fs_delete\<close> and
  \<open>fs_open\<close>, which keeps the last slot whose name matches.  \<open>fs_delete\<close> runs the
  chain-freeing loop \<open>free_chain\<close> of theory \<open>Fat\<close> and so may not return: its
  result is an option, \<open>None\<close> for a run that does not end.
\<close>

section \<open>Definitions\<close>

fun create_scan :: "char list \<Rightarrow> nat \<Rightarrow> file_entry list \<Rightarrow> fs_error + nat option" where
  "create_scan filename i [] = Inr None"
| "create_scan filename i (e # es) =
     (case entry_name e of
        None \<Rightarrow> Inl (Undefined UnterminatedString)
      | Some n \<Rightarrow>
          if n = filename then Inl AlreadyExists
          else if entry_empty e then Inr (Some i)
          else create_scan filename (Suc i) es)"

definition create_entry :: "char list \<Rightarrow> file_entry \<Rightarrow> file_entry" where
  "create_entry filename e =
     e\<lparr>file_name := strcpy_field (file_name e) filename, file_size := 0, file_index := FAT_EOC\<rparr>"

definition fs_create :: "char list \<Rightarrow> fs_state \<Rightarrow> (fs_error + int) \<times> fs_state" where
  "fs_create filename s =
     (if \<not> mounted s then (Inl NotMounted, s)
      else if FS_FILENAME_LEN < length filename then (Inl InvalidArgument, s)
      else case root_direct s of
        None \<Rightarrow> (Inl (Undefined UninitialisedRead), s)
      | Some dir \<Rightarrow>
          (case create_scan filename 0 (take FS_FILE_MAX_COUNT dir) of
             Inl err \<Rightarrow> (Inl err, s)
           | Inr None \<Rightarrow> (Inl DirectoryFull, s)
           | Inr (Some i) \<Rightarrow>
               (Inr 0, s\<lparr>root_direct := Some (dir[i := create_entry filename (dir ! i)])\<rparr>)))"

fun find_file_from :: "char list \<Rightarrow> nat \<Rightarrow> file_entry list \<Rightarrow> int \<Rightarrow> fs_error + int" where
  "find_file_from filename i [] found = Inr found"
| "find_file_from filename i (e # es) found =
     (case entry_name e of
        None \<Rightarrow> Inl (Undefined UnterminatedString)
      | Some n \<Rightarrow> find_file_from filename (Suc i) es (if n = filename then int i else found))"

definition find_file :: "char list \<Rightarrow> file_entry list \<Rightarrow> fs_error + int" where
  "find_file filename dir = find_file_from filename 0 (take FS_FILE_MAX_COUNT dir) (-1)"

definition clear_entry :: "file_entry \<Rightarrow> file_entry" where
  "clear_entry e = e\<lparr>file_name := (file_name e)[0 := NUL], file_size := 0, file_index := FAT_EOC\<rparr>"

definition fs_delete :: "char list \<Rightarrow> fs_state \<Rightarrow> ((fs_error + int) \<times> fs_state) option" where
  "fs_delete filename s =
     (if \<not> mounted s then Some (Inl NotMounted, s)
      else if FS_FILENAME_LEN < length filename then Some (Inl InvalidArgument, s)
      else case root_direct s of
        None \<Rightarrow> Some (Inl (Undefined UninitialisedRead), s)
      | Some dir \<Rightarrow>
          (case find_file filename dir of
             Inl err \<Rightarrow> Some (Inl err, s)
           | Inr idx \<Rightarrow>
               if idx = -1 then Some (Inl NotFound, s)
               else
                 let e = dir ! nat idx;
                     cleared = dir[nat idx := clear_entry e]
                 in case fat s of
                      None \<Rightarrow>
                        if file_index e = FAT_EOC
                        then Some (Inr 0, s\<lparr>root_direct := Some cleared\<rparr>)
                        else Some (Inl (Undefined UninitialisedRead), s)
                    | Some ft \<Rightarrow>
                        map_option
                          (\<lambda>r. case r of
                                 Inl err \<Rightarrow> (Inl err, s)
                               | Inr ft' \<Rightarrow> (Inr 0, s\<lparr>fat := Some ft', root_direct := Some cleared\<rparr>))
                          (free_chain ft (file_index e))))"

fun ls_entries :: "file_entry list \<Rightarrow> fs_error + (char list \<times> u32 \<times> u16) list" where
  "ls_entries [] = Inr []"
| "ls_entries (e # es) =
     (if entry_empty e then ls_entries es
      else case entry_name e of
        None \<Rightarrow> Inl (Undefined UnterminatedString)
      | Some n \<Rightarrow>
          (case ls_entries es of
             Inl err \<Rightarrow> Inl err
           | Inr r \<Rightarrow> Inr ((n, file_size e, file_index e) # r)))"

definition fs_ls :: "fs_state \<Rightarrow> fs_error + (char list \<times> u32 \<times> u16) list" where
  "fs_ls s =
     (if \<not> mounted s then Inl NotMounted
      else case root_direct s of
        None \<Rightarrow> Inl (Undefined UninitialisedRead)
      | Some dir \<Rightarrow> ls_entries (take FS_FILE_MAX_COUNT dir))"

text \<open>Reference functions: the slots whose name reads as \<open>n\<close>, and the first empty slot.\<close>

definition matching :: "char list \<Rightarrow> file_entry list \<Rightarrow> nat list" where
  "matching n es = filter (\<lambda>j. entry_name (es ! j) = Some n) [0..<length es]"

definition first_empty :: "file_entry list \<Rightarrow> nat option" where
  "first_empty es = find (\<lambda>j. entry_empty (es ! j)) [0..<length es]"

text \<open>The entries \<open>create_scan\<close> inspects: up to and including the first empty slot.\<close>

definition scanned :: "file_entry list \<Rightarrow> file_entry list" where
  "scanned es = (case first_empty es of None \<Rightarrow> es | Some k \<Rightarrow> take (Suc k) es)"

section \<open>Lemmas\<close>


lemma matching_Cons:
  "matching n (e # es) =
     (if entry_name e = Some n then 0 # map Suc (matching n es) else map Suc (matching n es))"
proof -
  have "[0..<length (e # es)] = 0 # map Suc [0..<length es]"
    by (simp add: upt_conv_Cons map_Suc_upt del: upt_Suc)
  then show ?thesis by (simp add: matching_def filter_map comp_def)
qed

lemma matching_replicate:
  "entry_name e \<noteq> Some n \<Longrightarrow> matching n (replicate k e) = []"
  by (simp add: matching_def filter_empty_conv)

lemma sorted_matching: "sorted (matching n dir)"
  by (simp add: matching_def sorted_wrt_filter)

lemma matching_le_last: "k \<in> set (matching n dir) \<Longrightarrow> k \<le> last (matching n dir)"
proof -
  assume k: "k \<in> set (matching n dir)"
  then have ne: "matching n dir \<noteq> []" by auto
  have "sorted (butlast (matching n dir) @ [last (matching n dir)])"
    using sorted_matching ne by (simp add: append_butlast_last_id)
  moreover have "k \<in> set (butlast (matching n dir) @ [last (matching n dir)])"
    using k ne by (simp add: append_butlast_last_id)
  ultimately show ?thesis by (auto simp: sorted_append)
qed

lemma first_empty_Cons:
  "first_empty (e # es) = (if entry_empty e then Some 0 else map_option Suc (first_empty es))"
proof -
  have "[0..<length (e # es)] = 0 # map Suc [0..<length es]"
    by (simp add: upt_conv_Cons map_Suc_upt del: upt_Suc)
  then show ?thesis by (simp add: first_empty_def find_map_list comp_def)
qed

lemma find_file_from_matching:
  "list_all (\<lambda>e. entry_name e \<noteq> None) es \<Longrightarrow>
   find_file_from n i es f = Inr (if matching n es = [] then f else int (i + last (matching n es)))"
proof (induction es arbitrary: i f)
  case Nil
  then show ?case by (simp add: matching_def)
next
  case (Cons e es)
  then obtain m where m: "entry_name e = Some m" by auto
  with Cons show ?case by (auto simp: matching_Cons last_map)
qed

lemma scanned_Cons:
  "scanned (e # es) = (if entry_empty e then [e] else e # scanned es)"
  by (auto simp: scanned_def first_empty_Cons split: option.splits)

lemma create_scan_spec:
  "list_all (\<lambda>e. entry_name e \<noteq> None) es \<Longrightarrow>
   create_scan n i es =
     (if \<exists>e\<in>set (scanned es). entry_name e = Some n then Inl AlreadyExists
      else Inr (map_option ((+) i) (first_empty es)))"
proof (induction es arbitrary: i)
  case Nil
  then show ?case by (simp add: scanned_def first_empty_def)
next
  case (Cons e es)
  then obtain m where m: "entry_name e = Some m" by auto
  with Cons show ?case
    by (cases "first_empty es") (auto simp: scanned_Cons first_empty_Cons)
qed


lemma dir_wf_names: "dir_wf dir \<Longrightarrow> list_all (\<lambda>e. entry_name e \<noteq> None) dir"
  by (auto simp: dir_wf_def list_all_iff dest: entry_name_wf)

lemma dir_wf_take: "dir_wf dir \<Longrightarrow> take FS_FILE_MAX_COUNT dir = dir"
  by (simp add: dir_wf_def)

lemma create_entry_name:
  assumes "entry_wf e" and "NUL \<notin> set n" and "length n \<le> FS_FILENAME_LEN"
  shows "entry_name (create_entry n e) = Some n"
proof -
  let ?rest = "map byte_char (le_bytes 4 0 @ le_bytes 2 (unat FAT_EOC) @ file_padding e)"
  have "le_bytes 4 (0::nat) = [0, 0, 0, 0]"
    by (simp add: le_bytes_zero numeral_eq_Suc)
  then have rest: "?rest = NUL # tl ?rest" by simp
  have eb: "entry_bytes (create_entry n e) = strcpy_field (file_name e) n @ ?rest"
    by (simp add: entry_bytes_def create_entry_def)
  show ?thesis
  proof (cases "length n < FS_FILENAME_LEN")
    case True
    then show ?thesis using assms(2) by (simp add: entry_name_def eb strcpy_field_c_str)
  next
    case False
    with assms(3) have "strcpy_field (file_name e) n = n" by (simp add: strcpy_field_full)
    then show ?thesis using assms(2) rest
      by (simp add: entry_name_def eb) (metis c_str_append_NUL)
  qed
qed

lemma create_entry_wf:
  "entry_wf e \<Longrightarrow> length n \<le> FS_FILENAME_LEN \<Longrightarrow> entry_wf (create_entry n e)"
  by (simp add: entry_wf_def create_entry_def length_strcpy_field)

lemma fs_create_spec:
  assumes "mounted s" and "root_direct s = Some dir" and "dir_wf dir"
  shows "fs_create n s =
    (if FS_FILENAME_LEN < length n then (Inl InvalidArgument, s)
     else if \<exists>e\<in>set (scanned dir). entry_name e = Some n then (Inl AlreadyExists, s)
     else case first_empty dir of
       None \<Rightarrow> (Inl DirectoryFull, s)
     | Some j \<Rightarrow> (Inr 0, s\<lparr>root_direct := Some (dir[j := create_entry n (dir ! j)])\<rparr>))"
proof -
  have "list_all (\<lambda>e. entry_name e \<noteq> None) dir" using assms(3) by (rule dir_wf_names)
  then show ?thesis using assms
    by (simp add: fs_create_def dir_wf_take create_scan_spec split: option.splits)
qed


lemma find_file_wf:
  "dir_wf dir \<Longrightarrow>
   find_file n dir = Inr (if matching n dir = [] then -1 else int (last (matching n dir)))"
  using find_file_from_matching [OF dir_wf_names, of dir n 0 "-1"]
  by (simp add: find_file_def dir_wf_take)

lemma matching_last:
  assumes "matching n dir \<noteq> []"
  shows "last (matching n dir) < length dir \<and> entry_name (dir ! last (matching n dir)) = Some n"
proof -
  have "last (matching n dir) \<in> set (matching n dir)" using assms by simp
  then show ?thesis by (simp add: matching_def)
qed

lemma scanned_prefix: "scanned dir = take (case first_empty dir of None \<Rightarrow> length dir | Some j \<Rightarrow> Suc j) dir"
  by (simp add: scanned_def split: option.splits)

lemma fs_delete_not_found:
  assumes "mounted s" and "root_direct s = Some dir" and "dir_wf dir"
    and "length n \<le> FS_FILENAME_LEN" and "matching n dir = []"
  shows "fs_delete n s = Some (Inl NotFound, s)"
  using assms by (simp add: fs_delete_def find_file_wf)

lemma fs_delete_chain:
  assumes "mounted s" and "root_direct s = Some dir" and "dir_wf dir"
    and "length n \<le> FS_FILENAME_LEN" and "matching n dir \<noteq> []"
    and "fat s = Some ft" and "fat_chain ft (file_index (dir ! last (matching n dir))) bs"
  shows "fs_delete n s =
    Some (Inr 0, s\<lparr>fat := Some (free_blocks bs ft),
      root_direct := Some (dir[last (matching n dir) := clear_entry (dir ! last (matching n dir))])\<rparr>)"
  using assms by (simp add: fs_delete_def find_file_wf free_chain_chain Let_def)

lemma clear_entry_empty: "entry_wf e \<Longrightarrow> entry_empty (clear_entry e) \<and> entry_wf (clear_entry e)"
  by (cases "file_name e")
    (auto simp: entry_wf_def entry_empty_def clear_entry_def entry_bytes_def FS_FILENAME_LEN_def)


end
