(* ===== verification/Session.thy ===== *)
theory Session
  imports Directory
begin

text \<open>
  The session layer of \<open>fs.c\<close>: the descriptor table \<open>fd_table\<close> and
  \<open>fs_open\<close> (258--306), \<open>fs_close\<close> (308--326), \<open>fs_stat\<close> (328--346) and
  \<open>fs_lseek\<close> (348--373).  \<open>fs_close\<close> is the only one that checks that the
  descriptor lies in the table; the others index the table with it directly, which is
  undefined behaviour for a descriptor outside \<open>[0, FS_OPEN_MAX_COUNT)\<close>.  A
  descriptor's name is read back with \<open>strlen\<close> over the bytes of its entry
  (\<open>fd_strlen\<close>).
\<close>

section \<open>Definitions\<close>

text \<open>\<open>fd_table->table[fd]\<close> and \<open>root_direct->files[index]\<close> for a C \<open>int\<close> index.\<close>

definition fd_get :: "fd_entry list \<Rightarrow> int \<Rightarrow> fs_error + fd_entry" where
  "fd_get fdt fd =
     (if 0 \<le> fd \<and> nat fd < length fdt then Inr (fdt ! nat fd) else Inl (Undefined FdOutOfBounds))"

definition dir_get :: "file_entry list \<Rightarrow> int \<Rightarrow> fs_error + file_entry" where
  "dir_get dir i =
     (if 0 \<le> i \<and> nat i < length dir then Inr (dir ! nat i) else Inl (Undefined DirOutOfBounds))"

text \<open>The \<open>while\<close> loop of \<open>fs_open\<close> that looks for an available descriptor.\<close>

fun fd_scan :: "nat \<Rightarrow> fd_entry list \<Rightarrow> nat option" where
  "fd_scan i [] = None"
| "fd_scan i (f # fs) = (if fd_available f then Some i else fd_scan (Suc i) fs)"

definition first_available :: "fd_entry list \<Rightarrow> nat option" where
  "first_available fdt = fd_scan 0 (take FS_OPEN_MAX_COUNT fdt)"

definition open_entry :: "char list \<Rightarrow> int \<Rightarrow> fd_entry \<Rightarrow> fd_entry" where
  "open_entry filename idx f =
     f\<lparr>fd_file_name := strcpy_field (fd_file_name f) filename, fd_file_index := idx,
       fd_offset := 0, fd_available := False\<rparr>"

definition fs_open :: "char list \<Rightarrow> fs_state \<Rightarrow> (fs_error + int) \<times> fs_state" where
  "fs_open filename s =
     (if \<not> mounted s then (Inl NotMounted, s)
      else if FS_FILENAME_LEN < length filename then (Inl InvalidArgument, s)
      else case root_direct s of
        None \<Rightarrow> (Inl (Undefined UninitialisedRead), s)
      | Some dir \<Rightarrow>
          (case find_file filename dir of
             Inl err \<Rightarrow> (Inl err, s)
           | Inr idx \<Rightarrow>
               if idx = -1 then (Inl NotFound, s)
               else case fd_table s of
                 None \<Rightarrow> (Inl (Undefined UninitialisedRead), s)
               | Some fdt \<Rightarrow>
                   (case first_available fdt of
                      None \<Rightarrow> (Inl DescriptorTableFull, s)
                    | Some fd \<Rightarrow>
                        (Inr (int fd),
                         s\<lparr>fd_table := Some (fdt[fd := open_entry filename idx (fdt ! fd)])\<rparr>))))"

definition fs_close :: "int \<Rightarrow> fs_state \<Rightarrow> (fs_error + int) \<times> fs_state" where
  "fs_close fd s =
     (if \<not> mounted s then (Inl NotMounted, s)
      else if fd < 0 \<or> int FS_OPEN_MAX_COUNT \<le> fd then (Inl InvalidArgument, s)
      else case fd_table s of
        None \<Rightarrow> (Inl (Undefined UninitialisedRead), s)
      | Some fdt \<Rightarrow>
          (case fd_get fdt fd of
             Inl err \<Rightarrow> (Inl err, s)
           | Inr f \<Rightarrow>
               if fd_available f then (Inl NotOpen, s)
               else (Inr 0, s\<lparr>fd_table := Some (fdt[nat fd := f\<lparr>fd_available := True\<rparr>])\<rparr>)))"

text \<open>The checks shared by \<open>fs_stat\<close>, \<open>fs_lseek\<close> and \<open>fs_read\<close>: the descriptor
  is open and the name stored in its entry is not longer than \<open>FS_FILENAME_LEN\<close>.\<close>

definition open_fd :: "fd_entry list \<Rightarrow> int \<Rightarrow> fs_error + fd_entry" where
  "open_fd fdt fd =
     (case fd_get fdt fd of
        Inl err \<Rightarrow> Inl err
      | Inr f \<Rightarrow>
          if fd_available f then Inl NotOpen
          else case fd_strlen f of
            None \<Rightarrow> Inl (Undefined UnterminatedString)
          | Some l \<Rightarrow> if FS_FILENAME_LEN < l then Inl InvalidArgument else Inr f)"

definition fs_stat :: "int \<Rightarrow> fs_state \<Rightarrow> fs_error + int" where
  "fs_stat fd s =
     (if \<not> mounted s then Inl NotMounted
      else case fd_table s of
        None \<Rightarrow> Inl (Undefined UninitialisedRead)
      | Some fdt \<Rightarrow>
          (case open_fd fdt fd of
             Inl err \<Rightarrow> Inl err
           | Inr f \<Rightarrow>
               (case root_direct s of
                  None \<Rightarrow> Inl (Undefined UninitialisedRead)
                | Some dir \<Rightarrow>
                    (case dir_get dir (fd_file_index f) of
                       Inl err \<Rightarrow> Inl err
                     | Inr e \<Rightarrow> Inr (sint (file_size e))))))"

text \<open>\<open>fs_lseek\<close> calls \<open>fs_stat\<close> and compares the \<open>(int)\<close> of the requested
  offset with the \<open>int\<close> it returns (\<open>-1\<close> when \<open>fs_stat\<close> fails).\<close>

definition fs_lseek :: "int \<Rightarrow> size_t \<Rightarrow> fs_state \<Rightarrow> (fs_error + int) \<times> fs_state" where
  "fs_lseek fd offset s =
     (if \<not> mounted s then (Inl NotMounted, s)
      else case fd_table s of
        None \<Rightarrow> (Inl (Undefined UninitialisedRead), s)
      | Some fdt \<Rightarrow>
          (case open_fd fdt fd of
             Inl err \<Rightarrow> (Inl err, s)
           | Inr f \<Rightarrow>
               (let r = fs_stat fd s in
                if isl r \<and> is_ub (projl r) then (Inl (projl r), s)
                else if c_ret r < c_int offset then (Inl OffsetOutOfRange, s)
                else (Inr 0, s\<lparr>fd_table := Some (fdt[nat fd := f\<lparr>fd_offset := offset\<rparr>])\<rparr>))))"

section \<open>Lemmas\<close>


lemma fd_get_in [simp]:
  "0 \<le> fd \<Longrightarrow> nat fd < length fdt \<Longrightarrow> fd_get fdt fd = Inr (fdt ! nat fd)"
  by (simp add: fd_get_def)

lemma fd_get_out:
  "fdt_wf fdt \<Longrightarrow> \<not> (0 \<le> fd \<and> fd < int FS_OPEN_MAX_COUNT) \<Longrightarrow>
   fd_get fdt fd = Inl (Undefined FdOutOfBounds)"
  by (auto simp: fd_get_def fdt_wf_def)

lemma dir_get_in [simp]:
  "0 \<le> i \<Longrightarrow> nat i < length dir \<Longrightarrow> dir_get dir i = Inr (dir ! nat i)"
  by (simp add: dir_get_def)

lemma fd_scan_find:
  "fd_scan i fs = map_option ((+) i) (find (\<lambda>j. fd_available (fs ! j)) [0..<length fs])"
proof (induction fs arbitrary: i)
  case Nil
  then show ?case by simp
next
  case (Cons f fs)
  have "[0..<length (f # fs)] = 0 # map Suc [0..<length fs]"
    by (simp add: upt_conv_Cons map_Suc_upt del: upt_Suc)
  with Cons show ?case
    by (cases "find (\<lambda>j. fd_available (fs ! j)) [0..<length fs]")
       (auto simp: find_map_list comp_def)
qed

lemma first_available_wf:
  assumes "fdt_wf fdt"
  shows "first_available fdt = find (\<lambda>j. fd_available (fdt ! j)) [0..<length fdt]"
proof -
  have "map_option ((+) (0::nat)) x = x" for x by (cases x) auto
  then show ?thesis using assms by (simp add: first_available_def fdt_wf_def fd_scan_find)
qed

lemma first_available_Some:
  "fdt_wf fdt \<Longrightarrow> first_available fdt = Some j \<Longrightarrow>
   j < length fdt \<and> fd_available (fdt ! j) \<and> (\<forall>i<j. \<not> fd_available (fdt ! i))"
  by (auto simp: first_available_wf find_Some_iff)

lemma first_available_None:
  "fdt_wf fdt \<Longrightarrow> first_available fdt = None \<longleftrightarrow> (\<forall>f\<in>set fdt. \<not> fd_available f)"
  by (simp add: first_available_wf find_None_iff) (metis in_set_conv_nth)

lemma open_fd_Inr:
  "open_fd fdt fd = Inr f \<Longrightarrow>
   0 \<le> fd \<and> nat fd < length fdt \<and> f = fdt ! nat fd \<and> \<not> fd_available f \<and>
   (\<exists>l. fd_strlen f = Some l \<and> l \<le> FS_FILENAME_LEN)"
  by (auto simp: open_fd_def fd_get_def split: if_splits option.splits sum.splits)

lemma fd_strlen_open_short:
  assumes "NUL \<notin> set n" and "length n < FS_FILENAME_LEN"
  shows "fd_strlen (open_entry n idx f) = Some (length n)"
proof -
  have "c_str (fd_name_bytes (open_entry n idx f)) = Some n"
    using assms by (simp add: fd_name_bytes_def open_entry_def strcpy_field_c_str)
  then show ?thesis by (simp add: fd_strlen_def)
qed


lemma fs_open_spec:
  assumes "mounted s" and "root_direct s = Some dir" and "dir_wf dir"
    and "fd_table s = Some fdt" and "fdt_wf fdt"
  shows "fs_open n s =
    (if FS_FILENAME_LEN < length n then (Inl InvalidArgument, s)
     else if matching n dir = [] then (Inl NotFound, s)
     else case first_available fdt of
       None \<Rightarrow> (Inl DescriptorTableFull, s)
     | Some fd \<Rightarrow>
         (Inr (int fd), s\<lparr>fd_table :=
            Some (fdt[fd := open_entry n (int (last (matching n dir))) (fdt ! fd)])\<rparr>))"
  using assms by (simp add: fs_open_def find_file_wf)

lemma fs_close_spec:
  assumes "mounted s" and "fd_table s = Some fdt" and "fdt_wf fdt"
  shows "fs_close fd s =
    (if fd < 0 \<or> int FS_OPEN_MAX_COUNT \<le> fd then (Inl InvalidArgument, s)
     else if fd_available (fdt ! nat fd) then (Inl NotOpen, s)
     else (Inr 0, s\<lparr>fd_table := Some (fdt[nat fd := (fdt ! nat fd)\<lparr>fd_available := True\<rparr>])\<rparr>))"
  using assms by (auto simp: fs_close_def fdt_wf_def)

lemma fs_stat_open:
  assumes "mounted s" and "fd_table s = Some fdt" and "open_fd fdt fd = Inr f"
    and "root_direct s = Some dir" and "0 \<le> fd_file_index f" and "nat (fd_file_index f) < length dir"
  shows "fs_stat fd s = Inr (sint (file_size (dir ! nat (fd_file_index f))))"
  using assms by (simp add: fs_stat_def)

lemma fs_lseek_open:
  assumes "mounted s" and "fd_table s = Some fdt" and "open_fd fdt fd = Inr f"
    and "root_direct s = Some dir" and "0 \<le> fd_file_index f" and "nat (fd_file_index f) < length dir"
  shows "fs_lseek fd off s =
    (if sint (file_size (dir ! nat (fd_file_index f))) < c_int off then (Inl OffsetOutOfRange, s)
     else (Inr 0, s\<lparr>fd_table := Some (fdt[nat fd := f\<lparr>fd_offset := off\<rparr>])\<rparr>))"
  using assms fs_stat_open [OF assms] by (simp add: fs_lseek_def c_ret_def)


lemma fd_strlen_open_full:
  assumes "NUL \<notin> set n" and "length n = FS_FILENAME_LEN" and "0 < idx" and "idx < 256"
  shows "fd_strlen (open_entry n idx f) = Some (Suc FS_FILENAME_LEN)"
proof -
  let ?c = "byte_char (of_nat (nat idx))"
  have w: "unat (word_of_int idx :: u32) = nat idx"
    using assms(3,4) by (simp add: unsigned_of_int take_bit_int_eq_self)
  have l4: "le_bytes 4 (nat idx) = [of_nat (nat idx), 0, 0, 0]"
    using assms(3,4) by (simp add: le_bytes_numeral le_bytes_zero numeral_3_eq_3)
  have c: "?c \<noteq> NUL"
    using assms(3,4) by (simp add: byte_char_def NUL_def char_of_eq_iff unsigned_of_nat take_bit_nat_eq_self
      unsigned_of_int take_bit_int_eq_self)
  have eq: "fd_name_bytes (open_entry n idx f) = (n @ [?c]) @ NUL # drop 2 (map byte_char
          (le_bytes 4 (nat idx) @ le_bytes 8 (0 mod 2 ^ 64) @ [0]))"
    using assms(2) by (simp add: fd_name_bytes_def open_entry_def strcpy_field_full w l4)
  have nn: "NUL \<notin> set (n @ [?c])" using assms(1) c by simp
  have "c_str (fd_name_bytes (open_entry n idx f)) = Some (n @ [?c])"
    unfolding eq by (rule c_str_append_NUL [OF nn])
  then show ?thesis using assms(2) by (simp add: fd_strlen_def)
qed

end
