(* ===== verification/Engine.thy ===== *)
theory Engine
  imports Session
begin

text \<open>
  The read/write engine of \<open>fs.c\<close>: the helper \<open>get_length\<close> (388--397),
  \<open>fs_write\<close> (408--496) and \<open>fs_read\<close> (501--563).  Both locate the block that
  holds the descriptor's offset with \<open>correct_block\<close>, compute how many blocks the
  transfer spans, and run a \<open>for\<close> loop that moves at most one block per iteration
  through the stack buffer \<open>bounce\<close>.  The loops are recursive functions over the
  number of iterations left, with the loop variables of the source in a record
  (\<open>wstate\<close>, \<open>rstate\<close>); the test \<open>i != blocks_to_write - 1\<close> of the source is
  "some iteration is left after this one".  The C widths are kept: \<open>bytes_read\<close>,
  \<open>length\<close> and \<open>bytes_to_read\<close> of \<open>fs_write\<close> are \<open>uint16_t\<close>, the block indices
  are \<open>uint16_t\<close>, \<open>file_size\<close> is an \<open>int\<close> in \<open>fs_write\<close>.

  The return values of \<open>block_read\<close> and \<open>block_write\<close> are ignored by the source:
  a failed \<open>block_read\<close> leaves \<open>bounce\<close> as it was.  In \<open>fs_write\<close> a failed
  \<open>block_read\<close> is always followed by a failed \<open>block_write\<close> of the same block, so
  the contents of the uninitialised buffer never reach the disk and the model starts
  \<open>bounce\<close> as a block of zeros; in \<open>fs_read\<close> they reach the caller, so copying
  from \<open>bounce\<close> before any block was read is undefined (\<open>UninitialisedRead\<close>).
\<close>

section \<open>Definitions\<close>

definition get_length :: "size_t \<Rightarrow> size_t \<Rightarrow> size_t" where
  "get_length count bytes_to_read =
     (if count < BLOCK_SIZE then count else BLOCK_SIZE - bytes_to_read)"

text \<open>\<open>(count + (current_offset % BLOCK_SIZE)) / BLOCK_SIZE\<close>, plus one for a
  partial last block (fs.c 445--449 and 528--532), in \<open>size_t\<close> arithmetic.\<close>

definition blocks_spanned :: "size_t \<Rightarrow> size_t \<Rightarrow> size_t" where
  "blocks_spanned count offset =
     (let t = (count + offset mod BLOCK_SIZE) mod 2 ^ 64
      in t div BLOCK_SIZE + (if t mod BLOCK_SIZE \<noteq> 0 then 1 else 0))"

text \<open>\<open>correct_block(index, block_start)\<close>: the \<open>size_t\<close> block number is passed
  as an \<open>int\<close>; the walk touches the table only when it makes a step.\<close>

definition walk :: "u16 list option \<Rightarrow> u16 \<Rightarrow> size_t \<Rightarrow> fs_error + u16" where
  "walk ft index block_start =
     (let steps = nat (c_int block_start)
      in if steps = 0 then Inr index
         else case ft of
           None \<Rightarrow> Inl (Undefined UninitialisedRead)
         | Some t \<Rightarrow> correct_block t index steps)"

subsection \<open>fs_write\<close>

record wstate =
  w_cur :: u16
  w_count :: size_t
  w_offset :: size_t
  w_btr :: u16
  w_length :: u16
  w_bytes :: u16
  w_bounce :: block
  w_fat :: "u16 list"
  w_disk :: disk

text \<open>The transfer of one iteration of the loop at fs.c 470--490 (lines 471--480):
  read the current block into \<open>bounce\<close>, copy \<open>length\<close> bytes of the caller's buffer
  into it, write it back, and advance the counters.\<close>

definition write_chunk :: "super_block \<Rightarrow> u8 list \<Rightarrow> wstate \<Rightarrow> fs_error + wstate" where
  "write_chunk sb buf w =
     (let blk = unat (w_cur w) + unat (data_block_index sb);
          bounce = (case block_read blk (w_disk w) of Some b \<Rightarrow> b | None \<Rightarrow> w_bounce w)
      in case memcpy bounce (unat (w_btr w)) buf (unat (w_bytes w)) (unat (w_length w)) of
           None \<Rightarrow>
             Inl (Undefined (if length bounce < unat (w_btr w) + unat (w_length w)
                             then BounceOverflow else BufferOverrun))
         | Some bounce' \<Rightarrow>
             (let d' = (case block_write blk bounce' (w_disk w) of Some d \<Rightarrow> d | None \<Rightarrow> w_disk w);
                  count' = w_count w - unat (w_length w);
                  off' = (w_offset w + unat (w_length w)) mod 2 ^ 64;
                  btr' = (word_of_nat (off' mod BLOCK_SIZE) :: u16)
              in Inr (w\<lparr>w_count := count', w_offset := off', w_btr := btr',
                        w_length := word_of_nat (get_length count' (unat btr')),
                        w_bytes := w_bytes w + w_length w, w_bounce := bounce', w_disk := d'\<rparr>)))"

text \<open>The move to the next block (fs.c 482--489): when the current block ends the
  chain and the iteration is not the last one (\<open>more_blocks\<close>), a free entry is allocated,
  marked as the end of the chain and linked after the current block.\<close>

definition next_block :: "bool \<Rightarrow> super_block \<Rightarrow> wstate \<Rightarrow> fs_error + wstate" where
  "next_block more_blocks sb w =
     (case fat_get (w_fat w) (unat (w_cur w)) of
        Inl err \<Rightarrow> Inl err
      | Inr nxt \<Rightarrow>
          if nxt = FAT_EOC \<and> more_blocks then
            (case first_avail_fat (unat (num_data_blocks sb)) (w_fat w) of
               Inl err \<Rightarrow> Inl err
             | Inr first_avail \<Rightarrow>
                 if first_avail < 0 then Inl (Undefined FatOutOfBounds)
                 else case fat_set (w_fat w) (nat first_avail) FAT_EOC of
                   Inl err \<Rightarrow> Inl err
                 | Inr f1 \<Rightarrow>
                     (case fat_set f1 (unat (w_cur w)) (word_of_int first_avail) of
                        Inl err \<Rightarrow> Inl err
                      | Inr f2 \<Rightarrow> Inr (w\<lparr>w_cur := f2 ! unat (w_cur w), w_fat := f2\<rparr>)))
          else Inr (w\<lparr>w_cur := nxt\<rparr>))"

text \<open>The loop, \<open>k\<close> iterations before its end; \<open>i != blocks_to_write - 1\<close> is
  \<open>k \<noteq> 0\<close> after the current iteration.\<close>

fun write_loop :: "nat \<Rightarrow> super_block \<Rightarrow> u8 list \<Rightarrow> wstate \<Rightarrow> fs_error + wstate" where
  "write_loop 0 sb buf w = Inr w"
| "write_loop (Suc k) sb buf w =
     (case write_chunk sb buf w of
        Inl err \<Rightarrow> Inl err
      | Inr w1 \<Rightarrow>
          (case next_block (k \<noteq> 0) sb w1 of
             Inl err \<Rightarrow> Inl err
           | Inr w2 \<Rightarrow> write_loop k sb buf w2))"

text \<open>The first write to a file without blocks (fs.c 434--438): the \<open>int\<close> that
  \<open>first_avail_fat\<close> returns is stored in the \<open>uint16_t\<close> field, and that entry is
  marked as the end of the chain.\<close>

definition first_block :: "super_block \<Rightarrow> u16 list \<Rightarrow> file_entry \<Rightarrow> fs_error + (u16 list \<times> file_entry)" where
  "first_block sb ft e =
     (if file_index e = FAT_EOC then
        (case first_avail_fat (unat (num_data_blocks sb)) ft of
           Inl err \<Rightarrow> Inl err
         | Inr fa \<Rightarrow>
             (let di = (word_of_int fa :: u16) in
              case fat_set ft (unat di) FAT_EOC of
                Inl err \<Rightarrow> Inl err
              | Inr ft' \<Rightarrow> Inr (ft', e\<lparr>file_index := di\<rparr>)))
      else Inr (ft, e))"

text \<open>The part of \<open>fs_write\<close> after the early returns (fs.c 434--495), once the
  descriptor's entry \<open>f\<close>, its directory entry \<open>e\<close>, the superblock and the
  table are known.\<close>

definition write_blocks ::
  "int \<Rightarrow> u8 list \<Rightarrow> size_t \<Rightarrow> fd_entry list \<Rightarrow> fd_entry \<Rightarrow> file_entry list \<Rightarrow> file_entry \<Rightarrow>
   super_block \<Rightarrow> u16 list \<Rightarrow> fs_state \<Rightarrow> (fs_error + int) \<times> fs_state" where
  "write_blocks fd data count fdt f dir e sb ft s =
     (case first_block sb ft e of
        Inl err \<Rightarrow> (Inl err, s)
      | Inr (ft1, e1) \<Rightarrow>
          (let wfi = nat (fd_file_index f);
               dir1 = dir[wfi := e1];
               s1 = s\<lparr>root_direct := Some dir1, fat := Some ft1\<rparr>;
               off = fd_offset f
           in case walk (Some ft1) (file_index e1) (off div BLOCK_SIZE) of
                Inl err \<Rightarrow> (Inl err, s)
              | Inr cur \<Rightarrow>
                  (let r = fs_stat fd s1 in
                   if isl r \<and> is_ub (projl r) then (Inl (projl r), s)
                   else
                     (let file_size = c_ret r;
                          btr = off mod BLOCK_SIZE;
                          w0 = \<lparr>w_cur = cur, w_count = count, w_offset = off,
                                w_btr = word_of_nat btr, w_length = word_of_nat (get_length count btr),
                                w_bytes = 0, w_bounce = replicate BLOCK_SIZE 0, w_fat = ft1,
                                w_disk = disk s\<rparr>
                      in case write_loop (blocks_spanned count off) sb data w0 of
                           Inl err \<Rightarrow> (Inl err, s)
                         | Inr w \<Rightarrow>
                             (let size' = file_size + int (unat (w_bytes w)) in
                              if 2147483647 < size' then (Inl (Undefined SignedOverflow), s)
                              else (Inr (int (unat (w_bytes w))),
                                    s1\<lparr>fat := Some (w_fat w), disk := w_disk w,
                                       root_direct := Some (dir1[wfi := e1\<lparr>file_size := word_of_int size'\<rparr>]),
                                       fd_table := Some (fdt[nat fd := f\<lparr>fd_offset :=
                                           (off + unat (w_bytes w)) mod 2 ^ 64\<rparr>])\<rparr>))))))"

definition fs_write :: "int \<Rightarrow> u8 list option \<Rightarrow> size_t \<Rightarrow> fs_state \<Rightarrow> (fs_error + int) \<times> fs_state" where
  "fs_write fd buf count s =
     (if \<not> mounted s then (Inl NotMounted, s)
      else case buf of
        None \<Rightarrow> (Inl InvalidArgument, s)
      | Some data \<Rightarrow>
          (case fd_table s of
             None \<Rightarrow> (Inl (Undefined UninitialisedRead), s)
           | Some fdt \<Rightarrow>
               (case fd_get fdt fd of
                  Inl err \<Rightarrow> (Inl err, s)
                | Inr f \<Rightarrow>
                    if fd_available f then (Inl NotOpen, s)
                    else if fd < 0 \<or> int FS_OPEN_MAX_COUNT \<le> fd then (Inl InvalidArgument, s)
                    else case root_direct s of
                      None \<Rightarrow> (Inl (Undefined UninitialisedRead), s)
                    | Some dir \<Rightarrow>
                        (case dir_get dir (fd_file_index f) of
                           Inl err \<Rightarrow> (Inl err, s)
                         | Inr e \<Rightarrow>
                             if count = 0 then (Inr 0, s)
                             else case (super_block s, fat s) of
                               (Some sb, Some ft) \<Rightarrow> write_blocks fd data count fdt f dir e sb ft s
                             | _ \<Rightarrow> (Inl (Undefined UninitialisedRead), s)))))"

subsection \<open>fs_read\<close>

record rstate =
  r_cur :: u16
  r_count :: size_t
  r_offset :: size_t
  r_btr :: size_t
  r_length :: size_t
  r_bytes :: size_t
  r_bounce :: "block option"
  r_buf :: "u8 list"

text \<open>The transfer of one iteration of the loop at fs.c 544--559 (lines 547--556):
  read the current block into \<open>bounce\<close>, copy \<open>length\<close> bytes of it to the caller's
  buffer and advance the counters (all \<open>size_t\<close>).\<close>

definition read_chunk :: "super_block \<Rightarrow> disk \<Rightarrow> rstate \<Rightarrow> fs_error + rstate" where
  "read_chunk sb d r =
     (let bounce = (case block_read (unat (r_cur r) + unat (data_block_index sb)) d of
                      Some b \<Rightarrow> Some b | None \<Rightarrow> r_bounce r)
      in case bounce of
           None \<Rightarrow> Inl (Undefined UninitialisedRead)
         | Some b \<Rightarrow>
             (case memcpy (r_buf r) (r_bytes r) b (r_btr r) (r_length r) of
                None \<Rightarrow>
                  Inl (Undefined (if length b < r_btr r + r_length r
                                  then BounceOverflow else BufferOverrun))
              | Some buf' \<Rightarrow>
                  (let count' = r_count r - r_length r;
                       off' = (r_offset r + r_length r) mod 2 ^ 64;
                       btr' = off' mod BLOCK_SIZE
                   in Inr (r\<lparr>r_count := count', r_offset := off', r_btr := btr',
                             r_length := get_length count' btr', r_bytes := (r_bytes r + r_length r) mod 2 ^ 64,
                             r_bounce := Some b, r_buf := buf'\<rparr>))))"

text \<open>The loop; every iteration ends with \<open>cur_data_block = fat[cur_data_block].block\<close>
  (fs.c 558).\<close>

fun read_loop :: "nat \<Rightarrow> super_block \<Rightarrow> u16 list \<Rightarrow> disk \<Rightarrow> rstate \<Rightarrow> fs_error + rstate" where
  "read_loop 0 sb ft d r = Inr r"
| "read_loop (Suc k) sb ft d r =
     (case read_chunk sb d r of
        Inl err \<Rightarrow> Inl err
      | Inr r1 \<Rightarrow>
          (case fat_get ft (unat (r_cur r1)) of
             Inl err \<Rightarrow> Inl err
           | Inr nxt \<Rightarrow> read_loop k sb ft d (r1\<lparr>r_cur := nxt\<rparr>)))"

text \<open>The clipping of \<open>count\<close> at fs.c 524--526: both sides of the comparison are
  converted to \<open>int\<close>, the difference is computed in \<open>size_t\<close>.\<close>

definition read_count :: "size_t \<Rightarrow> size_t \<Rightarrow> u32 \<Rightarrow> size_t" where
  "read_count count offset fsize =
     (if sint fsize < c_int ((count + offset) mod 2 ^ 64)
      then nat ((uint fsize - int offset) mod 2 ^ 64) else count)"

definition fs_read ::
  "int \<Rightarrow> u8 list option \<Rightarrow> size_t \<Rightarrow> fs_state \<Rightarrow> (fs_error + (int \<times> u8 list)) \<times> fs_state" where
  "fs_read fd buf count s =
     (if \<not> mounted s then (Inl NotMounted, s)
      else case buf of
        None \<Rightarrow> (Inl InvalidArgument, s)
      | Some dst \<Rightarrow>
      (case fd_table s of
         None \<Rightarrow> (Inl (Undefined UninitialisedRead), s)
       | Some fdt \<Rightarrow>
       (case open_fd fdt fd of
          Inl err \<Rightarrow> (Inl err, s)
        | Inr f \<Rightarrow>
        (case root_direct s of
           None \<Rightarrow> (Inl (Undefined UninitialisedRead), s)
         | Some dir \<Rightarrow>
         (case dir_get dir (fd_file_index f) of
            Inl err \<Rightarrow> (Inl err, s)
          | Inr e \<Rightarrow>
          (let off = fd_offset f;
               cnt = read_count count off (file_size e);
               n = blocks_spanned cnt off;
               btr = off mod BLOCK_SIZE
           in case walk (fat s) (file_index e) (off div BLOCK_SIZE) of
                Inl err \<Rightarrow> (Inl err, s)
              | Inr cur \<Rightarrow>
              (let r0 = \<lparr>r_cur = cur, r_count = cnt, r_offset = off, r_btr = btr,
                         r_length = get_length cnt btr, r_bytes = 0, r_bounce = None, r_buf = dst\<rparr>;
                   res = (if n = 0 then Inr r0
                          else case (super_block s, fat s) of
                            (Some sb, Some ft) \<Rightarrow> read_loop n sb ft (disk s) r0
                          | _ \<Rightarrow> Inl (Undefined UninitialisedRead))
               in case res of
                    Inl err \<Rightarrow> (Inl err, s)
                  | Inr r \<Rightarrow>
                      (Inr (c_int (r_bytes r), r_buf r),
                       s\<lparr>fd_table := Some (fdt[nat fd := f\<lparr>fd_offset :=
                           (off + r_bytes r) mod 2 ^ 64\<rparr>])\<rparr>))))))))"

subsection \<open>Abstraction\<close>

text \<open>The bytes of a file laid out on the disk: the blocks of its chain, in order.
  \<open>patch xs a ys\<close> overwrites \<open>xs\<close> with \<open>ys\<close> from position \<open>a\<close> on.
  \<open>iters c btr\<close> is the number of loop iterations that move \<open>c\<close> bytes starting
  \<open>btr\<close> bytes into a block.\<close>

definition patch :: "'a list \<Rightarrow> nat \<Rightarrow> 'a list \<Rightarrow> 'a list" where
  "patch xs a ys = take a xs @ ys @ drop (a + length ys) xs"

definition file_bytes :: "block list \<Rightarrow> nat \<Rightarrow> nat list \<Rightarrow> u8 list" where
  "file_bytes ds dbi bs = concat (map (\<lambda>b. ds ! (b + dbi)) bs)"

definition iters :: "nat \<Rightarrow> nat \<Rightarrow> nat" where
  "iters c btr = (if c = 0 then 0 else (c + btr + BLOCK_SIZE - 1) div BLOCK_SIZE)"

section \<open>Lemmas\<close>

subsection \<open>Patches and file bytes\<close>

lemma length_patch [simp]: "a + length ys \<le> length xs \<Longrightarrow> length (patch xs a ys) = length xs"
  by (simp add: patch_def)

lemma patch_patch:
  assumes "a + length ys + length zs \<le> length xs"
  shows "patch (patch xs a ys) (a + length ys) zs = patch xs a (ys @ zs)"
  using assms by (cases ys) (auto simp: patch_def min_def algebra_simps)

lemma memcpy_patch:
  "memcpy dst d src s n = Some r \<Longrightarrow> r = patch dst d (take n (drop s src))"
  by (auto simp: memcpy_def patch_def split: if_splits)

lemma patch_append_right:
  "a + length ys \<le> length xs \<Longrightarrow> patch (xs @ zs) a ys = patch xs a ys @ zs"
  by (simp add: patch_def)

lemma length_file_bytes:
  "\<forall>b\<in>set bs. length (ds ! (b + dbi)) = BLOCK_SIZE \<Longrightarrow>
   length (file_bytes ds dbi bs) = BLOCK_SIZE * length bs"
  by (induction bs) (auto simp: file_bytes_def)

lemma file_bytes_Nil [simp]: "file_bytes ds dbi [] = []"
  by (simp add: file_bytes_def)

lemma file_bytes_Cons [simp]: "file_bytes ds dbi (b # bs) = ds ! (b + dbi) @ file_bytes ds dbi bs"
  by (simp add: file_bytes_def)

lemma file_bytes_append:
  "file_bytes ds dbi (bs @ cs) = file_bytes ds dbi bs @ file_bytes ds dbi cs"
  by (simp add: file_bytes_def)

lemma file_bytes_upd_other:
  "i \<notin> (\<lambda>b. b + dbi) ` set bs \<Longrightarrow> file_bytes (ds[i := v]) dbi bs = file_bytes ds dbi bs"
  by (induction bs) (auto simp: file_bytes_def nth_list_update)

lemma distinct_nth_notin_take: "distinct xs \<Longrightarrow> j < length xs \<Longrightarrow> xs ! j \<notin> set (take j xs)"
  by (auto simp: in_set_conv_nth nth_eq_iff_index_eq)

lemma distinct_nth_notin_drop: "distinct xs \<Longrightarrow> j < length xs \<Longrightarrow> xs ! j \<notin> set (drop (Suc j) xs)"
  by (auto simp: in_set_conv_nth nth_eq_iff_index_eq)

lemma file_bytes_upd_block:
  assumes "distinct bs" and "j < length bs" and "bs ! j + dbi < length ds"
    and "\<forall>b\<in>set bs. length (ds ! (b + dbi)) = BLOCK_SIZE"
    and "q + length ys \<le> BLOCK_SIZE"
  shows "file_bytes (ds[bs ! j + dbi := patch (ds ! (bs ! j + dbi)) q ys]) dbi bs =
         patch (file_bytes ds dbi bs) (j * BLOCK_SIZE + q) ys"
proof -
  let ?b = "bs ! j" and ?u = "ds[bs ! j + dbi := patch (ds ! (bs ! j + dbi)) q ys]"
  have bs: "bs = take j bs @ ?b # drop (Suc j) bs" using assms(2) by (simp add: id_take_nth_drop)
  have nin1: "bs ! j + dbi \<notin> (\<lambda>b. b + dbi) ` set (take j bs)"
    using distinct_nth_notin_take [OF assms(1,2)] by auto
  have nin2: "bs ! j + dbi \<notin> (\<lambda>b. b + dbi) ` set (drop (Suc j) bs)"
    using distinct_nth_notin_drop [OF assms(1,2)] by auto
  have lp: "length (file_bytes ds dbi (take j bs)) = j * BLOCK_SIZE"
    using assms(2,4) by (subst length_file_bytes) (auto dest: in_set_takeD)
  have lb: "length (ds ! (?b + dbi)) = BLOCK_SIZE" using assms(2,4) by simp
  have "file_bytes ?u dbi (take j bs @ ?b # drop (Suc j) bs) =
          file_bytes ds dbi (take j bs) @ patch (ds ! (?b + dbi)) q ys @ file_bytes ds dbi (drop (Suc j) bs)"
    using assms(3) nin1 nin2
    by (simp add: file_bytes_append file_bytes_upd_other)
  also have "\<dots> = patch (file_bytes ds dbi (take j bs) @ ds ! (?b + dbi) @ file_bytes ds dbi (drop (Suc j) bs))
                   (j * BLOCK_SIZE + q) ys"
    using lp lb assms(5) by (simp add: patch_def)
  also have "\<dots> = patch (file_bytes ds dbi (take j bs @ ?b # drop (Suc j) bs)) (j * BLOCK_SIZE + q) ys"
    by (simp add: file_bytes_append)
  finally show ?thesis using bs by simp
qed

subsection \<open>Loop arithmetic\<close>

lemma div_round_up:
  assumes "0 < (b::nat)"
  shows "t div b + (if t mod b \<noteq> 0 then 1 else 0) = (t + b - 1) div b"
proof -
  define q r where "q = t div b" and "r = t mod b"
  have t: "t = q * b + r" and r: "r < b" using assms by (simp_all add: q_def r_def)
  show ?thesis
  proof (cases "r = 0")
    case True
    have "t + b - 1 = (b - 1) + q * b" using True t assms by simp
    then have "(t + b - 1) div b = q + (b - 1) div b" using assms by (simp only: div_mult_self1)
    then have "(t + b - 1) div b = q" using assms by simp
    then show ?thesis using True by (simp add: q_def r_def)
  next
    case False
    have "t + b - 1 = (r - 1) + Suc q * b" using False t assms by simp
    then have "(t + b - 1) div b = Suc q + (r - 1) div b" using assms by (simp only: div_mult_self1)
    then have "(t + b - 1) div b = Suc q" using r by simp
    then show ?thesis using False by (simp add: q_def r_def)
  qed
qed

lemma blocks_spanned_iters:
  assumes "0 < c" and "c + off mod BLOCK_SIZE < 2 ^ 64"
  shows "blocks_spanned c off = iters c (off mod BLOCK_SIZE)"
  using assms div_round_up [of BLOCK_SIZE "c + off mod BLOCK_SIZE"]
  by (simp add: blocks_spanned_def iters_def Let_def BLOCK_SIZE_def)

lemma get_length_bounds:
  assumes "0 < c" and "btr < BLOCK_SIZE" and "c < BLOCK_SIZE \<longrightarrow> btr + c \<le> BLOCK_SIZE"
  shows "0 < get_length c btr \<and> get_length c btr \<le> c \<and> btr + get_length c btr \<le> BLOCK_SIZE"
  using assms by (auto simp: get_length_def BLOCK_SIZE_def)

lemma step_arith:
  assumes "0 < c" and "c < BLOCK_SIZE \<longrightarrow> off mod BLOCK_SIZE + c \<le> BLOCK_SIZE"
  defines "len \<equiv> get_length c (off mod BLOCK_SIZE)"
  shows "(c - len < BLOCK_SIZE \<longrightarrow> (off + len) mod BLOCK_SIZE + (c - len) \<le> BLOCK_SIZE) \<and>
         (0 < c - len \<longrightarrow> (off + len) mod BLOCK_SIZE = 0 \<and> (off + len) div BLOCK_SIZE = Suc (off div BLOCK_SIZE)) \<and>
         iters c (off mod BLOCK_SIZE) = Suc (iters (c - len) ((off + len) mod BLOCK_SIZE))"
proof (cases "c < BLOCK_SIZE")
  case True
  then have "len = c" by (simp add: len_def get_length_def)
  with True assms(1,2) show ?thesis by (simp add: iters_def BLOCK_SIZE_def)
next
  case False
  then have l: "len = BLOCK_SIZE - off mod BLOCK_SIZE" by (simp add: len_def get_length_def)
  define q r where "q = off div BLOCK_SIZE" and "r = off mod BLOCK_SIZE"
  have r: "r < BLOCK_SIZE" and off: "off = q * BLOCK_SIZE + r" by (simp_all add: q_def r_def BLOCK_SIZE_def)
  have e: "off + len = Suc q * BLOCK_SIZE" using r unfolding l off by (simp add: r_def[symmetric])
  have m: "(off + len) mod BLOCK_SIZE = 0" and d: "(off + len) div BLOCK_SIZE = Suc (off div BLOCK_SIZE)"
    unfolding e q_def by (simp_all add: BLOCK_SIZE_def)
  have cl: "c - len = c + r - BLOCK_SIZE" using False r unfolding l r_def[symmetric] by simp
  have s1: "c + r + BLOCK_SIZE - 1 = (c + r - 1) + BLOCK_SIZE" using False by (simp add: BLOCK_SIZE_def)
  have i1: "iters c r = Suc ((c + r - 1) div BLOCK_SIZE)"
    using False unfolding iters_def s1 by (simp add: BLOCK_SIZE_def)
  have i2: "iters (c - len) 0 = (c + r - 1) div BLOCK_SIZE"
  proof (cases "c + r = BLOCK_SIZE")
    case True
    then show ?thesis unfolding iters_def cl by (simp add: BLOCK_SIZE_def)
  next
    case F: False
    then have "c - len + 0 + BLOCK_SIZE - 1 = c + r - 1" using False unfolding cl by simp
    then show ?thesis using F False unfolding iters_def cl by simp
  qed
  show ?thesis using m d i1 i2 by (simp add: r_def)
qed


lemma memcpy_eq_patch:
  "d + n \<le> length dst \<Longrightarrow> s + n \<le> length src \<Longrightarrow>
   memcpy dst d src s n = Some (patch dst d (take n (drop s src)))"
  by (simp add: memcpy_def patch_def)

lemma iters_0_iff: "iters c btr = 0 \<longleftrightarrow> c = 0"
proof (cases "c = 0")
  case False
  then have "BLOCK_SIZE div BLOCK_SIZE \<le> (c + btr + BLOCK_SIZE - 1) div BLOCK_SIZE" by (intro div_le_mono) simp
  then show ?thesis using False by (simp add: iters_def BLOCK_SIZE_def)
qed (simp add: iters_def)

lemma write_chunk_overflow:
  assumes "block_read (unat (w_cur w) + unat (data_block_index sb)) (w_disk w) = Some b" "length b = BLOCK_SIZE"
    and "BLOCK_SIZE < unat (w_btr w) + unat (w_length w)"
  shows "write_chunk sb buf w = Inl (Undefined BounceOverflow)"
  using assms by (simp add: write_chunk_def memcpy_def Let_def)

end
