(* ===== verification/Write_Engine.thy ===== *)
theory Write_Engine
  imports Engine
begin

text \<open>
  Correctness of the loop of \<open>fs_write\<close> (fs.c 470--490).  The invariant of the loop
  relates the loop variables to the state before the loop: the descriptor's chain in the
  table (\<open>wl_fat\<close>) is the chain before the loop followed by blocks that were free, and
  enough free entries remain for the blocks still to be reached; the blocks of the chain
  on the disk (\<open>wl_disk\<close>) hold the bytes before the loop with the first \<open>dn\<close> bytes
  of the buffer written from the start offset, and no other block changed; the counters
  (\<open>wl_ctr\<close>) agree with the number of bytes written so far, at their C widths.  One
  iteration is \<open>write_chunk\<close> (\<open>write_chunk_inv\<close>) followed by \<open>next_block\<close>, which
  either follows the chain or links a newly allocated block (\<open>next_block_inv\<close>).
\<close>

section \<open>Definitions\<close>

definition wl_fat :: "super_block \<Rightarrow> u16 \<Rightarrow> u16 list \<Rightarrow> nat list \<Rightarrow> nat \<Rightarrow> u16 list \<Rightarrow> nat list \<Rightarrow> bool" where
  "wl_fat sb first ft0 bs0 last_byte ft cs \<longleftrightarrow>
     fat_chain ft first cs \<and> (\<exists>ns. cs = bs0 @ ns \<and> (\<forall>b\<in>set ns. ft0 ! b = 0)) \<and>
     (\<forall>b\<in>set cs. b < unat (num_data_blocks sb) \<and> ft ! b \<noteq> 0) \<and> ft ! 0 \<noteq> 0 \<and>
     unat (num_data_blocks sb) \<le> length ft \<and> unat (num_data_blocks sb) < 65535 \<and>
     length ft = length ft0 \<and> (\<forall>i. i \<notin> set cs \<longrightarrow> ft ! i = ft0 ! i) \<and>
     last_byte div BLOCK_SIZE < length cs + free_count (unat (num_data_blocks sb)) ft"

definition wl_disk :: "super_block \<Rightarrow> disk \<Rightarrow> nat \<Rightarrow> u8 list \<Rightarrow> disk \<Rightarrow> nat list \<Rightarrow> nat \<Rightarrow> bool" where
  "wl_disk sb d0 off0 data d cs dn \<longleftrightarrow>
     dk_open d \<and> dk_name d = dk_name d0 \<and> length (dk_blocks d) = length (dk_blocks d0) \<and>
     unat (data_block_index sb) + unat (num_data_blocks sb) \<le> length (dk_blocks d0) \<and>
     (\<forall>x\<in>set (dk_blocks d). length x = BLOCK_SIZE) \<and> (\<forall>x\<in>set (dk_blocks d0). length x = BLOCK_SIZE) \<and>
     distinct cs \<and> (\<forall>b\<in>set cs. b < unat (num_data_blocks sb)) \<and>
     (\<forall>i. i \<notin> (\<lambda>b. b + unat (data_block_index sb)) ` set cs \<longrightarrow> dk_blocks d ! i = dk_blocks d0 ! i) \<and>
     file_bytes (dk_blocks d) (unat (data_block_index sb)) cs =
       patch (file_bytes (dk_blocks d0) (unat (data_block_index sb)) cs) off0 (take dn data) \<and>
     off0 + dn \<le> BLOCK_SIZE * length cs"

definition wl_ctr :: "nat \<Rightarrow> nat \<Rightarrow> u8 list \<Rightarrow> wstate \<Rightarrow> bool" where
  "wl_ctr off0 count0 data w \<longleftrightarrow>
     w_count w \<le> count0 \<and> w_offset w = off0 + (count0 - w_count w) \<and>
     w_bytes w = word_of_nat (count0 - w_count w) \<and> w_btr w = word_of_nat (w_offset w mod BLOCK_SIZE) \<and>
     w_length w = word_of_nat (get_length (w_count w) (w_offset w mod BLOCK_SIZE)) \<and>
     (w_count w < BLOCK_SIZE \<longrightarrow> w_offset w mod BLOCK_SIZE + w_count w \<le> BLOCK_SIZE) \<and>
     off0 + count0 < 2 ^ 31 \<and> count0 < 65536 \<and> count0 \<le> length data"

definition wl_inv ::
  "super_block \<Rightarrow> u8 list \<Rightarrow> u16 \<Rightarrow> nat \<Rightarrow> nat \<Rightarrow> u16 list \<Rightarrow> disk \<Rightarrow> nat list \<Rightarrow> wstate \<Rightarrow> nat list \<Rightarrow> bool" where
  "wl_inv sb data first off0 count0 ft0 d0 bs0 w cs \<longleftrightarrow>
     wl_fat sb first ft0 bs0 (off0 + count0 - 1) (w_fat w) cs \<and>
     wl_disk sb d0 off0 data (w_disk w) cs (count0 - w_count w) \<and> wl_ctr off0 count0 data w \<and>
     (0 < w_count w \<longrightarrow> w_offset w div BLOCK_SIZE < length cs \<and>
        w_cur w = word_of_nat (cs ! (w_offset w div BLOCK_SIZE)))"

section \<open>Lemmas\<close>

lemma wl_disk_chunk:
  assumes dsk: "wl_disk sb d0 off0 data d cs dn" and j: "j < length cs"
    and pos: "off0 + dn = j * BLOCK_SIZE + q" and q: "q + len \<le> BLOCK_SIZE" and dl: "dn + len \<le> length data"
  shows "wl_disk sb d0 off0 data
           (d\<lparr>dk_blocks := (dk_blocks d)[cs ! j + unat (data_block_index sb) :=
              patch (dk_blocks d ! (cs ! j + unat (data_block_index sb))) q (take len (drop dn data))]\<rparr>)
           cs (dn + len)"
proof -
  let ?dbi = "unat (data_block_index sb)"
  let ?ds = "dk_blocks d"
  let ?dz = "dk_blocks d0"
  let ?i = "cs ! j + unat (data_block_index sb)"
  let ?ys = "take len (drop dn data)"
  have ly: "length ?ys = len" using dl by simp
  have f: "distinct cs" "\<forall>b\<in>set cs. b < unat (num_data_blocks sb)"
    "?dbi + unat (num_data_blocks sb) \<le> length ?dz" "length ?ds = length ?dz"
    "\<forall>x\<in>set ?ds. length x = BLOCK_SIZE" "\<forall>x\<in>set ?dz. length x = BLOCK_SIZE"
    using dsk unfolding wl_disk_def by blast+
  have cj: "cs ! j \<in> set cs" using j by (rule nth_mem)
  have i: "?i < length ?ds" using f(2,3,4) cj by fastforce
  have inb: "b + ?dbi < length ?ds" if "b \<in> set cs" for b using f(2,3,4) that by fastforce
  have lens: "\<forall>b\<in>set cs. length (?ds ! (b + ?dbi)) = BLOCK_SIZE"
    "\<forall>b\<in>set cs. length (?dz ! (b + ?dbi)) = BLOCK_SIZE"
    using f(4,5,6) inb by (simp_all add: nth_mem)
  have lx: "length (patch (?ds ! ?i) q ?ys) = BLOCK_SIZE" using lens j q ly by simp
  have len0: "length (file_bytes ?dz ?dbi cs) = BLOCK_SIZE * length cs" using lens by (simp add: length_file_bytes)
  have upto: "off0 + (dn + len) \<le> BLOCK_SIZE * length cs"
  proof -
    have "Suc j \<le> length cs" using j by simp
    then have "BLOCK_SIZE * Suc j \<le> BLOCK_SIZE * length cs" by (rule mult_le_mono2)
    then show ?thesis using pos q by (simp add: mult.commute)
  qed
  have fb: "file_bytes (?ds[?i := patch (?ds ! ?i) q ?ys]) ?dbi cs = patch (file_bytes ?ds ?dbi cs) (j * BLOCK_SIZE + q) ?ys"
    using file_bytes_upd_block [of cs j ?dbi ?ds q ?ys] f(1) j i lens q ly by simp
  also have "\<dots> = patch (patch (file_bytes ?dz ?dbi cs) off0 (take dn data)) (off0 + length (take dn data)) ?ys"
    using dsk dl pos unfolding wl_disk_def by simp
  also have "\<dots> = patch (file_bytes ?dz ?dbi cs) off0 (take (dn + len) data)"
    using patch_patch [of off0 "take dn data" ?ys "file_bytes ?dz ?dbi cs"] len0 upto ly dl
    by (simp add: take_add)
  finally have fb: "file_bytes (?ds[?i := patch (?ds ! ?i) q ?ys]) ?dbi cs =
                    patch (file_bytes ?dz ?dbi cs) off0 (take (dn + len) data)" .
  have fr0: "\<forall>k. k \<notin> (\<lambda>b. b + ?dbi) ` set cs \<longrightarrow> ?ds ! k = ?dz ! k"
    using dsk unfolding wl_disk_def by blast
  have fr: "\<forall>k. k \<notin> (\<lambda>b. b + ?dbi) ` set cs \<longrightarrow> ?ds[?i := patch (?ds ! ?i) q ?ys] ! k = ?dz ! k"
  proof (intro allI impI)
    fix k assume k: "k \<notin> (\<lambda>b. b + ?dbi) ` set cs"
    then have "k \<noteq> ?i" using cj by blast
    then show "?ds[?i := patch (?ds ! ?i) q ?ys] ! k = ?dz ! k" using fr0 k by simp
  qed
  have ls: "\<forall>x\<in>set (?ds[?i := patch (?ds ! ?i) q ?ys]). length x = BLOCK_SIZE"
    using f(5) lx by (auto dest: set_update_subset_insert [THEN subsetD])
  have o: "dk_open d" "dk_name d = dk_name d0" using dsk unfolding wl_disk_def by blast+
  have ll: "length (?ds[?i := patch (?ds ! ?i) q ?ys]) = length ?dz" using f(4) by simp
  let ?X = "?ds[?i := patch (?ds ! ?i) q ?ys]"
  have sel: "dk_open (d\<lparr>dk_blocks := ?X\<rparr>) = dk_open d" "dk_name (d\<lparr>dk_blocks := ?X\<rparr>) = dk_name d"
    "dk_blocks (d\<lparr>dk_blocks := ?X\<rparr>) = ?X" by simp_all
  show ?thesis unfolding wl_disk_def sel using o f fb fr ls upto ll by blast
qed

lemma write_chunk_inv:
  assumes inv: "wl_inv sb data first off0 count0 ft0 d0 bs0 w cs" and c: "0 < w_count w"
  obtains w1 where "write_chunk sb data w = Inr w1" "w_cur w1 = w_cur w" "w_fat w1 = w_fat w"
    "wl_disk sb d0 off0 data (w_disk w1) cs (count0 - w_count w1)" "wl_ctr off0 count0 data w1"
    "0 < w_count w1 \<longrightarrow> w_offset w1 div BLOCK_SIZE = Suc (w_offset w div BLOCK_SIZE)"
    "iters (w_count w) (w_offset w mod BLOCK_SIZE) = Suc (iters (w_count w1) (w_offset w1 mod BLOCK_SIZE))"
proof -
  let ?dbi = "unat (data_block_index sb)"
  let ?ds = "dk_blocks (w_disk w)"
  let ?off = "w_offset w"
  let ?c = "w_count w"
  let ?dn = "count0 - w_count w"
  let ?btr = "w_offset w mod BLOCK_SIZE"
  let ?j = "w_offset w div BLOCK_SIZE"
  let ?len = "get_length (w_count w) (w_offset w mod BLOCK_SIZE)"
  let ?b = "cs ! (w_offset w div BLOCK_SIZE)"
  let ?x = "patch (?ds ! (?b + ?dbi)) ?btr (take ?len (drop ?dn data))"
  have dsk: "wl_disk sb d0 off0 data (w_disk w) cs ?dn" and ctr: "wl_ctr off0 count0 data w"
    using inv by (simp_all add: wl_inv_def)
  have j: "?j < length cs" and cur: "w_cur w = word_of_nat ?b" using inv c by (simp_all add: wl_inv_def)
  have f: "distinct cs" "\<forall>b\<in>set cs. b < unat (num_data_blocks sb)"
    "?dbi + unat (num_data_blocks sb) \<le> length ?ds" "\<forall>x\<in>set ?ds. length x = BLOCK_SIZE" "dk_open (w_disk w)"
    using dsk unfolding wl_disk_def by auto
  have nd: "unat (num_data_blocks sb) < 65535" using inv unfolding wl_inv_def wl_fat_def by blast
  have cnt: "?c \<le> count0" "count0 < 65536" "count0 \<le> length data" "off0 + count0 < 2 ^ 31"
    "?off = off0 + ?dn" "?c < BLOCK_SIZE \<longrightarrow> ?btr + ?c \<le> BLOCK_SIZE"
    using ctr unfolding wl_ctr_def by blast+
  have wregs: "w_btr w = word_of_nat ?btr" "w_length w = word_of_nat ?len" "w_bytes w = word_of_nat ?dn"
    using ctr unfolding wl_ctr_def by blast+
  have lens: "0 < ?len" "?len \<le> ?c" "?btr + ?len \<le> BLOCK_SIZE"
    using get_length_bounds [of ?c ?btr] c cnt(6) by (simp_all add: BLOCK_SIZE_def)
  have bnd: "?b < unat (num_data_blocks sb)" using f(2) j nth_mem by blast
  have small: "?b < 65536" "?btr < 65536" "?len < 65536" "?dn < 65536"
    using bnd nd apply linarith
    apply (simp add: BLOCK_SIZE_def)
    using lens(3) apply (simp add: BLOCK_SIZE_def)
    using cnt(2) by (meson diff_le_self le_less_trans)
  have regs: "unat (w_cur w) = ?b" "unat (w_btr w) = ?btr" "unat (w_length w) = ?len" "unat (w_bytes w) = ?dn"
    unfolding cur wregs using small by (simp_all only: unat_of_nat_u16)
  have blk: "?b + ?dbi < length ?ds" using bnd f(3) by simp
  then have lblk: "length (?ds ! (?b + ?dbi)) = BLOCK_SIZE" using f(4) by simp
  have rd: "block_read (?b + ?dbi) (w_disk w) = Some (?ds ! (?b + ?dbi))"
    using f(5) blk by (simp add: block_read_def)
  have mc: "memcpy (?ds ! (?b + ?dbi)) ?btr data ?dn ?len = Some ?x"
    using lens lblk cnt by (intro memcpy_eq_patch) simp_all
  have lx: "length ?x = BLOCK_SIZE" using lens lblk cnt by simp
  have wr: "block_write (?b + ?dbi) ?x (w_disk w) = Some (w_disk w\<lparr>dk_blocks := ?ds[?b + ?dbi := ?x]\<rparr>)"
    using f(5) blk lx by (simp add: block_write_def)
  have "?off + ?len < 2 ^ 31" using cnt lens by linarith
  then have ofs: "(?off + ?len) mod 2 ^ 64 = ?off + ?len" by simp
  have btr': "unat (word_of_nat ((?off + ?len) mod BLOCK_SIZE) :: u16) = (?off + ?len) mod BLOCK_SIZE"
    by (rule unat_of_nat_u16) (simp add: BLOCK_SIZE_def)
  have bytes': "w_bytes w + w_length w = word_of_nat (?dn + ?len)" unfolding wregs by simp
  let ?w1 = "w\<lparr>w_count := ?c - ?len, w_offset := ?off + ?len,
               w_btr := word_of_nat ((?off + ?len) mod BLOCK_SIZE),
               w_length := word_of_nat (get_length (?c - ?len) ((?off + ?len) mod BLOCK_SIZE)),
               w_bytes := word_of_nat (?dn + ?len), w_bounce := ?x,
               w_disk := w_disk w\<lparr>dk_blocks := ?ds[?b + ?dbi := ?x]\<rparr>\<rparr>"
  have ch: "write_chunk sb data w = Inr ?w1"
    unfolding write_chunk_def Let_def regs rd option.simps mc wr ofs btr' bytes' by simp
  have pos: "off0 + ?dn = ?j * BLOCK_SIZE + ?btr" using cnt(5) by simp
  have dn': "count0 - (?c - ?len) = ?dn + ?len" using cnt(1) lens(2) by simp
  have dsk': "wl_disk sb d0 off0 data (w_disk ?w1) cs (count0 - w_count ?w1)"
    using wl_disk_chunk [OF dsk j pos lens(3)] cnt(1,3) lens(2) by (simp add: dn')
  have ar: "(?c - ?len < BLOCK_SIZE \<longrightarrow> (?off + ?len) mod BLOCK_SIZE + (?c - ?len) \<le> BLOCK_SIZE) \<and>
         (0 < ?c - ?len \<longrightarrow> (?off + ?len) mod BLOCK_SIZE = 0 \<and> (?off + ?len) div BLOCK_SIZE = Suc ?j) \<and>
         iters ?c ?btr = Suc (iters (?c - ?len) ((?off + ?len) mod BLOCK_SIZE))"
    using step_arith [of ?c ?off] c cnt(6) by simp
  have sel: "w_count ?w1 = ?c - ?len" "w_offset ?w1 = ?off + ?len" "w_bytes ?w1 = word_of_nat (?dn + ?len)"
    "w_btr ?w1 = word_of_nat ((?off + ?len) mod BLOCK_SIZE)"
    "w_length ?w1 = word_of_nat (get_length (?c - ?len) ((?off + ?len) mod BLOCK_SIZE))" by simp_all
  have ctr': "wl_ctr off0 count0 data ?w1"
    unfolding wl_ctr_def sel dn'
  proof (intro conjI)
    show "?c - ?len \<le> count0" using cnt(1) by simp
    show "?off + ?len = off0 + (?dn + ?len)" using cnt(5) by simp
    show "?c - ?len < BLOCK_SIZE \<longrightarrow> (?off + ?len) mod BLOCK_SIZE + (?c - ?len) \<le> BLOCK_SIZE"
      using ar by blast
  qed (use cnt in simp_all)
  show thesis by (rule that [OF ch]) (use dsk' ctr' ar in simp_all)
qed


lemma first_free_props:
  assumes "wl_fat sb first ft0 bs0 lb ft cs" and "first_free (unat (num_data_blocks sb)) ft = Some nb"
  shows "nb < unat (num_data_blocks sb) \<and> ft ! nb = 0 \<and> nb \<notin> set cs \<and> nb \<noteq> 0 \<and> nb < 65535"
proof -
  have f: "nb < unat (num_data_blocks sb)" "ft ! nb = 0" using first_free_Some [OF assms(2)] by simp_all
  moreover have "nb \<notin> set cs" "ft ! 0 \<noteq> 0" "unat (num_data_blocks sb) < 65535"
    using assms(1) f(2) unfolding wl_fat_def by auto
  moreover have "nb \<noteq> 0"
  proof
    assume "nb = 0"
    then show False using f(2) \<open>ft ! 0 \<noteq> 0\<close> by simp
  qed
  ultimately show ?thesis by auto
qed

lemma wl_fat_alloc:
  assumes fat: "wl_fat sb first ft0 bs0 lb ft cs" and ne: "cs \<noteq> []"
    and ff: "first_free (unat (num_data_blocks sb)) ft = Some nb"
  shows "wl_fat sb first ft0 bs0 lb (ft[nb := FAT_EOC, last cs := word_of_nat nb]) (cs @ [nb])"
proof -
  let ?nd = "unat (num_data_blocks sb)"
  let ?l = "last cs"
  let ?ft2 = "ft[nb := FAT_EOC, last cs := word_of_nat nb]"
  have nb: "nb < ?nd" "ft ! nb = 0" "nb \<notin> set cs" "nb \<noteq> 0" "nb < 65535"
    using first_free_props [OF fat ff] by simp_all
  have f: "fat_chain ft first cs" "\<exists>ns. cs = bs0 @ ns \<and> (\<forall>b\<in>set ns. ft0 ! b = 0)"
    "\<forall>b\<in>set cs. b < ?nd \<and> ft ! b \<noteq> 0" "ft ! 0 \<noteq> 0" "?nd \<le> length ft" "?nd < 65535"
    "length ft = length ft0" "\<forall>i. i \<notin> set cs \<longrightarrow> ft ! i = ft0 ! i"
    "lb div BLOCK_SIZE < length cs + free_count ?nd ft"
    using fat unfolding wl_fat_def by blast+
  have lc: "?l \<in> set cs" using ne by simp
  have lnb: "?l \<noteq> nb" using lc nb(3) by blast
  have nbl: "nb < length ft" using nb(1) f(5) by simp
  have ll: "?l < length ft" using f(3,5) lc by fastforce
  have "\<not> 65536 dvd nb" using nb(4,5) by (auto dest: dvd_imp_le)
  then have w0: "(word_of_nat nb :: u16) \<noteq> 0" by (simp add: word_of_nat_eq_0_iff)
  have nth2: "?ft2 ! i = (if i = ?l then word_of_nat nb else if i = nb then FAT_EOC else ft ! i)" for i
    using lnb nbl ll by (simp add: nth_list_update)
  have ch: "fat_chain ?ft2 first (cs @ [nb])" using fat_chain_snoc [OF f(1) ne nb(3) nbl nb(5)] .
  have ns: "\<exists>ns. cs @ [nb] = bs0 @ ns \<and> (\<forall>b\<in>set ns. ft0 ! b = 0)"
    using f(2) f(8) nb(2,3) by force
  have nz: "\<forall>b\<in>set (cs @ [nb]). b < ?nd \<and> ?ft2 ! b \<noteq> 0"
    using f(3) nb(1) w0 unfolding nth2 by (auto simp: FAT_EOC_def)
  have z: "?ft2 ! 0 \<noteq> 0" using f(4) w0 nb(4) unfolding nth2 by simp
  have fr: "\<forall>i. i \<notin> set (cs @ [nb]) \<longrightarrow> ?ft2 ! i = ft0 ! i" using f(8) lc unfolding nth2 by auto
  have "free_count ?nd (ft[nb := FAT_EOC]) = free_count ?nd ft - 1"
    by (rule free_count_alloc) (use nb nbl in \<open>simp_all add: FAT_EOC_def\<close>)
  moreover have "free_count ?nd ?ft2 = free_count ?nd (ft[nb := FAT_EOC])"
    by (rule free_count_keep) (use f(3) lc lnb w0 in \<open>simp_all\<close>)
  moreover have "0 < free_count ?nd ft"
    using nb(1,2) by (auto simp: free_count_def filter_empty_conv)
  ultimately have fc: "lb div BLOCK_SIZE < length (cs @ [nb]) + free_count ?nd ?ft2" using f(9) by simp
  show ?thesis unfolding wl_fat_def using ch ns nz z fr fc f(5,6,7) by simp
qed

lemma wl_disk_extend:
  assumes dsk: "wl_disk sb d0 off0 data d cs dn" and nb: "nb \<notin> set cs" "nb < unat (num_data_blocks sb)"
  shows "wl_disk sb d0 off0 data d (cs @ [nb]) dn"
proof -
  let ?dbi = "unat (data_block_index sb)"
  have f: "\<forall>i. i \<notin> (\<lambda>b. b + ?dbi) ` set cs \<longrightarrow> dk_blocks d ! i = dk_blocks d0 ! i"
    "\<forall>x\<in>set (dk_blocks d0). length x = BLOCK_SIZE" "\<forall>b\<in>set cs. b < unat (num_data_blocks sb)"
    "?dbi + unat (num_data_blocks sb) \<le> length (dk_blocks d0)" "off0 + dn \<le> BLOCK_SIZE * length cs"
    "file_bytes (dk_blocks d) ?dbi cs = patch (file_bytes (dk_blocks d0) ?dbi cs) off0 (take dn data)"
    using dsk unfolding wl_disk_def by blast+
  have "nb + ?dbi \<notin> (\<lambda>b. b + ?dbi) ` set cs" using nb(1) by auto
  then have blk: "dk_blocks d ! (nb + ?dbi) = dk_blocks d0 ! (nb + ?dbi)" using f(1) by blast
  have "length (file_bytes (dk_blocks d0) ?dbi cs) = BLOCK_SIZE * length cs"
    using f(2,3,4) by (intro length_file_bytes) (fastforce simp: nth_mem)
  then have "off0 + length (take dn data) \<le> length (file_bytes (dk_blocks d0) ?dbi cs)" using f(5) by simp
  then have fb: "file_bytes (dk_blocks d) ?dbi (cs @ [nb]) =
                 patch (file_bytes (dk_blocks d0) ?dbi (cs @ [nb])) off0 (take dn data)"
    using f(6) blk by (simp add: file_bytes_append patch_append_right)
  show ?thesis using dsk fb nb unfolding wl_disk_def by auto
qed


lemma next_block_inv:
  assumes fat: "wl_fat sb first ft0 bs0 lb (w_fat w) cs" and dsk: "wl_disk sb d0 off0 data (w_disk w) cs dn"
    and j: "j < length cs" and cur: "w_cur w = word_of_nat (cs ! j)"
    and adv: "0 < w_count w \<longrightarrow> w_offset w div BLOCK_SIZE = Suc j \<and> w_offset w \<le> lb"
  shows "\<exists>w2 cs'. next_block (0 < w_count w) sb w = Inr w2 \<and>
           wl_fat sb first ft0 bs0 lb (w_fat w2) cs' \<and> wl_disk sb d0 off0 data (w_disk w2) cs' dn \<and>
           w_count w2 = w_count w \<and> w_offset w2 = w_offset w \<and> w_disk w2 = w_disk w \<and>
           w_bytes w2 = w_bytes w \<and> w_btr w2 = w_btr w \<and> w_length w2 = w_length w \<and>
           (0 < w_count w \<longrightarrow> w_offset w div BLOCK_SIZE < length cs' \<and>
              w_cur w2 = word_of_nat (cs' ! (w_offset w div BLOCK_SIZE)))"
proof -
  let ?nd = "unat (num_data_blocks sb)"
  let ?ft = "w_fat w"
  let ?b = "cs ! j"
  have f: "fat_chain ?ft first cs" "?nd \<le> length ?ft" "\<forall>b\<in>set cs. b < ?nd \<and> ?ft ! b \<noteq> 0"
    "lb div BLOCK_SIZE < length cs + free_count ?nd ?ft"
    using fat unfolding wl_fat_def by blast+
  have bc: "?b \<in> set cs" using j by simp
  have bl: "?b < length ?ft" and b65: "?b < 65535" using fat_chain_elem [OF f(1) bc] by simp_all
  have ub: "unat (w_cur w) = ?b" unfolding cur using b65 by (simp add: unat_of_nat_u16)
  have nxt: "?ft ! ?b = (if Suc j < length cs then word_of_nat (cs ! Suc j) else FAT_EOC)"
    using fat_chain_nth [OF f(1) j] .
  show ?thesis
  proof (cases "Suc j < length cs")
    case True
    have "cs ! Suc j < 65535" using fat_chain_elem [OF f(1)] True nth_mem by blast
    then have "(word_of_nat (cs ! Suc j) :: u16) \<noteq> FAT_EOC" by (rule word_of_nat_not_EOC)
    then have "next_block (0 < w_count w) sb w = Inr (w\<lparr>w_cur := word_of_nat (cs ! Suc j)\<rparr>)"
      using True bl nxt by (simp add: next_block_def ub)
    then show ?thesis using fat dsk adv True by fastforce
  next
    case False
    then have lst: "Suc j = length cs" using j by simp
    show ?thesis
    proof (cases "0 < w_count w")
      case more: True
      have ne: "cs \<noteq> []" using lst by auto
      have "j = length cs - 1" using lst by simp
      then have lb: "?b = last cs" using ne by (simp add: last_conv_nth)
      have "length cs \<le> lb div BLOCK_SIZE" using adv [rule_format, OF more] lst by (metis div_le_mono)
      then have "0 < free_count ?nd ?ft" using f(4) by simp
      then obtain nb where ff: "first_free ?nd ?ft = Some nb" using first_free_exists by blast
      have nb: "nb < ?nd" "nb \<notin> set cs" "nb < 65535" using first_free_props [OF fat ff] by simp_all
      let ?ft2 = "?ft[nb := FAT_EOC, last cs := word_of_nat nb]"
      have fa: "first_avail_fat ?nd ?ft = Inr (int nb)" using first_avail_fat_first_free [OF f(2)] ff by simp
      have "next_block True sb w = Inr (w\<lparr>w_cur := word_of_nat nb, w_fat := ?ft2\<rparr>)"
        using nxt False bl nb(1) f(2) lb by (simp add: next_block_def ub fa)
      moreover have "wl_fat sb first ft0 bs0 lb (w_fat (w\<lparr>w_cur := word_of_nat nb, w_fat := ?ft2\<rparr>)) (cs @ [nb])"
        using wl_fat_alloc [OF fat ne ff] by simp
      moreover have "wl_disk sb d0 off0 data (w_disk w) (cs @ [nb]) dn" using wl_disk_extend [OF dsk nb(2,1)] .
      ultimately show ?thesis using more adv [rule_format, OF more] lst
        by (intro exI [of _ "w\<lparr>w_cur := word_of_nat nb, w_fat := ?ft2\<rparr>"] exI [of _ "cs @ [nb]"]) auto
    next
      case False
      then have "next_block (0 < w_count w) sb w = Inr (w\<lparr>w_cur := FAT_EOC\<rparr>)"
        using nxt lst bl by (simp add: next_block_def ub)
      then show ?thesis using fat dsk False by fastforce
    qed
  qed
qed


lemma write_loop_inv:
  "wl_inv sb data first off0 count0 ft0 d0 bs0 w cs \<Longrightarrow> k = iters (w_count w) (w_offset w mod BLOCK_SIZE) \<Longrightarrow>
   \<exists>w' cs'. write_loop k sb data w = Inr w' \<and> wl_inv sb data first off0 count0 ft0 d0 bs0 w' cs' \<and> w_count w' = 0"
proof (induction k arbitrary: w cs)
  case 0
  then show ?case by (auto simp: iters_0_iff)
next
  case (Suc k)
  have c: "0 < w_count w" using Suc.prems(2) iters_0_iff by (metis neq0_conv nat.distinct(1))
  obtain w1 where ch: "write_chunk sb data w = Inr w1" and cur: "w_cur w1 = w_cur w" and ft: "w_fat w1 = w_fat w"
    and dsk: "wl_disk sb d0 off0 data (w_disk w1) cs (count0 - w_count w1)" and ctr: "wl_ctr off0 count0 data w1"
    and adv: "0 < w_count w1 \<longrightarrow> w_offset w1 div BLOCK_SIZE = Suc (w_offset w div BLOCK_SIZE)"
    and it: "iters (w_count w) (w_offset w mod BLOCK_SIZE) = Suc (iters (w_count w1) (w_offset w1 mod BLOCK_SIZE))"
    by (rule write_chunk_inv [OF Suc.prems(1) c])
  have k: "k = iters (w_count w1) (w_offset w1 mod BLOCK_SIZE)" using Suc.prems(2) it by simp
  have more: "(k \<noteq> 0) = (0 < w_count w1)" using k by (simp add: iters_0_iff)
  have fat: "wl_fat sb first ft0 bs0 (off0 + count0 - 1) (w_fat w1) cs"
    and j: "w_offset w div BLOCK_SIZE < length cs" and cj: "w_cur w1 = word_of_nat (cs ! (w_offset w div BLOCK_SIZE))"
    using Suc.prems(1) c unfolding wl_inv_def ft cur by blast+
  have "0 < w_count w1 \<longrightarrow> w_offset w1 div BLOCK_SIZE = Suc (w_offset w div BLOCK_SIZE) \<and> w_offset w1 \<le> off0 + count0 - 1"
    using adv ctr unfolding wl_ctr_def by auto
  from next_block_inv [OF fat dsk j cj this]
  obtain w2 cs' where nb: "next_block (0 < w_count w1) sb w1 = Inr w2"
    and fat': "wl_fat sb first ft0 bs0 (off0 + count0 - 1) (w_fat w2) cs'"
    and dsk': "wl_disk sb d0 off0 data (w_disk w2) cs' (count0 - w_count w1)"
    and sel: "w_count w2 = w_count w1" "w_offset w2 = w_offset w1" "w_disk w2 = w_disk w1"
      "w_bytes w2 = w_bytes w1" "w_btr w2 = w_btr w1" "w_length w2 = w_length w1"
    and cur': "0 < w_count w1 \<longrightarrow> w_offset w1 div BLOCK_SIZE < length cs' \<and>
                 w_cur w2 = word_of_nat (cs' ! (w_offset w1 div BLOCK_SIZE))" by meson
  have "wl_ctr off0 count0 data w2 = wl_ctr off0 count0 data w1" by (simp only: wl_ctr_def sel)
  then have "wl_ctr off0 count0 data w2" using ctr by simp
  then have inv2: "wl_inv sb data first off0 count0 ft0 d0 bs0 w2 cs'"
    using fat' dsk' cur' unfolding wl_inv_def sel by blast
  obtain w' cs'' where "write_loop k sb data w2 = Inr w'" "wl_inv sb data first off0 count0 ft0 d0 bs0 w' cs''"
    "w_count w' = 0" using Suc.IH [OF inv2] k sel by auto
  then show ?case using ch nb more by (intro exI [of _ w'] exI [of _ cs'']) simp
qed

subsection \<open>The whole of fs_write\<close>

lemma patch_Nil [simp]: "patch xs a [] = xs"
  by (simp add: patch_def)

lemma wl_inv_start:
  assumes chain: "fat_chain ft first bs"
    and nz: "\<forall>b\<in>set bs. b < unat (num_data_blocks sb) \<and> ft ! b \<noteq> 0" and z: "ft ! 0 \<noteq> 0"
    and nd: "unat (num_data_blocks sb) \<le> length ft" "unat (num_data_blocks sb) < 65535"
    and free: "(off + count - 1) div BLOCK_SIZE < length bs + free_count (unat (num_data_blocks sb)) ft"
    and dsk: "dk_open d" "unat (data_block_index sb) + unat (num_data_blocks sb) \<le> length (dk_blocks d)"
      "\<forall>x\<in>set (dk_blocks d). length x = BLOCK_SIZE"
    and pos: "off div BLOCK_SIZE < length bs" and safe: "count < BLOCK_SIZE \<longrightarrow> off mod BLOCK_SIZE + count \<le> BLOCK_SIZE"
    and bnd: "off + count < 2 ^ 31" "count < 65536" "count \<le> length data"
  shows "wl_inv sb data first off count ft d bs
           \<lparr>w_cur = word_of_nat (bs ! (off div BLOCK_SIZE)), w_count = count, w_offset = off,
            w_btr = word_of_nat (off mod BLOCK_SIZE), w_length = word_of_nat (get_length count (off mod BLOCK_SIZE)),
            w_bytes = 0, w_bounce = bnc, w_fat = ft, w_disk = d\<rparr> bs"
proof -
  have "wl_fat sb first ft bs (off + count - 1) ft bs"
    unfolding wl_fat_def using chain nz z nd free by (auto intro: exI [of _ "[]"])
  moreover have "off \<le> BLOCK_SIZE * length bs"
  proof -
    have "off < BLOCK_SIZE * Suc (off div BLOCK_SIZE)" by (simp add: BLOCK_SIZE_def)
    also have "\<dots> \<le> BLOCK_SIZE * length bs" using pos by (intro mult_le_mono2) simp
    finally show ?thesis by simp
  qed
  then have "wl_disk sb d off data d bs 0"
    unfolding wl_disk_def using dsk nz fat_chain_distinct [OF chain] by auto
  moreover have "wl_ctr off count data
           \<lparr>w_cur = word_of_nat (bs ! (off div BLOCK_SIZE)), w_count = count, w_offset = off,
            w_btr = word_of_nat (off mod BLOCK_SIZE), w_length = word_of_nat (get_length count (off mod BLOCK_SIZE)),
            w_bytes = 0, w_bounce = bnc, w_fat = ft, w_disk = d\<rparr>"
    unfolding wl_ctr_def using safe bnd by simp
  ultimately show ?thesis using pos unfolding wl_inv_def by simp
qed


lemma walk_chain:
  assumes "fat_chain ft x bs" and "k < length bs" and "k < 2 ^ 31"
  shows "walk (Some ft) x k = Inr (word_of_nat (bs ! k))"
proof (cases "k = 0")
  case True
  then obtain b bs' where "bs = b # bs'" using assms(2) by (cases bs) auto
  then have "unat x = b" using assms(1) by simp
  then have "x = word_of_nat b" by auto
  then show ?thesis using \<open>bs = b # bs'\<close> True by (simp add: walk_def c_int_small)
next
  case False
  then show ?thesis using assms correct_block_chain [OF assms(1), of k] by (simp add: walk_def c_int_small)
qed

lemma wl_final:
  assumes "wl_inv sb data first off0 count0 ft0 d0 bs0 w cs" and "w_count w = 0"
  shows "unat (w_bytes w) = count0 \<and> fat_chain (w_fat w) first cs \<and>
         (\<exists>ns. cs = bs0 @ ns \<and> (\<forall>b\<in>set ns. ft0 ! b = 0)) \<and>
         (\<forall>i. i \<notin> set cs \<longrightarrow> w_fat w ! i = ft0 ! i) \<and> length (w_fat w) = length ft0 \<and>
         dk_open (w_disk w) \<and> dk_name (w_disk w) = dk_name d0 \<and>
         length (dk_blocks (w_disk w)) = length (dk_blocks d0) \<and>
         (\<forall>i. i \<notin> (\<lambda>b. b + unat (data_block_index sb)) ` set cs \<longrightarrow> dk_blocks (w_disk w) ! i = dk_blocks d0 ! i) \<and>
         file_bytes (dk_blocks (w_disk w)) (unat (data_block_index sb)) cs =
           patch (file_bytes (dk_blocks d0) (unat (data_block_index sb)) cs) off0 (take count0 data)"
proof -
  have "w_bytes w = word_of_nat count0" "count0 < 65536" using assms unfolding wl_inv_def wl_ctr_def by auto
  then have "unat (w_bytes w) = count0" by (simp add: unat_of_nat_u16)
  then show ?thesis using assms unfolding wl_inv_def wl_fat_def wl_disk_def by simp
qed


lemma write_blocks_correct:
  assumes fb: "first_block sb ft e = Inr (ft1, e1)" and chain: "fat_chain ft1 (file_index e1) bs"
    and nz: "\<forall>b\<in>set bs. b < unat (num_data_blocks sb) \<and> ft1 ! b \<noteq> 0" and z: "ft1 ! 0 \<noteq> 0"
    and nd: "unat (num_data_blocks sb) \<le> length ft1" "unat (num_data_blocks sb) < 65535"
    and free: "(fd_offset f + count - 1) div BLOCK_SIZE < length bs + free_count (unat (num_data_blocks sb)) ft1"
    and dsk: "dk_open (disk s)" "unat (data_block_index sb) + unat (num_data_blocks sb) \<le> length (dk_blocks (disk s))"
      "\<forall>x\<in>set (dk_blocks (disk s)). length x = BLOCK_SIZE"
    and pos: "fd_offset f div BLOCK_SIZE < length bs"
    and safe: "count < BLOCK_SIZE \<longrightarrow> fd_offset f mod BLOCK_SIZE + count \<le> BLOCK_SIZE"
    and bnd: "0 < count" "fd_offset f + count < 2 ^ 31" "count < 65536" "count \<le> length data"
    and st: "mounted s" "fd_table s = Some fdt" "open_fd fdt fd = Inr f"
      "0 \<le> fd_file_index f" "nat (fd_file_index f) < length dir"
    and sz: "sint (file_size e1) + int count \<le> 2147483647"
  shows "\<exists>w cs. write_blocks fd data count fdt f dir e sb ft s =
           (Inr (int count), s\<lparr>fat := Some (w_fat w), disk := w_disk w,
                               root_direct := Some (dir[nat (fd_file_index f) :=
                                   e1\<lparr>file_size := word_of_int (sint (file_size e1) + int count)\<rparr>]),
                               fd_table := Some (fdt[nat fd := f\<lparr>fd_offset := fd_offset f + count\<rparr>])\<rparr>) \<and>
           wl_inv sb data (file_index e1) (fd_offset f) count ft1 (disk s) bs w cs \<and> w_count w = 0"
proof -
  let ?off = "fd_offset f"
  let ?i = "nat (fd_file_index f)"
  let ?s1 = "s\<lparr>root_direct := Some (dir[?i := e1]), fat := Some ft1\<rparr>"
  let ?w0 = "\<lparr>w_cur = word_of_nat (bs ! (?off div BLOCK_SIZE)), w_count = count, w_offset = ?off,
            w_btr = word_of_nat (?off mod BLOCK_SIZE), w_length = word_of_nat (get_length count (?off mod BLOCK_SIZE)),
            w_bytes = 0, w_bounce = replicate BLOCK_SIZE 0, w_fat = ft1, w_disk = disk s\<rparr>"
  have wk: "walk (Some ft1) (file_index e1) (?off div BLOCK_SIZE) = Inr (word_of_nat (bs ! (?off div BLOCK_SIZE)))"
    using walk_chain [OF chain pos] bnd(2) by (simp add: BLOCK_SIZE_def)
  have stat: "fs_stat fd ?s1 = Inr (sint (file_size e1))"
    using fs_stat_open [of ?s1 fdt fd f "dir[?i := e1]"] st by simp
  have inv0: "wl_inv sb data (file_index e1) ?off count ft1 (disk s) bs ?w0 bs"
    by (rule wl_inv_start [OF chain nz z nd free dsk pos safe bnd(2-4)])
  have "blocks_spanned count ?off = iters count (?off mod BLOCK_SIZE)"
    using bnd(1,2) by (intro blocks_spanned_iters) (simp_all add: BLOCK_SIZE_def)
  then obtain w cs where lp: "write_loop (blocks_spanned count ?off) sb data ?w0 = Inr w"
    and inv: "wl_inv sb data (file_index e1) ?off count ft1 (disk s) bs w cs" and c0: "w_count w = 0"
    using write_loop_inv [OF inv0] by auto
  have ub: "unat (w_bytes w) = count" using wl_final [OF inv c0] by simp
  have "write_blocks fd data count fdt f dir e sb ft s =
           (Inr (int count), ?s1\<lparr>fat := Some (w_fat w), disk := w_disk w,
               root_direct := Some ((dir[?i := e1])[?i := e1\<lparr>file_size := word_of_int (sint (file_size e1) + int count)\<rparr>]),
               fd_table := Some (fdt[nat fd := f\<lparr>fd_offset := (?off + count) mod 2 ^ 64\<rparr>])\<rparr>)"
    unfolding write_blocks_def using fb wk stat lp ub sz by (simp add: Let_def c_ret_def)
  moreover have "(?off + count) mod 2 ^ 64 = ?off + count" using bnd(2) by simp
  ultimately show ?thesis using inv c0 by (intro exI [of _ w] exI [of _ cs]) simp
qed


lemma fs_write_blocks:
  assumes "mounted s" and "fd_table s = Some fdt" and "open_fd fdt fd = Inr f" and "fd < int FS_OPEN_MAX_COUNT"
    and "root_direct s = Some dir" and "0 \<le> fd_file_index f" and "nat (fd_file_index f) < length dir"
    and "0 < count" and "super_block s = Some sb" and "fat s = Some ft"
  shows "fs_write fd (Some data) count s =
           write_blocks fd data count fdt f dir (dir ! nat (fd_file_index f)) sb ft s"
proof -
  have "0 \<le> fd" "nat fd < length fdt" "fdt ! nat fd = f" "\<not> fd_available f"
    using open_fd_Inr [OF assms(3)] by auto
  then show ?thesis using assms(1,2,4-10) by (simp add: fs_write_def)
qed

lemma first_block_chain:
  "file_index e \<noteq> FAT_EOC \<Longrightarrow> first_block sb ft e = Inr (ft, e)"
  by (simp add: first_block_def)

lemma first_block_new:
  assumes "file_index e = FAT_EOC" and "unat (num_data_blocks sb) \<le> length ft"
    and "first_free (unat (num_data_blocks sb)) ft = Some fa" and "unat (num_data_blocks sb) < 65535"
  shows "first_block sb ft e = Inr (ft[fa := FAT_EOC], e\<lparr>file_index := word_of_nat fa\<rparr>) \<and>
         fat_chain (ft[fa := FAT_EOC]) (word_of_nat fa) [fa]"
proof -
  have fa: "fa < unat (num_data_blocks sb)" using first_free_Some [OF assms(3)] by simp
  then have u: "unat (word_of_nat fa :: u16) = fa" using assms(4) by (simp add: unat_of_nat_u16)
  have "first_avail_fat (unat (num_data_blocks sb)) ft = Inr (int fa)"
    using first_avail_fat_first_free [OF assms(2)] assms(3) by simp
  then show ?thesis using assms fa u by (simp add: first_block_def word_of_nat_not_EOC)
qed

end
