(* ===== verification/Read_Engine.thy ===== *)
theory Read_Engine
  imports Write_Engine
begin

text \<open>
  Correctness of the loop of \<open>fs_read\<close> (fs.c 544--559) and of the whole of \<open>fs_read\<close>.
  The loop reads the file's chain in order: its environment (\<open>rl_env\<close>) is an open disk
  whose data region holds the chain \<open>bs\<close> linked in the table from \<open>first\<close>; its counters
  (\<open>rl_ctr\<close>) agree with the number of bytes copied so far, and the caller's buffer holds
  those bytes of the file (\<open>file_bytes\<close>) from the start offset on.  The disk and the table
  do not change, so the invariant is simpler than the one of \<open>fs_write\<close>.
\<close>

section \<open>Definitions\<close>

definition rl_env :: "super_block \<Rightarrow> disk \<Rightarrow> u16 list \<Rightarrow> u16 \<Rightarrow> nat list \<Rightarrow> bool" where
  "rl_env sb d ft first bs \<longleftrightarrow>
     dk_open d \<and> unat (data_block_index sb) + unat (num_data_blocks sb) \<le> length (dk_blocks d) \<and>
     (\<forall>x\<in>set (dk_blocks d). length x = BLOCK_SIZE) \<and> (\<forall>b\<in>set bs. b < unat (num_data_blocks sb)) \<and>
     fat_chain ft first bs"

definition rl_ctr :: "super_block \<Rightarrow> disk \<Rightarrow> nat list \<Rightarrow> nat \<Rightarrow> nat \<Rightarrow> u8 list \<Rightarrow> rstate \<Rightarrow> bool" where
  "rl_ctr sb d bs off0 cnt0 dst r \<longleftrightarrow>
     r_count r \<le> cnt0 \<and> r_offset r = off0 + (cnt0 - r_count r) \<and> r_bytes r = cnt0 - r_count r \<and>
     r_btr r = r_offset r mod BLOCK_SIZE \<and> r_length r = get_length (r_count r) (r_btr r) \<and>
     (r_count r < BLOCK_SIZE \<longrightarrow> r_btr r + r_count r \<le> BLOCK_SIZE) \<and>
     off0 + cnt0 \<le> BLOCK_SIZE * length bs \<and> off0 + cnt0 < 2 ^ 64 \<and> cnt0 \<le> length dst \<and>
     r_buf r = patch dst 0 (take (cnt0 - r_count r)
                 (drop off0 (file_bytes (dk_blocks d) (unat (data_block_index sb)) bs)))"

definition rl_inv ::
  "super_block \<Rightarrow> disk \<Rightarrow> u16 list \<Rightarrow> u16 \<Rightarrow> nat list \<Rightarrow> nat \<Rightarrow> nat \<Rightarrow> u8 list \<Rightarrow> rstate \<Rightarrow> bool" where
  "rl_inv sb d ft first bs off0 cnt0 dst r \<longleftrightarrow>
     rl_env sb d ft first bs \<and> rl_ctr sb d bs off0 cnt0 dst r \<and>
     (0 < r_count r \<longrightarrow> unat (r_cur r) = bs ! (r_offset r div BLOCK_SIZE))"

section \<open>Lemmas\<close>

lemma file_bytes_slice:
  assumes "j < length bs" and "\<forall>b\<in>set bs. length (ds ! (b + dbi)) = BLOCK_SIZE"
    and "q + n \<le> BLOCK_SIZE"
  shows "take n (drop (j * BLOCK_SIZE + q) (file_bytes ds dbi bs)) = take n (drop q (ds ! (bs ! j + dbi)))"
proof -
  have bs: "bs = take j bs @ bs ! j # drop (Suc j) bs" using assms(1) by (simp add: id_take_nth_drop)
  have lp: "length (file_bytes ds dbi (take j bs)) = j * BLOCK_SIZE"
    using assms(1,2) by (subst length_file_bytes) (auto dest: in_set_takeD)
  have lb: "length (ds ! (bs ! j + dbi)) = BLOCK_SIZE" using assms(1,2) by simp
  have "file_bytes ds dbi bs =
          file_bytes ds dbi (take j bs) @ ds ! (bs ! j + dbi) @ file_bytes ds dbi (drop (Suc j) bs)"
    by (subst bs) (simp add: file_bytes_append)
  then show ?thesis using lp lb assms(3) by simp
qed

lemma length_file_bytes_env:
  "rl_env sb d ft first bs \<Longrightarrow>
   length (file_bytes (dk_blocks d) (unat (data_block_index sb)) bs) = BLOCK_SIZE * length bs"
  unfolding rl_env_def by (intro length_file_bytes) auto

lemma rl_ctr_pos:
  assumes "rl_ctr sb d bs off0 cnt0 dst r" and "0 < r_count r"
  shows "r_offset r div BLOCK_SIZE < length bs"
proof -
  have "r_count r \<le> cnt0" "r_offset r = off0 + (cnt0 - r_count r)" "off0 + cnt0 \<le> BLOCK_SIZE * length bs"
    using assms(1) unfolding rl_ctr_def by blast+
  then have "r_offset r < BLOCK_SIZE * length bs" using assms(2) by arith
  then show ?thesis by (simp add: less_mult_imp_div_less mult.commute)
qed

lemma read_chunk_inv:
  assumes env: "rl_env sb d ft first bs" and ctr: "rl_ctr sb d bs off0 cnt0 dst r"
    and c: "0 < r_count r" and cur: "unat (r_cur r) = bs ! (r_offset r div BLOCK_SIZE)"
  obtains r1 where "read_chunk sb d r = Inr r1" "r_cur r1 = r_cur r" "rl_ctr sb d bs off0 cnt0 dst r1"
    "r_offset r div BLOCK_SIZE < length bs"
    "0 < r_count r1 \<longrightarrow> r_offset r1 div BLOCK_SIZE = Suc (r_offset r div BLOCK_SIZE)"
    "iters (r_count r) (r_btr r) = Suc (iters (r_count r1) (r_btr r1))"
proof -
  let ?dbi = "unat (data_block_index sb)"
  let ?ds = "dk_blocks d"
  let ?F = "file_bytes ?ds ?dbi bs"
  let ?off = "r_offset r"
  let ?c = "r_count r"
  let ?k = "cnt0 - r_count r"
  let ?btr = "r_offset r mod BLOCK_SIZE"
  let ?j = "r_offset r div BLOCK_SIZE"
  let ?len = "get_length (r_count r) (r_offset r mod BLOCK_SIZE)"
  let ?B = "?ds ! (bs ! ?j + ?dbi)"
  have f: "dk_open d" "?dbi + unat (num_data_blocks sb) \<le> length ?ds" "\<forall>x\<in>set ?ds. length x = BLOCK_SIZE"
    "\<forall>b\<in>set bs. b < unat (num_data_blocks sb)"
    using env unfolding rl_env_def by blast+
  have c0: "?c \<le> cnt0" "?off = off0 + ?k" "r_bytes r = ?k" "r_btr r = ?btr"
    "r_length r = get_length ?c (r_btr r)" "?c < BLOCK_SIZE \<longrightarrow> r_btr r + ?c \<le> BLOCK_SIZE"
    "off0 + cnt0 \<le> BLOCK_SIZE * length bs"
    "off0 + cnt0 < 2 ^ 64" "cnt0 \<le> length dst" "r_buf r = patch dst 0 (take ?k (drop off0 ?F))"
    using ctr unfolding rl_ctr_def by blast+
  have cnt: "?c \<le> cnt0" "?off = off0 + ?k" "r_bytes r = ?k" "r_btr r = ?btr" "r_length r = ?len"
    "?c < BLOCK_SIZE \<longrightarrow> ?btr + ?c \<le> BLOCK_SIZE" "off0 + cnt0 \<le> BLOCK_SIZE * length bs"
    "off0 + cnt0 < 2 ^ 64" "cnt0 \<le> length dst" "r_buf r = patch dst 0 (take ?k (drop off0 ?F))"
    using c0 by simp_all
  have lens: "0 < ?len" "?len \<le> ?c" "?btr + ?len \<le> BLOCK_SIZE"
    using get_length_bounds [of ?c ?btr] c cnt(6) by (simp_all add: BLOCK_SIZE_def)
  have j: "?j < length bs" using rl_ctr_pos [OF ctr c] .
  have bnd: "bs ! ?j < unat (num_data_blocks sb)" using f(4) j nth_mem by blast
  have blk: "bs ! ?j + ?dbi < length ?ds" using bnd f(2) by simp
  then have lB: "length ?B = BLOCK_SIZE" using f(3) by simp
  have rd: "block_read (unat (r_cur r) + ?dbi) d = Some ?B"
    using f(1) blk cur by (simp add: block_read_def)
  have lF: "length ?F = BLOCK_SIZE * length bs" using env by (rule length_file_bytes_env)
  have lbuf: "length (r_buf r) = length dst" using cnt(1,9,10) by simp
  have mc: "memcpy (r_buf r) ?k ?B ?btr ?len =
              Some (patch (r_buf r) ?k (take ?len (drop ?btr ?B)))"
    using lens lB lbuf cnt(1,9) by (intro memcpy_eq_patch) simp_all
  have sl: "take ?len (drop ?btr ?B) = take ?len (drop ?k (drop off0 ?F))"
  proof -
    have "off0 + ?k = ?j * BLOCK_SIZE + ?btr" using cnt(2) by simp
    then have "take ?len (drop ?k (drop off0 ?F)) = take ?len (drop (?j * BLOCK_SIZE + ?btr) ?F)"
      by (simp add: add.commute)
    also have "\<dots> = take ?len (drop ?btr ?B)"
      using j lens(3) f(2,3,4) by (intro file_bytes_slice) auto
    finally show ?thesis by simp
  qed
  have buf': "patch (r_buf r) ?k (take ?len (drop ?btr ?B)) = patch dst 0 (take (?k + ?len) (drop off0 ?F))"
  proof -
    have lk: "length (take ?k (drop off0 ?F)) = ?k" using cnt(1,7) lF by simp
    have "patch (r_buf r) ?k (take ?len (drop ?btr ?B)) =
            patch (patch dst 0 (take ?k (drop off0 ?F))) (0 + length (take ?k (drop off0 ?F)))
              (take ?len (drop ?k (drop off0 ?F)))"
      unfolding cnt(10) sl lk by simp
    also have "\<dots> = patch dst 0 (take ?k (drop off0 ?F) @ take ?len (drop ?k (drop off0 ?F)))"
      using lk lens(2) cnt(1,7,9) lF by (intro patch_patch) simp
    finally show ?thesis by (simp add: take_add)
  qed
  have ofs: "(?off + ?len) mod 2 ^ 64 = ?off + ?len" using cnt(2,8) lens(2) cnt(1) by simp
  have byt: "(?k + ?len) mod 2 ^ 64 = ?k + ?len" using cnt(1,8) lens(2) by simp
  let ?r1 = "r\<lparr>r_count := ?c - ?len, r_offset := ?off + ?len, r_btr := (?off + ?len) mod BLOCK_SIZE,
               r_length := get_length (?c - ?len) ((?off + ?len) mod BLOCK_SIZE), r_bytes := ?k + ?len,
               r_bounce := Some ?B, r_buf := patch dst 0 (take (?k + ?len) (drop off0 ?F))\<rparr>"
  have ch: "read_chunk sb d r = Inr ?r1"
    unfolding read_chunk_def Let_def rd option.simps cnt(3-5) mc buf' ofs byt by simp
  have ar: "(?c - ?len < BLOCK_SIZE \<longrightarrow> (?off + ?len) mod BLOCK_SIZE + (?c - ?len) \<le> BLOCK_SIZE) \<and>
         (0 < ?c - ?len \<longrightarrow> (?off + ?len) mod BLOCK_SIZE = 0 \<and> (?off + ?len) div BLOCK_SIZE = Suc ?j) \<and>
         iters ?c ?btr = Suc (iters (?c - ?len) ((?off + ?len) mod BLOCK_SIZE))"
    using step_arith [of ?c ?off] c cnt(6) by simp
  have k': "cnt0 - (?c - ?len) = ?k + ?len" using cnt(1) lens(2) by simp
  have sel: "r_count ?r1 = ?c - ?len" "r_offset ?r1 = ?off + ?len" "r_bytes ?r1 = ?k + ?len"
    "r_btr ?r1 = (?off + ?len) mod BLOCK_SIZE" "r_length ?r1 = get_length (?c - ?len) ((?off + ?len) mod BLOCK_SIZE)"
    "r_buf ?r1 = patch dst 0 (take (?k + ?len) (drop off0 ?F))" by simp_all
  have ctr': "rl_ctr sb d bs off0 cnt0 dst ?r1"
    unfolding rl_ctr_def sel k'
  proof (intro conjI)
    show "?c - ?len \<le> cnt0" using cnt(1) by simp
    show "?off + ?len = off0 + (?k + ?len)" using cnt(2) by simp
    show "?c - ?len < BLOCK_SIZE \<longrightarrow> (?off + ?len) mod BLOCK_SIZE + (?c - ?len) \<le> BLOCK_SIZE"
      using ar by blast
  qed (use cnt in simp_all)
  show thesis by (rule that [OF ch]) (use ctr' ar j cnt(4) in simp_all)
qed

text \<open>The table entry of the block just read is the next block of the chain, so the
  invariant's current block is kept by \<open>cur_data_block = fat[cur_data_block].block\<close>.\<close>

lemma rl_ctr_cur [simp]: "rl_ctr sb d bs off0 cnt0 dst (r\<lparr>r_cur := c\<rparr>) = rl_ctr sb d bs off0 cnt0 dst r"
  by (simp add: rl_ctr_def)

lemma read_next_block:
  assumes env: "rl_env sb d ft first bs" and j: "j < length bs" and cur: "unat c = bs ! j"
  shows "fat_get ft (unat c) = Inr (ft ! (bs ! j)) \<and>
         (Suc j < length bs \<longrightarrow> unat (ft ! (bs ! j)) = bs ! Suc j)"
proof -
  have chain: "fat_chain ft first bs" using env unfolding rl_env_def by blast
  have lt: "bs ! j < length ft" using fat_chain_elem [OF chain] j nth_mem by blast
  have nxt: "ft ! (bs ! j) = (if Suc j < length bs then word_of_nat (bs ! Suc j) else FAT_EOC)"
    by (rule fat_chain_nth [OF chain j])
  have "Suc j < length bs \<longrightarrow> unat (word_of_nat (bs ! Suc j) :: u16) = bs ! Suc j"
  proof
    assume "Suc j < length bs"
    then have "bs ! Suc j < 65535" using fat_chain_elem [OF chain] nth_mem by blast
    then show "unat (word_of_nat (bs ! Suc j) :: u16) = bs ! Suc j" by (intro unat_of_nat_u16) simp
  qed
  then show ?thesis using lt cur nxt by simp
qed

lemma read_loop_inv:
  "rl_inv sb d ft first bs off0 cnt0 dst r \<Longrightarrow> k = iters (r_count r) (r_btr r) \<Longrightarrow>
   \<exists>r'. read_loop k sb ft d r = Inr r' \<and> rl_ctr sb d bs off0 cnt0 dst r' \<and> r_count r' = 0"
proof (induction k arbitrary: r)
  case 0
  then show ?case by (auto simp: iters_0_iff rl_inv_def)
next
  case (Suc k)
  have env: "rl_env sb d ft first bs" and ctr: "rl_ctr sb d bs off0 cnt0 dst r"
    using Suc.prems(1) unfolding rl_inv_def by blast+
  have c: "0 < r_count r" using Suc.prems(2) iters_0_iff by (metis neq0_conv nat.distinct(1))
  have cur: "unat (r_cur r) = bs ! (r_offset r div BLOCK_SIZE)" using Suc.prems(1) c unfolding rl_inv_def by blast
  obtain r1 where ch: "read_chunk sb d r = Inr r1" and cur1: "r_cur r1 = r_cur r"
    and ctr1: "rl_ctr sb d bs off0 cnt0 dst r1" and j: "r_offset r div BLOCK_SIZE < length bs"
    and adv: "0 < r_count r1 \<longrightarrow> r_offset r1 div BLOCK_SIZE = Suc (r_offset r div BLOCK_SIZE)"
    and it: "iters (r_count r) (r_btr r) = Suc (iters (r_count r1) (r_btr r1))"
    by (rule read_chunk_inv [OF env ctr c cur])
  let ?nxt = "ft ! (bs ! (r_offset r div BLOCK_SIZE))"
  have fg: "fat_get ft (unat (r_cur r1)) = Inr ?nxt"
    and nx: "Suc (r_offset r div BLOCK_SIZE) < length bs \<longrightarrow> unat ?nxt = bs ! Suc (r_offset r div BLOCK_SIZE)"
    using read_next_block [OF env j cur] cur1 by simp_all
  let ?r2 = "r1\<lparr>r_cur := ?nxt\<rparr>"
  have ctr2: "rl_ctr sb d bs off0 cnt0 dst ?r2" using ctr1 by simp
  have "0 < r_count r1 \<longrightarrow> unat ?nxt = bs ! (r_offset r1 div BLOCK_SIZE)"
    using rl_ctr_pos [OF ctr1] adv nx by auto
  then have inv2: "rl_inv sb d ft first bs off0 cnt0 dst ?r2" using env ctr2 unfolding rl_inv_def by simp
  have k: "k = iters (r_count ?r2) (r_btr ?r2)" using Suc.prems(2) it by simp
  obtain r' where "read_loop k sb ft d ?r2 = Inr r'" "rl_ctr sb d bs off0 cnt0 dst r'" "r_count r' = 0"
    using Suc.IH [OF inv2 k] by blast
  then show ?case using ch fg by simp
qed

subsection \<open>The whole of fs_read\<close>

text \<open>The walk to the block of the offset may also end just after the chain, at the
  end-of-chain marker, when the offset is the end of the file's last block.\<close>

lemma walk_chain_le:
  assumes "fat_chain ft x bs" and "k \<le> length bs" and "k < 2 ^ 31"
  shows "walk (Some ft) x k = Inr (if k < length bs then word_of_nat (bs ! k) else FAT_EOC)"
proof (cases "k < length bs")
  case True
  then show ?thesis using walk_chain [OF assms(1) True assms(3)] by simp
next
  case False
  then have k: "k = length bs" using assms(2) by simp
  show ?thesis
  proof (cases "k = 0")
    case True
    then show ?thesis using assms(1) k by (simp add: walk_def c_int_small)
  next
    case False
    then show ?thesis using assms correct_block_chain [OF assms(1), of k] k by (simp add: walk_def c_int_small)
  qed
qed

text \<open>The clipping of fs.c 524--526 computes \<open>min count (size - offset)\<close> when the sizes
  are small enough for the \<open>int\<close> conversions to be exact.\<close>

lemma read_count_clip:
  assumes "unat fsize < 2 ^ 31" and "count + off < 2 ^ 31" and "off \<le> unat fsize"
  shows "read_count count off fsize = min count (unat fsize - off)"
proof -
  have s: "sint fsize = int (unat fsize)" using assms(1) by (rule sint_small)
  have c: "c_int ((count + off) mod 2 ^ 64) = int (count + off)" using assms(2) by (simp add: c_int_small)
  have d: "uint fsize - int off = int (unat fsize - off)"
    unfolding uint_nat of_nat_diff [OF assms(3)] ..
  have "unat fsize - off < 2 ^ 64" using assms(1) by simp
  then have "int (unat fsize - off) < 2 ^ 64" by (metis of_nat_less_iff of_nat_numeral of_nat_power)
  then have "int (unat fsize - off) mod 2 ^ 64 = int (unat fsize - off)" by (intro mod_pos_pos_trivial) simp_all
  then have u: "nat ((uint fsize - int off) mod 2 ^ 64) = unat fsize - off" unfolding d by (simp only: nat_int)
  have "(int (unat fsize) < int (count + off)) = (unat fsize - off < count)" using assms(3) by linarith
  then show ?thesis unfolding read_count_def s c u by (simp add: min_def)
qed

text \<open>A read of no bytes at an offset inside a block still makes one iteration, which
  reads the block and copies nothing.\<close>

lemma read_loop_empty:
  assumes env: "rl_env sb d ft first bs" and j: "off div BLOCK_SIZE < length bs"
    and cur: "unat c = bs ! (off div BLOCK_SIZE)"
  shows "\<exists>r'. read_loop 1 sb ft d
              \<lparr>r_cur = c, r_count = 0, r_offset = off, r_btr = off mod BLOCK_SIZE,
               r_length = get_length 0 (off mod BLOCK_SIZE), r_bytes = 0, r_bounce = None, r_buf = dst\<rparr> = Inr r' \<and>
           r_bytes r' = 0 \<and> r_buf r' = dst"
proof -
  let ?dbi = "unat (data_block_index sb)"
  let ?B = "dk_blocks d ! (bs ! (off div BLOCK_SIZE) + ?dbi)"
  have f: "dk_open d" "?dbi + unat (num_data_blocks sb) \<le> length (dk_blocks d)"
    "\<forall>x\<in>set (dk_blocks d). length x = BLOCK_SIZE" "\<forall>b\<in>set bs. b < unat (num_data_blocks sb)"
    using env unfolding rl_env_def by blast+
  have blk: "bs ! (off div BLOCK_SIZE) + ?dbi < length (dk_blocks d)" using f(2,4) j nth_mem by fastforce
  then have lB: "length ?B = BLOCK_SIZE" using f(3) by simp
  have rd: "block_read (unat c + ?dbi) d = Some ?B" using f(1) blk cur by (simp add: block_read_def)
  have mc: "memcpy dst 0 ?B (off mod BLOCK_SIZE) 0 = Some dst"
    using memcpy_eq_patch [of 0 0 dst "off mod BLOCK_SIZE" ?B] lB by (simp add: BLOCK_SIZE_def)
  have fg: "fat_get ft (unat c) = Inr (ft ! (bs ! (off div BLOCK_SIZE)))"
    using read_next_block [OF env j cur] by simp
  have gl: "get_length 0 (off mod BLOCK_SIZE) = 0" by (simp add: get_length_def BLOCK_SIZE_def)
  have "read_chunk sb d \<lparr>r_cur = c, r_count = 0, r_offset = off, r_btr = off mod BLOCK_SIZE,
               r_length = 0, r_bytes = 0, r_bounce = None, r_buf = dst\<rparr> =
        Inr \<lparr>r_cur = c, r_count = 0, r_offset = off mod 2 ^ 64, r_btr = off mod 2 ^ 64 mod BLOCK_SIZE,
               r_length = get_length 0 (off mod 2 ^ 64 mod BLOCK_SIZE), r_bytes = 0, r_bounce = Some ?B, r_buf = dst\<rparr>"
    using rd mc by (simp add: read_chunk_def Let_def)
  then show ?thesis using fg unfolding gl by (simp add: One_nat_def)
qed

lemma fs_read_chain:
  assumes st: "mounted s" "fd_table s = Some fdt" "open_fd fdt fd = Inr f" "root_direct s = Some dir"
      "0 \<le> fd_file_index f" "nat (fd_file_index f) < length dir" "super_block s = Some sb" "fat s = Some ft"
    and e: "e = dir ! nat (fd_file_index f)"
    and env: "rl_env sb (disk s) ft (file_index e) bs"
    and sz: "unat (file_size e) < 2 ^ 31"
    and off: "fd_offset f \<le> unat (file_size e)" "count + fd_offset f < 2 ^ 31"
    and n: "n = min count (unat (file_size e) - fd_offset f)"
    and fit: "fd_offset f + n \<le> BLOCK_SIZE * length bs"
    and safe: "n < BLOCK_SIZE \<longrightarrow> fd_offset f mod BLOCK_SIZE + n \<le> BLOCK_SIZE"
    and dst: "n \<le> length dst"
  shows "fs_read fd (Some dst) count s =
           (Inr (int n, patch dst 0 (take n (drop (fd_offset f)
                          (file_bytes (dk_blocks (disk s)) (unat (data_block_index sb)) bs)))),
            s\<lparr>fd_table := Some (fdt[nat fd := f\<lparr>fd_offset := fd_offset f + n\<rparr>])\<rparr>)"
proof -
  let ?off = "fd_offset f"
  let ?F = "file_bytes (dk_blocks (disk s)) (unat (data_block_index sb)) bs"
  let ?j = "fd_offset f div BLOCK_SIZE"
  let ?cur = "if ?j < length bs then word_of_nat (bs ! ?j) else FAT_EOC"
  let ?r0 = "\<lparr>r_cur = ?cur, r_count = n, r_offset = ?off, r_btr = ?off mod BLOCK_SIZE,
             r_length = get_length n (?off mod BLOCK_SIZE), r_bytes = 0, r_bounce = None, r_buf = dst\<rparr>"
  have chain: "fat_chain ft (file_index e) bs" using env unfolding rl_env_def by blast
  have offb: "?off + n \<le> BLOCK_SIZE * length bs" by (rule fit)
  have "?j \<le> (BLOCK_SIZE * length bs) div BLOCK_SIZE" using offb by (intro div_le_mono) simp
  then have jl: "?j \<le> length bs" by (simp add: BLOCK_SIZE_def)
  have "?j < 2 ^ 31" using off(2) by (meson div_le_dividend le_add2 le_less_trans)
  then have wk: "walk (Some ft) (file_index e) ?j = Inr ?cur" by (rule walk_chain_le [OF chain jl])
  have rc: "read_count count ?off (file_size e) = n" using read_count_clip [OF sz off(2) off(1)] n by simp
  have cur: "?j < length bs \<Longrightarrow> unat ?cur = bs ! ?j"
  proof -
    assume j: "?j < length bs"
    then have "bs ! ?j < 65535" using fat_chain_elem [OF chain] nth_mem by blast
    then show "unat ?cur = bs ! ?j" using j by (simp add: unat_of_nat_u16)
  qed
  have res: "\<exists>r. (if blocks_spanned n ?off = 0 then Inr ?r0 else read_loop (blocks_spanned n ?off) sb ft (disk s) ?r0) = Inr r \<and>
               r_bytes r = n \<and> r_buf r = patch dst 0 (take n (drop ?off ?F))"
  proof (cases "n = 0")
    case n0: True
    show ?thesis
    proof (cases "?off mod BLOCK_SIZE = 0")
      case True
      then show ?thesis using n0 by (simp add: blocks_spanned_def)
    next
      case False
      have "?off < BLOCK_SIZE * length bs" using offb False n0 by (cases "?off = BLOCK_SIZE * length bs") simp_all
      then have j: "?j < length bs" by (simp add: less_mult_imp_div_less mult.commute)
      have "blocks_spanned n ?off = 1" using n0 False by (simp add: blocks_spanned_def BLOCK_SIZE_def)
      then show ?thesis using read_loop_empty [OF env j cur [OF j], of dst] n0 by simp
    qed
  next
    case False
    have bi: "blocks_spanned n ?off = iters n (?off mod BLOCK_SIZE)"
      using False off(2) n by (intro blocks_spanned_iters) (simp_all add: BLOCK_SIZE_def)
    have ctr: "rl_ctr sb (disk s) bs ?off n dst ?r0"
      unfolding rl_ctr_def using safe offb off(2) n dst by simp
    have "0 < n \<longrightarrow> ?off div BLOCK_SIZE < length bs" using rl_ctr_pos [OF ctr] by simp
    then have inv: "rl_inv sb (disk s) ft (file_index e) bs ?off n dst ?r0"
      unfolding rl_inv_def using env ctr cur by simp
    obtain r' where "read_loop (iters n (?off mod BLOCK_SIZE)) sb ft (disk s) ?r0 = Inr r'"
      "rl_ctr sb (disk s) bs ?off n dst r'" "r_count r' = 0"
      using read_loop_inv [OF inv] by auto
    then show ?thesis using False bi iters_0_iff unfolding rl_ctr_def by auto
  qed
  then obtain r where r: "(if blocks_spanned n ?off = 0 then Inr ?r0 else read_loop (blocks_spanned n ?off) sb ft (disk s) ?r0) = Inr r"
    "r_bytes r = n" "r_buf r = patch dst 0 (take n (drop ?off ?F))" by blast
  have fd: "0 \<le> fd" "nat fd < length fdt" "fdt ! nat fd = f" using open_fd_Inr [OF st(3)] by auto
  have ci: "c_int n = int n" using off(2) n by (simp add: c_int_small)
  have om: "(?off + n) mod 2 ^ 64 = ?off + n" using off(2) n by simp
  show ?thesis using st fd wk rc e [symmetric] r ci om
    by (simp add: fs_read_def Let_def cong: if_cong split del: if_split)
qed

end
