(* ===== verification/File_Transfer.thy ===== *)
theory File_Transfer
  imports Read_Engine
begin

text \<open>
  The composition of the two engines.  \<open>file_ok\<close> says that a file's blocks \<open>cs\<close> are
  linked in the table from its first index, lie in the data region of an open disk whose
  blocks have the block size, and that the table's reserved entry 0 is in use; it is what
  \<open>fs_write\<close> needs and what it re-establishes (\<open>write_blocks_ok\<close>), with the chain grown
  by the blocks it allocated and the free count lowered by as many, so that writes can be
  chained and followed by reads (\<open>file_ok_env\<close>).
\<close>

section \<open>Definitions\<close>

definition file_ok :: "super_block \<Rightarrow> u16 list \<Rightarrow> disk \<Rightarrow> u16 \<Rightarrow> nat list \<Rightarrow> bool" where
  "file_ok sb ft d first cs \<longleftrightarrow>
     fat_chain ft first cs \<and> (\<forall>b\<in>set cs. b < unat (num_data_blocks sb) \<and> ft ! b \<noteq> 0) \<and> ft ! 0 \<noteq> 0 \<and>
     unat (num_data_blocks sb) \<le> length ft \<and> unat (num_data_blocks sb) < 65535 \<and>
     dk_open d \<and> unat (data_block_index sb) + unat (num_data_blocks sb) \<le> length (dk_blocks d) \<and>
     (\<forall>x\<in>set (dk_blocks d). length x = BLOCK_SIZE)"

section \<open>Lemmas\<close>

lemma file_ok_env: "file_ok sb ft d first cs \<Longrightarrow> rl_env sb d ft first cs"
  by (simp add: file_ok_def rl_env_def)

lemma free_count_extend:
  assumes frame: "\<forall>i. i \<notin> set (bs @ ns) \<longrightarrow> ft' ! i = ft ! i" and old: "\<forall>b\<in>set bs. ft ! b \<noteq> 0"
    and new: "\<forall>b\<in>set (bs @ ns). b < n \<and> ft' ! b \<noteq> 0" and fr: "\<forall>b\<in>set ns. ft ! b = 0"
    and dist: "distinct ns"
  shows "free_count n ft' + length ns = free_count n ft"
proof -
  let ?A = "{i. i < n \<and> ft ! i = 0}"
  have eq: "{i. i < n \<and> ft' ! i = 0} = ?A - set ns"
  proof (intro set_eqI iffI)
    fix i assume "i \<in> {i. i < n \<and> ft' ! i = 0}"
    then show "i \<in> ?A - set ns" using frame new old by (cases "i \<in> set (bs @ ns)") auto
  next
    fix i assume "i \<in> ?A - set ns"
    then show "i \<in> {i. i < n \<and> ft' ! i = 0}" using frame old by (cases "i \<in> set bs") auto
  qed
  have sub: "set ns \<subseteq> ?A" using new fr by auto
  have fin: "finite ?A" by simp
  have "card (?A - set ns) = card ?A - card (set ns)" using sub by (intro card_Diff_subset) (auto intro: finite_subset)
  moreover have "card (set ns) \<le> card ?A" using fin sub by (rule card_mono)
  ultimately show ?thesis using eq dist by (simp add: free_count_card distinct_card)
qed

lemma write_blocks_ok:
  assumes fb: "first_block sb ft e = Inr (ft1, e1)" and ok: "file_ok sb ft1 (disk s) (file_index e1) bs"
    and free: "(fd_offset f + count - 1) div BLOCK_SIZE < length bs + free_count (unat (num_data_blocks sb)) ft1"
    and pos: "fd_offset f div BLOCK_SIZE < length bs"
    and safe: "count < BLOCK_SIZE \<longrightarrow> fd_offset f mod BLOCK_SIZE + count \<le> BLOCK_SIZE"
    and bnd: "0 < count" "fd_offset f + count < 2 ^ 31" "count < 65536" "count \<le> length data"
    and st: "mounted s" "fd_table s = Some fdt" "open_fd fdt fd = Inr f"
      "0 \<le> fd_file_index f" "nat (fd_file_index f) < length dir"
    and sz: "sint (file_size e1) + int count \<le> 2147483647"
  shows "\<exists>ft' d' ns. write_blocks fd data count fdt f dir e sb ft s =
           (Inr (int count), s\<lparr>fat := Some ft', disk := d',
              root_direct := Some (dir[nat (fd_file_index f) :=
                  e1\<lparr>file_size := word_of_int (sint (file_size e1) + int count)\<rparr>]),
              fd_table := Some (fdt[nat fd := f\<lparr>fd_offset := fd_offset f + count\<rparr>])\<rparr>) \<and>
         file_ok sb ft' d' (file_index e1) (bs @ ns) \<and> (\<forall>b\<in>set ns. ft1 ! b = 0) \<and>
         (\<forall>i. i \<notin> set (bs @ ns) \<longrightarrow> ft' ! i = ft1 ! i) \<and> length ft' = length ft1 \<and>
         free_count (unat (num_data_blocks sb)) ft' + length ns = free_count (unat (num_data_blocks sb)) ft1 \<and>
         dk_name d' = dk_name (disk s) \<and> length (dk_blocks d') = length (dk_blocks (disk s)) \<and>
         (\<forall>i. i \<notin> (\<lambda>b. b + unat (data_block_index sb)) ` set (bs @ ns) \<longrightarrow>
              dk_blocks d' ! i = dk_blocks (disk s) ! i) \<and>
         file_bytes (dk_blocks d') (unat (data_block_index sb)) (bs @ ns) =
           patch (file_bytes (dk_blocks (disk s)) (unat (data_block_index sb)) (bs @ ns)) (fd_offset f) (take count data) \<and>
         fd_offset f + count \<le> BLOCK_SIZE * length (bs @ ns)"
proof -
  have o: "fat_chain ft1 (file_index e1) bs" "\<forall>b\<in>set bs. b < unat (num_data_blocks sb) \<and> ft1 ! b \<noteq> 0"
    "ft1 ! 0 \<noteq> 0" "unat (num_data_blocks sb) \<le> length ft1" "unat (num_data_blocks sb) < 65535"
    "dk_open (disk s)" "unat (data_block_index sb) + unat (num_data_blocks sb) \<le> length (dk_blocks (disk s))"
    "\<forall>x\<in>set (dk_blocks (disk s)). length x = BLOCK_SIZE"
    using ok unfolding file_ok_def by blast+
  obtain w cs where wb: "write_blocks fd data count fdt f dir e sb ft s =
           (Inr (int count), s\<lparr>fat := Some (w_fat w), disk := w_disk w,
              root_direct := Some (dir[nat (fd_file_index f) := e1\<lparr>file_size := word_of_int (sint (file_size e1) + int count)\<rparr>]),
              fd_table := Some (fdt[nat fd := f\<lparr>fd_offset := fd_offset f + count\<rparr>])\<rparr>)"
    and inv: "wl_inv sb data (file_index e1) (fd_offset f) count ft1 (disk s) bs w cs" and c0: "w_count w = 0"
    using write_blocks_correct [OF fb o(1,2,3,4,5) free o(6,7,8) pos safe bnd st(1-5) sz] by blast
  obtain ns where ns: "cs = bs @ ns" "\<forall>b\<in>set ns. ft1 ! b = 0" using wl_final [OF inv c0] by blast
  have fin: "fat_chain (w_fat w) (file_index e1) cs" "\<forall>i. i \<notin> set cs \<longrightarrow> w_fat w ! i = ft1 ! i"
    "length (w_fat w) = length ft1" "dk_name (w_disk w) = dk_name (disk s)"
    "length (dk_blocks (w_disk w)) = length (dk_blocks (disk s))"
    "\<forall>i. i \<notin> (\<lambda>b. b + unat (data_block_index sb)) ` set cs \<longrightarrow> dk_blocks (w_disk w) ! i = dk_blocks (disk s) ! i"
    "file_bytes (dk_blocks (w_disk w)) (unat (data_block_index sb)) cs =
       patch (file_bytes (dk_blocks (disk s)) (unat (data_block_index sb)) cs) (fd_offset f) (take count data)"
    using wl_final [OF inv c0] by blast+
  have fat: "\<forall>b\<in>set cs. b < unat (num_data_blocks sb) \<and> w_fat w ! b \<noteq> 0" "w_fat w ! 0 \<noteq> 0"
    "unat (num_data_blocks sb) \<le> length (w_fat w)"
    using inv unfolding wl_inv_def wl_fat_def by blast+
  have dsk: "dk_open (w_disk w)" "\<forall>x\<in>set (dk_blocks (w_disk w)). length x = BLOCK_SIZE"
    "fd_offset f + (count - w_count w) \<le> BLOCK_SIZE * length cs"
    using inv unfolding wl_inv_def wl_disk_def by blast+
  have okw: "file_ok sb (w_fat w) (w_disk w) (file_index e1) cs"
    unfolding file_ok_def using fin(1,5) fat dsk(1,2) o(5,7) by simp
  have "distinct ns" using fat_chain_distinct [OF fin(1)] ns(1) by simp
  then have fc: "free_count (unat (num_data_blocks sb)) (w_fat w) + length ns = free_count (unat (num_data_blocks sb)) ft1"
    using fin(2) o(2) fat(1) ns by (intro free_count_extend) auto
  show ?thesis
    apply (rule exI [of _ "w_fat w"], rule exI [of _ "w_disk w"], rule exI [of _ ns])
    using wb okw ns fin fc dsk(3) c0 by simp
qed

lemma length_file_bytes_in:
  "\<forall>x\<in>set ds. length x = BLOCK_SIZE \<Longrightarrow> \<forall>b\<in>set cs. b + dbi < length ds \<Longrightarrow>
   length (file_bytes ds dbi cs) = BLOCK_SIZE * length cs"
  by (intro length_file_bytes) auto

lemma c_str_append_left: "NUL \<in> set xs \<Longrightarrow> c_str (xs @ ys) = c_str xs"
  by (auto simp: c_str_def takeWhile_append1)

text \<open>A name shorter than its field is read within the field, so moving the cursor does
  not change what \<open>strlen\<close> sees and the descriptor stays open.\<close>

lemma open_fd_offset:
  assumes "open_fd fdt fd = Inr f" and "NUL \<in> set (fd_file_name f)"
  shows "open_fd (fdt[nat fd := f\<lparr>fd_offset := x\<rparr>]) fd = Inr (f\<lparr>fd_offset := x\<rparr>)"
proof -
  have "fd_strlen (f\<lparr>fd_offset := x\<rparr>) = fd_strlen f"
    using assms(2) by (simp add: fd_strlen_def fd_name_bytes_def c_str_append_left)
  then show ?thesis using assms(1) open_fd_Inr [OF assms(1)]
    by (auto simp: open_fd_def fd_get_def split: option.splits if_splits)
qed

lemma take_drop_patch: "a + length ys \<le> length xs \<Longrightarrow> take (length ys) (drop a (patch xs a ys)) = ys"
  by (simp add: patch_def)

lemma fs_write_ok:
  assumes st: "mounted s" "fd_table s = Some fdt" "open_fd fdt fd = Inr f" "fd < int FS_OPEN_MAX_COUNT"
      "root_direct s = Some dir" "0 \<le> fd_file_index f" "nat (fd_file_index f) < length dir"
      "super_block s = Some sb" "fat s = Some ft"
    and e: "e = dir ! nat (fd_file_index f)"
    and fb: "first_block sb ft e = Inr (ft1, e1)" and ok: "file_ok sb ft1 (disk s) (file_index e1) bs"
    and free: "(fd_offset f + count - 1) div BLOCK_SIZE < length bs + free_count (unat (num_data_blocks sb)) ft1"
    and pos: "fd_offset f div BLOCK_SIZE < length bs"
    and safe: "count < BLOCK_SIZE \<longrightarrow> fd_offset f mod BLOCK_SIZE + count \<le> BLOCK_SIZE"
    and bnd: "0 < count" "fd_offset f + count < 2 ^ 31" "count < 65536" "count \<le> length data"
    and sz: "sint (file_size e1) + int count \<le> 2147483647"
  shows "\<exists>ft' d' ns. fs_write fd (Some data) count s =
           (Inr (int count), s\<lparr>fat := Some ft', disk := d',
              root_direct := Some (dir[nat (fd_file_index f) :=
                  e1\<lparr>file_size := word_of_int (sint (file_size e1) + int count)\<rparr>]),
              fd_table := Some (fdt[nat fd := f\<lparr>fd_offset := fd_offset f + count\<rparr>])\<rparr>) \<and>
         file_ok sb ft' d' (file_index e1) (bs @ ns) \<and> (\<forall>b\<in>set ns. ft1 ! b = 0) \<and>
         (\<forall>i. i \<notin> set (bs @ ns) \<longrightarrow> ft' ! i = ft1 ! i) \<and> length ft' = length ft1 \<and>
         free_count (unat (num_data_blocks sb)) ft' + length ns = free_count (unat (num_data_blocks sb)) ft1 \<and>
         dk_name d' = dk_name (disk s) \<and> length (dk_blocks d') = length (dk_blocks (disk s)) \<and>
         (\<forall>i. i \<notin> (\<lambda>b. b + unat (data_block_index sb)) ` set (bs @ ns) \<longrightarrow>
              dk_blocks d' ! i = dk_blocks (disk s) ! i) \<and>
         file_bytes (dk_blocks d') (unat (data_block_index sb)) (bs @ ns) =
           patch (file_bytes (dk_blocks (disk s)) (unat (data_block_index sb)) (bs @ ns)) (fd_offset f) (take count data) \<and>
         fd_offset f + count \<le> BLOCK_SIZE * length (bs @ ns)"
  using fs_write_blocks [OF st(1-7) bnd(1) st(8,9)] e
    write_blocks_ok [OF fb ok free pos safe bnd st(1-3,6,7) sz] by simp

text \<open>The size update of fs.c 492--493, \<open>file_size += bytes_read\<close> through an \<open>int\<close>, is
  exact while the sum stays below \<open>2^31\<close>.\<close>

lemma file_size_add:
  assumes "unat (x :: u32) + c < 2 ^ 31"
  shows "sint x + int c \<le> 2147483647 \<and> unat (word_of_int (sint x + int c) :: u32) = unat x + c \<and>
         sint (word_of_int (sint x + int c) :: u32) = int (unat x + c)"
proof -
  have si: "sint x = int (unat x)" using assms by (intro sint_small) simp
  have h: "unat x + c \<le> 2147483647" using assms by simp
  have u: "unat (word_of_int (sint x + int c) :: u32) = unat x + c"
    using unat_add_of_nat [of x c] assms unfolding si by simp
  have "unat (word_of_int (sint x + int c) :: u32) < 2 ^ 31" using u assms by simp
  then have "sint (word_of_int (sint x + int c) :: u32) = int (unat (word_of_int (sint x + int c) :: u32))"
    by (rule sint_small)
  then have "sint (word_of_int (sint x + int c) :: u32) = int (unat x + c)" by (simp only: u)
  then show ?thesis using u h unfolding si by linarith
qed

end
