(* ===== verification/File_Session.thy ===== *)
theory File_Session
  imports File_Transfer
begin

text \<open>
  The life of a file through the operations of a session:
  \<^item> \<open>fs_create\<close> followed by \<open>fs_open\<close> of a new name (\<open>fs_create_open\<close>);
  \<^item> the first \<open>fs_write\<close> to a file that has no blocks yet (\<open>fs_write_first\<close>).  Before the
    loop runs, it allocates the first free entry of the table as the start of the chain;
  \<^item> both composed (\<open>fs_session_first_write\<close>);
  \<^item> a seek to 0 followed by a read of a file laid out by \<open>file_ok\<close> (\<open>fs_reread\<close>).
  With \<open>fs_write_ok\<close> for the writes that follow, these lemmas compose into whole sessions,
  as in the round trip and the scenario of spec section 8 (C22, C23).
\<close>

section \<open>Lemmas\<close>

subsection \<open>Creating and opening a new file\<close>

lemma strcpy_field_NUL:
  assumes "length name < FS_FILENAME_LEN"
  shows "NUL \<in> set (strcpy_field old name)"
proof -
  obtain k where k: "FS_FILENAME_LEN - length name = Suc k" using assms by (metis Suc_diff_Suc)
  have "strcpy_field old name = name @ take (Suc k) (NUL # drop (Suc (length name)) old)"
    using assms unfolding strcpy_field_def take_append k [symmetric] by simp
  then show ?thesis by simp
qed

lemma matching_single:
  assumes "j < length dir" and "entry_name (dir ! j) = Some n"
    and "\<forall>i<length dir. i \<noteq> j \<longrightarrow> entry_name (dir ! i) \<noteq> Some n"
  shows "matching n dir = [j]"
proof -
  have d: "distinct (matching n dir)" unfolding matching_def by (intro distinct_filter) simp
  have st: "set (matching n dir) = {j}" using assms unfolding matching_def by auto
  then have "length (matching n dir) = 1" using distinct_card [OF d] by simp
  then obtain x where "matching n dir = [x]" by (auto simp: length_Suc_conv)
  then show ?thesis using st by simp
qed

lemma open_fd_open_entry:
  assumes "fdt_wf fdt" and "first_available fdt = Some fd" and "NUL \<notin> set n" and "length n < FS_FILENAME_LEN"
  shows "open_fd (fdt[fd := open_entry n idx (fdt ! fd)]) (int fd) = Inr (open_entry n idx (fdt ! fd))"
proof -
  have "fd < length fdt" using first_available_Some [OF assms(1,2)] by simp
  then show ?thesis using fd_strlen_open_short [OF assms(3,4)] assms(4)
    by (simp add: open_fd_def fd_get_def open_entry_def)
qed

lemma fs_create_open:
  assumes st: "mounted s" "root_direct s = Some dir" "dir_wf dir" "fd_table s = Some fdt" "fdt_wf fdt"
    and n: "NUL \<notin> set n" "length n < FS_FILENAME_LEN" and new: "\<forall>e\<in>set dir. entry_name e \<noteq> Some n"
    and j: "first_empty dir = Some j" and fd: "first_available fdt = Some fd"
  shows "\<exists>s1. fs_create n s = (Inr 0, s1) \<and>
           fs_open n s1 = (Inr (int fd), s\<lparr>root_direct := Some (dir[j := create_entry n (dir ! j)]),
                                            fd_table := Some (fdt[fd := open_entry n (int j) (fdt ! fd)])\<rparr>)"
proof -
  let ?dir1 = "dir[j := create_entry n (dir ! j)]"
  let ?s1 = "s\<lparr>root_direct := Some ?dir1\<rparr>"
  have jl: "j < length dir" using j by (auto simp: first_empty_def find_Some_iff)
  have ej: "entry_wf (dir ! j)" using st(3) jl by (simp add: dir_wf_def list_all_length)
  have "set (scanned dir) \<subseteq> set dir" by (simp add: scanned_prefix set_take_subset)
  then have fr: "\<not> (\<exists>e\<in>set (scanned dir). entry_name e = Some n)" using new by blast
  have c: "fs_create n s = (Inr 0, ?s1)" using fs_create_spec [OF st(1-3)] n(2) fr j by simp
  have wf1: "dir_wf ?dir1" using st(3) jl create_entry_wf [OF ej] n(2)
    by (simp add: dir_wf_def list_all_length nth_list_update)
  have "entry_name (?dir1 ! j) = Some n" using create_entry_name [OF ej n(1)] n(2) jl by simp
  moreover have "\<forall>i<length ?dir1. i \<noteq> j \<longrightarrow> entry_name (?dir1 ! i) \<noteq> Some n" using new by simp
  ultimately have m: "matching n ?dir1 = [j]" using jl by (intro matching_single) simp_all
  have "fs_open n ?s1 = (Inr (int fd), ?s1\<lparr>fd_table := Some (fdt[fd := open_entry n (int j) (fdt ! fd)])\<rparr>)"
    using fs_open_spec [of ?s1 ?dir1 fdt n] st(1,4,5) wf1 m fd n(2) by simp
  then show ?thesis using c by simp
qed

subsection \<open>The first write to a file without blocks\<close>

lemma fs_write_first:
  assumes st: "mounted s" "fd_table s = Some fdt" "open_fd fdt fd = Inr f" "fd < int FS_OPEN_MAX_COUNT"
      "root_direct s = Some dir" "0 \<le> fd_file_index f" "nat (fd_file_index f) < length dir"
      "super_block s = Some sb" "fat s = Some ft"
    and e: "e = dir ! nat (fd_file_index f)" "file_index e = FAT_EOC"
    and lay: "file_ok sb ft (disk s) FAT_EOC []"
    and free: "(fd_offset f + count - 1) div BLOCK_SIZE < free_count (unat (num_data_blocks sb)) ft"
    and pos: "fd_offset f < BLOCK_SIZE"
    and safe: "count < BLOCK_SIZE \<longrightarrow> fd_offset f mod BLOCK_SIZE + count \<le> BLOCK_SIZE"
    and bnd: "0 < count" "fd_offset f + count < 2 ^ 31" "count < 65536" "count \<le> length data"
    and sz: "sint (file_size e) + int count \<le> 2147483647"
  shows "\<exists>ft' d' cs e'. fs_write fd (Some data) count s =
           (Inr (int count), s\<lparr>fat := Some ft', disk := d', root_direct := Some (dir[nat (fd_file_index f) := e']),
              fd_table := Some (fdt[nat fd := f\<lparr>fd_offset := fd_offset f + count\<rparr>])\<rparr>) \<and>
         e' = e\<lparr>file_index := file_index e', file_size := word_of_int (sint (file_size e) + int count)\<rparr> \<and>
         file_index e' \<noteq> FAT_EOC \<and> file_ok sb ft' d' (file_index e') cs \<and>
         free_count (unat (num_data_blocks sb)) ft' + length cs = free_count (unat (num_data_blocks sb)) ft \<and>
         dk_name d' = dk_name (disk s) \<and> length (dk_blocks d') = length (dk_blocks (disk s)) \<and>
         (\<forall>i. i \<notin> (\<lambda>b. b + unat (data_block_index sb)) ` set cs \<longrightarrow> dk_blocks d' ! i = dk_blocks (disk s) ! i) \<and>
         file_bytes (dk_blocks d') (unat (data_block_index sb)) cs =
           patch (file_bytes (dk_blocks (disk s)) (unat (data_block_index sb)) cs) (fd_offset f) (take count data) \<and>
         fd_offset f + count \<le> BLOCK_SIZE * length cs"
proof -
  let ?nd = "unat (num_data_blocks sb)"
  have l: "ft ! 0 \<noteq> 0" "?nd \<le> length ft" "?nd < 65535" "dk_open (disk s)"
    "unat (data_block_index sb) + ?nd \<le> length (dk_blocks (disk s))" "\<forall>x\<in>set (dk_blocks (disk s)). length x = BLOCK_SIZE"
    using lay unfolding file_ok_def by blast+
  obtain fa where fa: "first_free ?nd ft = Some fa" using first_free_exists free by (metis gr_implies_not0 neq0_conv)
  have fap: "fa < ?nd" "ft ! fa = 0" using first_free_Some [OF fa] by simp_all
  have fa0: "fa \<noteq> 0" using fap(2) l(1) by (cases "fa = 0") auto
  let ?ft1 = "ft[fa := FAT_EOC]"
  let ?e1 = "e\<lparr>file_index := word_of_nat fa\<rparr>"
  have fb: "first_block sb ft e = Inr (?ft1, ?e1)" and ch: "fat_chain ?ft1 (word_of_nat fa) [fa]"
    using first_block_new [OF e(2) l(2) fa l(3)] by simp_all
  have ok1: "file_ok sb ?ft1 (disk s) (file_index ?e1) [fa]"
    using ch fap l fa0 by (simp add: file_ok_def FAT_EOC_def)
  have fc1: "free_count ?nd ?ft1 = free_count ?nd ft - 1"
    using fap l(2) by (intro free_count_alloc) (simp_all add: FAT_EOC_def)
  have free1: "(fd_offset f + count - 1) div BLOCK_SIZE < length [fa] + free_count ?nd ?ft1" using free fc1 by simp
  have pos1: "fd_offset f div BLOCK_SIZE < length [fa]" using pos by simp
  have sz1: "sint (file_size ?e1) + int count \<le> 2147483647" using sz by simp
  obtain ft' d' ns where w: "fs_write fd (Some data) count s =
           (Inr (int count), s\<lparr>fat := Some ft', disk := d',
              root_direct := Some (dir[nat (fd_file_index f) := ?e1\<lparr>file_size := word_of_int (sint (file_size ?e1) + int count)\<rparr>]),
              fd_table := Some (fdt[nat fd := f\<lparr>fd_offset := fd_offset f + count\<rparr>])\<rparr>)"
    and r: "file_ok sb ft' d' (file_index ?e1) ([fa] @ ns)"
      "free_count ?nd ft' + length ns = free_count ?nd ?ft1"
      "dk_name d' = dk_name (disk s)" "length (dk_blocks d') = length (dk_blocks (disk s))"
      "\<forall>i. i \<notin> (\<lambda>b. b + unat (data_block_index sb)) ` set ([fa] @ ns) \<longrightarrow> dk_blocks d' ! i = dk_blocks (disk s) ! i"
      "file_bytes (dk_blocks d') (unat (data_block_index sb)) ([fa] @ ns) =
         patch (file_bytes (dk_blocks (disk s)) (unat (data_block_index sb)) ([fa] @ ns)) (fd_offset f) (take count data)"
      "fd_offset f + count \<le> BLOCK_SIZE * length ([fa] @ ns)"
    using fs_write_ok [OF st e(1) fb ok1 free1 pos1 safe bnd sz1] by blast
  have ne: "(word_of_nat fa :: u16) \<noteq> FAT_EOC" using fap(1) l(3) by (intro word_of_nat_not_EOC) simp
  have "free_count ?nd ft' + length ([fa] @ ns) = free_count ?nd ft" using r(2) fc1 free by simp
  then show ?thesis using w r ne
    by (intro exI [of _ ft'] exI [of _ d'] exI [of _ "[fa] @ ns"]
        exI [of _ "?e1\<lparr>file_size := word_of_int (sint (file_size ?e1) + int count)\<rparr>"]) simp
qed

lemma file_ok_bytes_length:
  "file_ok sb ft d first cs \<Longrightarrow>
   length (file_bytes (dk_blocks d) (unat (data_block_index sb)) cs) = BLOCK_SIZE * length cs"
  unfolding file_ok_def by (intro length_file_bytes_in) auto

lemma take_patch:
  "a + length ys \<le> length xs \<Longrightarrow> take (a + length ys) (patch xs a ys) = take a xs @ ys"
  by (simp add: patch_def)

subsection \<open>Reading a file back from its start\<close>

lemma fs_reread:
  assumes st: "mounted s" "fd_table s = Some fdt" "open_fd fdt fd = Inr f" "root_direct s = Some dir"
      "0 \<le> fd_file_index f" "nat (fd_file_index f) < length dir" "super_block s = Some sb" "fat s = Some ft"
    and e: "e = dir ! nat (fd_file_index f)" and ok: "file_ok sb ft (disk s) (file_index e) cs"
    and nul: "NUL \<in> set (fd_file_name f)"
    and sz: "unat (file_size e) \<le> BLOCK_SIZE * length cs" "unat (file_size e) < 2 ^ 31" "count < 2 ^ 31"
    and dst: "min count (unat (file_size e)) \<le> length dst"
  shows "fs_lseek fd 0 s = (Inr 0, s\<lparr>fd_table := Some (fdt[nat fd := f\<lparr>fd_offset := 0\<rparr>])\<rparr>) \<and>
         fs_read fd (Some dst) count (s\<lparr>fd_table := Some (fdt[nat fd := f\<lparr>fd_offset := 0\<rparr>])\<rparr>) =
           (Inr (int (min count (unat (file_size e))),
                 patch dst 0 (take (min count (unat (file_size e)))
                   (file_bytes (dk_blocks (disk s)) (unat (data_block_index sb)) cs))),
            s\<lparr>fd_table := Some (fdt[nat fd := f\<lparr>fd_offset := min count (unat (file_size e))\<rparr>])\<rparr>)"
proof -
  let ?s1 = "s\<lparr>fd_table := Some (fdt[nat fd := f\<lparr>fd_offset := 0\<rparr>])\<rparr>"
  let ?n = "min count (unat (file_size e))"
  have "0 \<le> sint (file_size e)" using sint_small [OF sz(2)] by simp
  then have ls: "fs_lseek fd 0 s = (Inr 0, ?s1)"
    using fs_lseek_open [OF st(1-6), of 0] e by (simp add: c_int_def)
  have o: "open_fd (fdt[nat fd := f\<lparr>fd_offset := 0\<rparr>]) fd = Inr (f\<lparr>fd_offset := 0\<rparr>)"
    using open_fd_offset [OF st(3) nul] .
  have "fs_read fd (Some dst) count ?s1 =
          (Inr (int ?n, patch dst 0 (take ?n (drop (fd_offset (f\<lparr>fd_offset := 0\<rparr>))
                (file_bytes (dk_blocks (disk ?s1)) (unat (data_block_index sb)) cs)))),
           ?s1\<lparr>fd_table := Some ((fdt[nat fd := f\<lparr>fd_offset := 0\<rparr>])[nat fd :=
                 f\<lparr>fd_offset := 0\<rparr>\<lparr>fd_offset := fd_offset (f\<lparr>fd_offset := 0\<rparr>) + ?n\<rparr>])\<rparr>)"
    using st e sz dst file_ok_env [OF ok]
    by (intro fs_read_chain [where dir = dir and sb = sb and ft = ft and e = e, OF _ _ o]) simp_all
  then show ?thesis using ls by simp
qed

subsection \<open>Create, open and the first write\<close>

lemma fs_session_first_write:
  assumes st: "mounted s" "root_direct s = Some dir" "dir_wf dir" "fd_table s = Some fdt" "fdt_wf fdt"
      "super_block s = Some sb" "fat s = Some ft"
    and n: "NUL \<notin> set n" "length n < FS_FILENAME_LEN" and new: "\<forall>e\<in>set dir. entry_name e \<noteq> Some n"
    and j: "first_empty dir = Some j" and fd: "first_available fdt = Some fd"
    and lay: "file_ok sb ft (disk s) FAT_EOC []"
    and free: "(count - 1) div BLOCK_SIZE < free_count (unat (num_data_blocks sb)) ft"
    and bnd: "0 < count" "count < 65536" "count \<le> length data"
  shows "\<exists>s1 s2 f e ft' d' cs. fs_create n s = (Inr 0, s1) \<and> fs_open n s1 = (Inr (int fd), s2) \<and>
      fs_write (int fd) (Some data) count s2 =
        (Inr (int count), s\<lparr>fat := Some ft', disk := d', root_direct := Some (dir[j := e]),
                              fd_table := Some (fdt[fd := f])\<rparr>) \<and>
      j < length dir \<and> fd < length fdt \<and> open_fd (fdt[fd := f]) (int fd) = Inr f \<and> fd_file_index f = int j \<and>
      fd_offset f = count \<and> NUL \<in> set (fd_file_name f) \<and>
      file_size e = word_of_nat count \<and> file_index e \<noteq> FAT_EOC \<and> file_ok sb ft' d' (file_index e) cs \<and>
      free_count (unat (num_data_blocks sb)) ft' + length cs = free_count (unat (num_data_blocks sb)) ft \<and>
      count \<le> BLOCK_SIZE * length cs \<and>
      take count (file_bytes (dk_blocks d') (unat (data_block_index sb)) cs) = take count data"
proof -
  let ?e0 = "create_entry n (dir ! j)"
  let ?f0 = "open_entry n (int j) (fdt ! fd)"
  let ?dir1 = "dir[j := ?e0]"
  let ?fdt1 = "fdt[fd := ?f0]"
  let ?s2 = "s\<lparr>root_direct := Some ?dir1, fd_table := Some ?fdt1\<rparr>"
  obtain s1 where co: "fs_create n s = (Inr 0, s1)" "fs_open n s1 = (Inr (int fd), ?s2)"
    using fs_create_open [OF st(1-5) n new j fd] by blast
  have jl: "j < length dir" using j by (auto simp: first_empty_def find_Some_iff)
  have fdl: "fd < length fdt" using first_available_Some [OF st(5) fd] by simp
  have o: "open_fd ?fdt1 (int fd) = Inr ?f0" using open_fd_open_entry [OF st(5) fd n] .
  have nul: "NUL \<in> set (fd_file_name ?f0)" using strcpy_field_NUL [OF n(2)] by (simp add: open_entry_def)
  have lim: "int fd < int FS_OPEN_MAX_COUNT" using fdl st(5) by (simp add: fdt_wf_def)
  have h: "mounted ?s2" "fd_table ?s2 = Some ?fdt1" "root_direct ?s2 = Some ?dir1" "0 \<le> fd_file_index ?f0"
    "nat (fd_file_index ?f0) < length ?dir1" "super_block ?s2 = Some sb" "fat ?s2 = Some ft"
    "?e0 = ?dir1 ! nat (fd_file_index ?f0)" "file_index ?e0 = FAT_EOC" "file_ok sb ft (disk ?s2) FAT_EOC []"
    "(fd_offset ?f0 + count - 1) div BLOCK_SIZE < free_count (unat (num_data_blocks sb)) ft"
    "fd_offset ?f0 < BLOCK_SIZE" "count < BLOCK_SIZE \<longrightarrow> fd_offset ?f0 mod BLOCK_SIZE + count \<le> BLOCK_SIZE"
    "fd_offset ?f0 + count < 2 ^ 31" "sint (file_size ?e0) + int count \<le> 2147483647"
    using st jl lay free bnd by (simp_all add: open_entry_def create_entry_def BLOCK_SIZE_def)
  obtain ft' d' cs e' where w: "fs_write (int fd) (Some data) count ?s2 =
           (Inr (int count), ?s2\<lparr>fat := Some ft', disk := d', root_direct := Some (?dir1[nat (fd_file_index ?f0) := e']),
              fd_table := Some (?fdt1[nat (int fd) := ?f0\<lparr>fd_offset := fd_offset ?f0 + count\<rparr>])\<rparr>)"
    and r: "e' = ?e0\<lparr>file_index := file_index e', file_size := word_of_int (sint (file_size ?e0) + int count)\<rparr>"
      "file_index e' \<noteq> FAT_EOC" "file_ok sb ft' d' (file_index e') cs"
      "free_count (unat (num_data_blocks sb)) ft' + length cs = free_count (unat (num_data_blocks sb)) ft"
      "file_bytes (dk_blocks d') (unat (data_block_index sb)) cs =
         patch (file_bytes (dk_blocks (disk ?s2)) (unat (data_block_index sb)) cs) (fd_offset ?f0) (take count data)"
      "fd_offset ?f0 + count \<le> BLOCK_SIZE * length cs"
    using fs_write_first [OF h(1,2) o lim h(3-13) bnd(1) h(14) bnd(2,3) h(15)] by blast
  have oo: "open_fd (fdt[fd := ?f0\<lparr>fd_offset := count\<rparr>]) (int fd) = Inr (?f0\<lparr>fd_offset := count\<rparr>)"
    using open_fd_offset [OF o nul, of count] by simp
  have "length (file_bytes (dk_blocks (disk s)) (unat (data_block_index sb)) cs) = BLOCK_SIZE * length cs"
    using r(3) lay unfolding file_ok_def by (intro length_file_bytes_in) auto
  then have tk: "take count (file_bytes (dk_blocks d') (unat (data_block_index sb)) cs) = take count data"
    using r(5,6) bnd(3) take_patch [of 0 "take count data"] by (simp add: open_entry_def min_absorb2)
  have fs: "file_size e' = word_of_nat count" using arg_cong [OF r(1), of file_size] by (simp add: create_entry_def)
  show ?thesis
    using co w r(2-4,6) jl fdl oo nul tk fs
    by (intro exI [of _ s1] exI [of _ ?s2] exI [of _ "?f0\<lparr>fd_offset := count\<rparr>"] exI [of _ e'] exI [of _ ft']
        exI [of _ d'] exI [of _ cs]) (simp add: open_entry_def)
qed

end
