(* ===== verification/Mount.thy ===== *)
theory Mount
  imports FS_State
begin

text \<open>
  The metadata store: \<open>fs_mount\<close> (fs.c 57--100), \<open>fs_umount\<close> (102--136) and
  \<open>fs_info\<close> (138--163).  The in-memory structs are copied to and from blocks byte for
  byte (\<open>block_read(0, super_block)\<close>, \<open>block_write(i, (void*)fat + (i-1) * BLOCK_SIZE)\<close>),
  so the model has a decoder and an encoder per region: the packed superblock
  (\<open>sb_of_block\<close>, \<open>block_of_sb\<close>), the FAT as consecutive little-endian
  \<open>uint16_t\<close> (\<open>fat_of_bytes\<close>, \<open>fat_bytes\<close>) and the root directory as 128 packed
  32-byte entries (\<open>dir_of_block\<close>, \<open>block_of_dir\<close>).

  \<open>malloc\<close> returns uninitialised memory: \<open>fs_mount\<close> sets \<open>super_block\<close> to a fresh
  allocation before anything can fail, so the superblock is \<open>None\<close> until block 0 is
  read; the descriptor table it allocates (\<open>sizeof(struct fd_table_t)\<close>, exactly
  \<open>FS_OPEN_MAX_COUNT\<close> entries) keeps whatever the allocator returned except for the
  \<open>available\<close> flags, so that content is a parameter \<open>fresh\<close> of the model, entry \<open>i\<close>
  being \<open>fresh i\<close> (\<open>mount_fd_table\<close>).
  A FAT or directory buffer whose reading failed half-way is treated as uninitialised.
\<close>

section \<open>Definitions\<close>

subsection \<open>On-disk codec\<close>

definition char_byte :: "char \<Rightarrow> u8" where
  "char_byte c = word_of_nat (of_char c)"

text \<open>\<open>struct super_block_t\<close>: an 8-byte signature, four \<open>uint16_t\<close>, one \<open>uint8_t\<close>
  and 4079 bytes of padding.\<close>

definition sb_of_block :: "block \<Rightarrow> super_block" where
  "sb_of_block b =
     \<lparr>signature = map byte_char (take 8 b),
      total_blocks = word_of_nat (le_val (take 2 (drop 8 b))),
      root_direct_index = word_of_nat (le_val (take 2 (drop 10 b))),
      data_block_index = word_of_nat (le_val (take 2 (drop 12 b))),
      num_data_blocks = word_of_nat (le_val (take 2 (drop 14 b))),
      num_fat_blocks = word_of_nat (le_val (take 1 (drop 16 b))),
      sb_padding = drop 17 b\<rparr>"

definition block_of_sb :: "super_block \<Rightarrow> block" where
  "block_of_sb sb =
     map char_byte (signature sb) @ le_bytes 2 (unat (total_blocks sb)) @
     le_bytes 2 (unat (root_direct_index sb)) @ le_bytes 2 (unat (data_block_index sb)) @
     le_bytes 2 (unat (num_data_blocks sb)) @ le_bytes 1 (unat (num_fat_blocks sb)) @ sb_padding sb"

text \<open>The FAT array, \<open>struct fat_blocks_t\<close> being one \<open>uint16_t\<close>.\<close>

fun fat_of_bytes :: "u8 list \<Rightarrow> u16 list" where
  "fat_of_bytes (a # b # rest) = word_of_nat (le_val [a, b]) # fat_of_bytes rest"
| "fat_of_bytes _ = []"

definition fat_bytes :: "u16 list \<Rightarrow> u8 list" where
  "fat_bytes ft = concat (map (\<lambda>v. le_bytes 2 (unat v)) ft)"

text \<open>The \<open>BLOCK_SIZE\<close> bytes at \<open>(void*)fat + j * BLOCK_SIZE\<close>, for the blocks
  \<open>j = 0 .. n - 1\<close>.\<close>

definition fat_chunks :: "nat \<Rightarrow> u16 list \<Rightarrow> block list" where
  "fat_chunks n ft = map (\<lambda>j. take BLOCK_SIZE (drop (j * BLOCK_SIZE) (fat_bytes ft))) [0..<n]"

text \<open>\<open>struct file\<close>: 16 name bytes, a \<open>uint32_t\<close> size, a \<open>uint16_t\<close> first block and
  10 bytes of padding.\<close>

definition entry_of_bytes :: "u8 list \<Rightarrow> file_entry" where
  "entry_of_bytes bs =
     \<lparr>file_name = map byte_char (take 16 bs),
      file_size = word_of_nat (le_val (take 4 (drop 16 bs))),
      file_index = word_of_nat (le_val (take 2 (drop 20 bs))),
      file_padding = take 10 (drop 22 bs)\<rparr>"

definition entry_raw :: "file_entry \<Rightarrow> u8 list" where
  "entry_raw e = map char_byte (file_name e) @ le_bytes 4 (unat (file_size e)) @
     le_bytes 2 (unat (file_index e)) @ file_padding e"

definition dir_of_block :: "block \<Rightarrow> file_entry list" where
  "dir_of_block b = map (\<lambda>i. entry_of_bytes (take 32 (drop (32 * i) b))) [0..<FS_FILE_MAX_COUNT]"

definition block_of_dir :: "file_entry list \<Rightarrow> block" where
  "block_of_dir dir = concat (map entry_raw dir)"

subsection \<open>fs_mount\<close>

text \<open>The loop at fs.c 81--85: blocks \<open>i, i + 1, ...\<close>, \<open>k\<close> of them; the first failing
  \<open>block_read\<close> ends it.\<close>

fun read_blocks :: "disk \<Rightarrow> nat \<Rightarrow> nat \<Rightarrow> block list option" where
  "read_blocks d i 0 = Some []"
| "read_blocks d i (Suc k) =
     (case block_read i d of
        None \<Rightarrow> None
      | Some b \<Rightarrow> map_option (Cons b) (read_blocks d (Suc i) k))"

text \<open>fs.c 91--95: the malloc'd table of \<open>FS_OPEN_MAX_COUNT\<close> entries, each marked available.\<close>

definition mount_fd_table :: "(nat \<Rightarrow> fd_entry) \<Rightarrow> fd_entry list" where
  "mount_fd_table fresh = map (\<lambda>i. (fresh i)\<lparr>fd_available := True\<rparr>) [0..<FS_OPEN_MAX_COUNT]"

definition fs_mount :: "string \<Rightarrow> (nat \<Rightarrow> fd_entry) \<Rightarrow> fs_state \<Rightarrow> (fs_error + int) \<times> fs_state" where
  "fs_mount diskname fresh s =
     (let s0 = s\<lparr>super_block := None\<rparr> in
      case block_disk_open diskname (disk s) of
        None \<Rightarrow> (Inl IOFailure, s0)
      | Some d \<Rightarrow>
          (let s1 = s0\<lparr>disk := d\<rparr> in
           case block_read 0 d of
             None \<Rightarrow> (Inl IOFailure, s1)
           | Some b0 \<Rightarrow>
               (let sb = sb_of_block b0; s2 = s1\<lparr>super_block := Some sb\<rparr> in
                if signature sb \<noteq> ''ECS150FS'' then (Inl BadSignature, s2)
                else if int (unat (total_blocks sb)) \<noteq> block_disk_count d then (Inl BadBlockCount, s2)
                else case read_blocks d 1 (unat (num_fat_blocks sb)) of
                  None \<Rightarrow> (Inl IOFailure, s2\<lparr>fat := None\<rparr>)
                | Some fbs \<Rightarrow>
                    (let s3 = s2\<lparr>fat := Some (fat_of_bytes (concat fbs))\<rparr> in
                     case block_read (unat (root_direct_index sb)) d of
                       None \<Rightarrow> (Inl IOFailure, s3\<lparr>root_direct := None\<rparr>)
                     | Some rb \<Rightarrow>
                         (Inr 0, s3\<lparr>root_direct := Some (dir_of_block rb),
                                    fd_table := Some (mount_fd_table fresh),
                                    mounted := True\<rparr>)))))"

subsection \<open>fs_umount\<close>

text \<open>The loop at fs.c 112--116: writes \<open>bs\<close> to the blocks \<open>i, i + 1, ...\<close>; the first
  failing \<open>block_write\<close> ends it, with the earlier writes done.\<close>

fun write_seq :: "nat \<Rightarrow> block list \<Rightarrow> disk \<Rightarrow> bool \<times> disk" where
  "write_seq i [] d = (True, d)"
| "write_seq i (b # bs) d =
     (case block_write i b d of
        None \<Rightarrow> (False, d)
      | Some d' \<Rightarrow> write_seq (Suc i) bs d')"

definition fs_umount :: "fs_state \<Rightarrow> (fs_error + int) \<times> fs_state" where
  "fs_umount s =
     (if \<not> mounted s then (Inl NotMounted, s)
      else case super_block s of
        None \<Rightarrow> (Inl (Undefined UninitialisedRead), s)
      | Some sb \<Rightarrow>
          (case block_write 0 (block_of_sb sb) (disk s) of
             None \<Rightarrow> (Inl IOFailure, s)
           | Some d1 \<Rightarrow>
               (case fat s of
                  None \<Rightarrow> (Inl (Undefined UninitialisedRead), s\<lparr>disk := d1\<rparr>)
                | Some ft \<Rightarrow>
                    if length (fat_bytes ft) < unat (num_fat_blocks sb) * BLOCK_SIZE
                    then (Inl (Undefined BufferOverrun), s\<lparr>disk := d1\<rparr>)
                    else
                      (case write_seq 1 (fat_chunks (unat (num_fat_blocks sb)) ft) d1 of
                         (False, d2) \<Rightarrow> (Inl IOFailure, s\<lparr>disk := d2\<rparr>)
                       | (True, d2) \<Rightarrow>
                           (case root_direct s of
                              None \<Rightarrow> (Inl (Undefined UninitialisedRead), s\<lparr>disk := d2\<rparr>)
                            | Some dir \<Rightarrow>
                                if length (block_of_dir dir) < BLOCK_SIZE
                                then (Inl (Undefined BufferOverrun), s\<lparr>disk := d2\<rparr>)
                                else
                                  (case block_write (unat (root_direct_index sb)) (block_of_dir dir) d2 of
                                     None \<Rightarrow> (Inl IOFailure, s\<lparr>disk := d2\<rparr>)
                                   | Some d3 \<Rightarrow>
                                       (case fd_table s of
                                          None \<Rightarrow> (Inl (Undefined UninitialisedRead), s\<lparr>disk := d3\<rparr>)
                                        | Some fdt \<Rightarrow>
                                            if length fdt < FS_OPEN_MAX_COUNT
                                            then (Inl (Undefined FdOutOfBounds), s\<lparr>disk := d3\<rparr>)
                                            else
                                              (let s4 = s\<lparr>disk := d3, fd_table := None, super_block := None,
                                                          root_direct := None, fat := None\<rparr> in
                                               case block_disk_close d3 of
                                                 None \<Rightarrow> (Inl IOFailure, s4)
                                               | Some d4 \<Rightarrow> (Inr 0, s4\<lparr>disk := d4, mounted := False\<rparr>)))))))))"

subsection \<open>fs_info\<close>

record fs_info_t =
  info_total_blk_count :: int
  info_fat_blk_count :: int
  info_rdir_blk :: int
  info_data_blk :: int
  info_data_blk_count :: int
  info_fat_free :: int
  info_rdir_free :: int

text \<open>The loop at fs.c 143--147 over \<open>fat[i]\<close>, \<open>i\<close> from \<open>i\<close> on, \<open>k\<close> entries.\<close>

fun fat_free_scan :: "u16 list \<Rightarrow> nat \<Rightarrow> nat \<Rightarrow> fs_error + int" where
  "fat_free_scan ft i 0 = Inr 0"
| "fat_free_scan ft i (Suc k) =
     (case fat_get ft i of
        Inl err \<Rightarrow> Inl err
      | Inr v \<Rightarrow> (case fat_free_scan ft (Suc i) k of
                   Inl err \<Rightarrow> Inl err
                 | Inr n \<Rightarrow> Inr (if v = 0 then n + 1 else n)))"

text \<open>The loop at fs.c 149--152: the entries of size 0.\<close>

definition rdir_free_count :: "file_entry list \<Rightarrow> fs_error + int" where
  "rdir_free_count dir =
     (if length dir < FS_FILE_MAX_COUNT then Inl (Undefined DirOutOfBounds)
      else Inr (int (length (filter (\<lambda>e. file_size e = 0) (take FS_FILE_MAX_COUNT dir)))))"

text \<open>\<open>fs_info\<close> prints and returns 0; the model returns the printed numbers.  It does
  not test \<open>mounted\<close>.\<close>

definition fs_info :: "fs_state \<Rightarrow> fs_error + fs_info_t" where
  "fs_info s =
     (case (super_block s, fat s, root_direct s) of
        (Some sb, Some ft, Some dir) \<Rightarrow>
          (case fat_free_scan ft 0 (unat (num_data_blocks sb)) of
             Inl err \<Rightarrow> Inl err
           | Inr fat_free \<Rightarrow>
               (case rdir_free_count dir of
                  Inl err \<Rightarrow> Inl err
                | Inr rdir_free \<Rightarrow>
                    Inr \<lparr>info_total_blk_count = int (unat (total_blocks sb)),
                         info_fat_blk_count = int (unat (num_fat_blocks sb)),
                         info_rdir_blk = int (unat (root_direct_index sb)),
                         info_data_blk = int (unat (data_block_index sb)),
                         info_data_blk_count = int (unat (num_data_blocks sb)),
                         info_fat_free = fat_free, info_rdir_free = rdir_free\<rparr>))
      | _ \<Rightarrow> Inl (Undefined UninitialisedRead))"

section \<open>Lemmas\<close>

lemma byte_char_char_byte [simp]: "byte_char (char_byte c) = c"
  by (simp add: byte_char_def char_byte_def unsigned_of_nat char_of_take_bit_eq)

lemma map_byte_char_char_byte [simp]: "map byte_char (map char_byte cs) = cs"
  by (induction cs) simp_all


lemma length_block_of_sb:
  "length (signature sb) = 8 \<Longrightarrow> length (sb_padding sb) = 4079 \<Longrightarrow> length (block_of_sb sb) = BLOCK_SIZE"
  by (simp add: block_of_sb_def BLOCK_SIZE_def)

lemma sb_of_block_of_sb:
  assumes "length (signature sb) = 8"
  shows "sb_of_block (block_of_sb sb) = sb"
  using assms by (simp add: sb_of_block_def block_of_sb_def le_val_le_bytes_u16 comp_def)


lemma length_entry_raw: "entry_wf e \<Longrightarrow> length (entry_raw e) = 32"
  by (simp add: entry_raw_def entry_wf_def FS_FILENAME_LEN_def)

lemma entry_of_bytes_raw: "entry_wf e \<Longrightarrow> entry_of_bytes (entry_raw e) = e"
  by (simp add: entry_of_bytes_def entry_raw_def entry_wf_def FS_FILENAME_LEN_def comp_def
      le_val_le_bytes_u16 le_val_le_bytes_u32)

lemma length_block_of_dir: "dir_wf dir \<Longrightarrow> length (block_of_dir dir) = BLOCK_SIZE"
proof -
  assume "dir_wf dir"
  then have "\<forall>x\<in>set (map entry_raw dir). length x = 32" "length dir = 128"
    by (auto simp: dir_wf_def list_all_iff length_entry_raw FS_FILE_MAX_COUNT_def)
  then show ?thesis unfolding block_of_dir_def by (subst length_concat_const) (simp_all add: BLOCK_SIZE_def)
qed

lemma dir_of_block_of_dir: "dir_wf dir \<Longrightarrow> dir_of_block (block_of_dir dir) = dir"
proof -
  assume wf: "dir_wf dir"
  then have l: "\<forall>x\<in>set (map entry_raw dir). length x = 32" and n: "length dir = FS_FILE_MAX_COUNT"
    and e: "\<forall>e\<in>set dir. entry_wf e"
    by (auto simp: dir_wf_def list_all_iff length_entry_raw)
  have "take 32 (drop (32 * i) (block_of_dir dir)) = entry_raw (dir ! i)" if "i < length dir" for i
    using take_drop_concat [OF l] that by (simp add: block_of_dir_def)
  then have "dir_of_block (block_of_dir dir) = map (\<lambda>i. dir ! i) [0..<length dir]"
    using n e by (simp add: dir_of_block_def entry_of_bytes_raw)
  then show ?thesis by (simp add: map_nth)
qed

lemma fat_of_bytes_fat_bytes: "fat_of_bytes (fat_bytes ft) = ft"
proof (induction ft)
  case (Cons v vs)
  have e: "le_bytes 2 (unat v) = [of_nat (unat v mod 256), of_nat (unat v div 256 mod 256)]"
    by (simp add: le_bytes_numeral)
  have "le_val [of_nat (unat v mod 256), of_nat (unat v div 256 mod 256)] = unat v"
    unfolding e [symmetric] by (rule le_val_le_bytes_u16)
  then show ?case using Cons by (simp add: fat_bytes_def e)
qed (simp add: fat_bytes_def)

lemma length_fat_bytes: "length (fat_bytes ft) = 2 * length ft"
  by (induction ft) (simp_all add: fat_bytes_def)


lemma write_seq_ok:
  assumes "dk_open d" and "i + length bs \<le> length (dk_blocks d)"
  shows "\<exists>d'. write_seq i bs d = (True, d') \<and> dk_open d' \<and> dk_name d' = dk_name d \<and>
           length (dk_blocks d') = length (dk_blocks d) \<and>
           (\<forall>p. dk_blocks d' ! p = (if i \<le> p \<and> p < i + length bs then take BLOCK_SIZE (bs ! (p - i))
                                   else dk_blocks d ! p))"
  using assms
proof (induction bs arbitrary: i d)
  case Nil
  then show ?case by auto
next
  case (Cons b bs)
  let ?d1 = "d\<lparr>dk_blocks := (dk_blocks d)[i := take BLOCK_SIZE b]\<rparr>"
  have w: "block_write i b d = Some ?d1" using Cons.prems by (simp add: block_write_def)
  have "\<exists>d'. write_seq (Suc i) bs ?d1 = (True, d') \<and> dk_open d' \<and> dk_name d' = dk_name ?d1 \<and>
           length (dk_blocks d') = length (dk_blocks ?d1) \<and>
           (\<forall>p. dk_blocks d' ! p = (if Suc i \<le> p \<and> p < Suc i + length bs
                                   then take BLOCK_SIZE (bs ! (p - Suc i)) else dk_blocks ?d1 ! p))"
    by (rule Cons.IH) (use Cons.prems in simp_all)
  then obtain d' where r: "write_seq (Suc i) bs ?d1 = (True, d')" and o: "dk_open d'" "dk_name d' = dk_name d"
    "length (dk_blocks d') = length (dk_blocks d)"
    and nth: "\<forall>p. dk_blocks d' ! p = (if Suc i \<le> p \<and> p < Suc i + length bs
                                   then take BLOCK_SIZE (bs ! (p - Suc i)) else (dk_blocks d)[i := take BLOCK_SIZE b] ! p)"
    by auto
  have "\<forall>p. dk_blocks d' ! p = (if i \<le> p \<and> p < i + length (b # bs) then take BLOCK_SIZE ((b # bs) ! (p - i))
                                else dk_blocks d ! p)"
  proof
    fix p
    show "dk_blocks d' ! p = (if i \<le> p \<and> p < i + length (b # bs) then take BLOCK_SIZE ((b # bs) ! (p - i))
                                else dk_blocks d ! p)"
      using nth Cons.prems(2) by (cases "p = i") (auto simp: nth_Cons' Suc_diff_Suc)
  qed
  then show ?case using w r o by simp
qed

lemma read_blocks_ok:
  "dk_open d \<Longrightarrow> i + k \<le> length (dk_blocks d) \<Longrightarrow>
   read_blocks d i k = Some (map (\<lambda>j. dk_blocks d ! (i + j)) [0..<k])"
proof (induction k arbitrary: i)
  case (Suc k)
  have "map (\<lambda>j. dk_blocks d ! (i + j)) [0..<Suc k] = dk_blocks d ! i # map (\<lambda>j. dk_blocks d ! (Suc i + j)) [0..<k]"
    by (simp add: upt_conv_Cons map_Suc_upt [symmetric] comp_def del: upt_Suc)
  then show ?case using Suc by (simp add: block_read_def)
qed simp


lemma length_fat_chunks [simp]: "length (fat_chunks n ft) = n"
  by (simp add: fat_chunks_def)

lemma fat_chunks_nth:
  "j < n \<Longrightarrow> fat_chunks n ft ! j = take BLOCK_SIZE (drop (j * BLOCK_SIZE) (fat_bytes ft))"
  by (simp add: fat_chunks_def)

lemma concat_fat_chunks:
  "length (fat_bytes ft) = n * BLOCK_SIZE \<Longrightarrow> concat (fat_chunks n ft) = fat_bytes ft"
  by (simp add: fat_chunks_def concat_chunks)

lemma fs_umount_ok:
  assumes st: "mounted s" "super_block s = Some sb" "fat s = Some ft" "root_direct s = Some dir"
      "fd_table s = Some fdt" "FS_OPEN_MAX_COUNT \<le> length fdt"
    and wf: "dir_wf dir" "dk_open (disk s)" "length (signature sb) = 8" "length (sb_padding sb) = 4079"
      "2 * length ft = unat (num_fat_blocks sb) * BLOCK_SIZE"
    and lay: "unat (num_fat_blocks sb) < unat (root_direct_index sb)"
      "unat (root_direct_index sb) < length (dk_blocks (disk s))"
  shows "\<exists>d'. fs_umount s = (Inr 0, s\<lparr>disk := d', fd_table := None, super_block := None, root_direct := None,
                                     fat := None, mounted := False\<rparr>) \<and>
           \<not> dk_open d' \<and> dk_name d' = dk_name (disk s) \<and> length (dk_blocks d') = length (dk_blocks (disk s)) \<and>
           (\<forall>p. dk_blocks d' ! p =
              (if p = 0 then block_of_sb sb
               else if p \<le> unat (num_fat_blocks sb) then fat_chunks (unat (num_fat_blocks sb)) ft ! (p - 1)
               else if p = unat (root_direct_index sb) then block_of_dir dir else dk_blocks (disk s) ! p))"
proof -
  let ?n = "unat (num_fat_blocks sb)"
  let ?r = "unat (root_direct_index sb)"
  let ?d1 = "disk s\<lparr>dk_blocks := (dk_blocks (disk s))[0 := block_of_sb sb]\<rparr>"
  have w1: "block_write 0 (block_of_sb sb) (disk s) = Some ?d1"
    using wf lay by (auto simp: block_write_def length_block_of_sb)
  have lb: "\<not> length (fat_bytes ft) < ?n * BLOCK_SIZE" using wf(5) by (simp add: length_fat_bytes)
  obtain d2 where w2: "write_seq 1 (fat_chunks ?n ft) ?d1 = (True, d2)" and o2: "dk_open d2"
    "dk_name d2 = dk_name (disk s)" "length (dk_blocks d2) = length (dk_blocks (disk s))"
    and n2: "\<forall>p. dk_blocks d2 ! p = (if 1 \<le> p \<and> p < 1 + ?n then take BLOCK_SIZE (fat_chunks ?n ft ! (p - 1))
                                     else dk_blocks ?d1 ! p)"
    using write_seq_ok [of ?d1 1 "fat_chunks ?n ft"] wf lay by auto
  let ?d3 = "d2\<lparr>dk_blocks := (dk_blocks d2)[?r := block_of_dir dir]\<rparr>"
  have ld: "\<not> length (block_of_dir dir) < BLOCK_SIZE" using wf(1) by (simp add: length_block_of_dir)
  have w3: "block_write ?r (block_of_dir dir) d2 = Some ?d3"
    using o2 lay wf(1) by (simp add: block_write_def length_block_of_dir)
  have c4: "block_disk_close ?d3 = Some (?d3\<lparr>dk_open := False\<rparr>)" using o2 by (simp add: block_disk_close_def)
  have ne: "dk_blocks (disk s) \<noteq> []" using lay by (cases "dk_blocks (disk s)") auto
  have tk: "take BLOCK_SIZE (fat_chunks ?n ft ! j) = fat_chunks ?n ft ! j" if "j < ?n" for j
    using that by (simp add: fat_chunks_nth)
  have "\<forall>p. dk_blocks (?d3\<lparr>dk_open := False\<rparr>) ! p =
              (if p = 0 then block_of_sb sb else if p \<le> ?n then fat_chunks ?n ft ! (p - 1)
               else if p = ?r then block_of_dir dir else dk_blocks (disk s) ! p)"
  proof
    fix p
    show "dk_blocks (?d3\<lparr>dk_open := False\<rparr>) ! p =
              (if p = 0 then block_of_sb sb else if p \<le> ?n then fat_chunks ?n ft ! (p - 1)
               else if p = ?r then block_of_dir dir else dk_blocks (disk s) ! p)"
      using n2 lay o2 ne tk [of "p - 1"] by (cases "p = 0") (auto simp: nth_list_update)
  qed
  moreover have "fs_umount s = (Inr 0, s\<lparr>disk := ?d3\<lparr>dk_open := False\<rparr>, fd_table := None, super_block := None,
                                   root_direct := None, fat := None, mounted := False\<rparr>)"
    using st w1 lb w2 ld w3 c4 unfolding fs_umount_def by (simp add: Let_def)
  ultimately show ?thesis using o2 by (intro exI [of _ "?d3\<lparr>dk_open := False\<rparr>"]) simp
qed


lemma fs_mount_ok:
  assumes d: "\<not> dk_open (disk s)" "dk_name (disk s) = name"
    and b0: "dk_blocks (disk s) ! 0 = block_of_sb sb" "signature sb = ''ECS150FS''"
      "int (unat (total_blocks sb)) = int (length (dk_blocks (disk s)))"
    and fb: "\<forall>j < unat (num_fat_blocks sb). dk_blocks (disk s) ! Suc j = fat_chunks (unat (num_fat_blocks sb)) ft ! j"
      "2 * length ft = unat (num_fat_blocks sb) * BLOCK_SIZE"
    and rd: "dk_blocks (disk s) ! unat (root_direct_index sb) = block_of_dir dir" "dir_wf dir"
      "unat (num_fat_blocks sb) < unat (root_direct_index sb)" "unat (root_direct_index sb) < length (dk_blocks (disk s))"
  shows "fs_mount name fresh s =
           (Inr 0, s\<lparr>super_block := Some sb, disk := disk s\<lparr>dk_open := True\<rparr>, fat := Some ft,
                      root_direct := Some dir, fd_table := Some (mount_fd_table fresh),
                      mounted := True\<rparr>)"
proof -
  let ?d = "disk s\<lparr>dk_open := True\<rparr>"
  let ?n = "unat (num_fat_blocks sb)"
  have op: "block_disk_open name (disk s) = Some ?d" using d by (simp add: block_disk_open_def)
  have r0: "block_read 0 ?d = Some (block_of_sb sb)" using b0 rd by (auto simp: block_read_def)
  have sig: "length (signature sb) = 8" using b0(2) by simp
  have "read_blocks ?d 1 ?n = Some (map (\<lambda>j. dk_blocks (disk s) ! (1 + j)) [0..<?n])"
    using read_blocks_ok [of ?d 1 ?n] rd by simp
  also have "map (\<lambda>j. dk_blocks (disk s) ! (1 + j)) [0..<?n] = fat_chunks ?n ft"
    using fb(1) by (intro nth_equalityI) simp_all
  finally have rf: "read_blocks ?d 1 ?n = Some (fat_chunks ?n ft)" .
  have cf: "fat_of_bytes (concat (fat_chunks ?n ft)) = ft"
    using fb(2) by (simp add: concat_fat_chunks length_fat_bytes fat_of_bytes_fat_bytes)
  have rr: "block_read (unat (root_direct_index sb)) ?d = Some (block_of_dir dir)"
    using rd by (simp add: block_read_def)
  show ?thesis
    using op r0 sig b0 rf cf rr rd(2)
    by (simp add: fs_mount_def Let_def sb_of_block_of_sb block_disk_count_def dir_of_block_of_dir)
qed

lemma fat_free_scan_count:
  "i + k \<le> length ft \<Longrightarrow> fat_free_scan ft i k = Inr (int (length (filter (\<lambda>j. ft ! j = 0) [i..<i + k])))"
proof (induction k arbitrary: i)
  case (Suc k)
  then have "fat_free_scan ft (Suc i) k = Inr (int (length (filter (\<lambda>j. ft ! j = 0) [Suc i..<Suc i + k])))" by simp
  moreover have "[i..<i + Suc k] = i # [Suc i..<Suc i + k]" by (simp add: upt_rec)
  ultimately show ?case using Suc.prems by simp
qed simp

end
