(* ===== verification/Spec2Isabelle.thy ===== *)
theory Spec2Isabelle
  imports File_Session Mount
begin

text \<open>
  \<^bold>\<open>libfs in HOL.\<close>
  A verification development of the FAT-style file system library \<open>libfs\<close>
  (\<open>src/FAT based FS/libfs/fs.c\<close>), a shallow embedding of its C code in HOL.

  \<^bold>\<open>The program.\<close> A disk image is a sequence of 4096-byte blocks: a superblock, the FAT
  (16-bit entries, \<open>0\<close> free, \<open>0xFFFF\<close> end of chain), one root-directory block of 128
  32-byte entries, then the data blocks. \<open>fs_mount\<close> reads the three metadata parts into
  malloc'd buffers, \<open>fs_umount\<close> writes them back; \<open>fs_create\<close>/\<open>fs_delete\<close>/\<open>fs_ls\<close> work on
  the root directory and the FAT; \<open>fs_open\<close>/\<open>fs_close\<close>/\<open>fs_stat\<close>/\<open>fs_lseek\<close> on a table of
  32 descriptors; \<open>fs_write\<close>/\<open>fs_read\<close> move bytes between a buffer and the data blocks of a
  file's FAT chain through a one-block bounce buffer, allocating blocks as a write grows.

  \<^bold>\<open>The model.\<close> The global variables of \<open>fs.c\<close> are the record \<open>fs_state\<close>
  (theory \<open>FS_State\<close>): \<open>super_block\<close>, \<open>fat\<close>, \<open>root_direct\<close>, \<open>fd_table\<close> are options, \<open>None\<close>
  for a NULL pointer, with \<open>mounted\<close> and the disk. Every operation is a HOL function of its C
  arguments and the state returning \<open>(fs_error + int) \<times> fs_state\<close>: \<open>Inr\<close> the C return value,
  \<open>Inl\<close> an error, where the errors \<open>Undefined ub\<close> name the undefined behaviour the C code would
  hit (an out-of-bounds index, a NULL dereference, an overflowing bounce copy). Machine integers
  are words: \<open>uint8_t\<close>/\<open>uint16_t\<close>/\<open>uint32_t\<close> are \<open>u8\<close>/\<open>u16\<close>/\<open>u32\<close>; \<open>size_t\<close> is \<open>nat\<close> with
  the wrap-around written out where the code can overflow; \<open>int\<close> results go through \<open>c_int\<close>.
  \<^item> \<open>FS_Prelude\<close>: sizes, the error type, \<open>memcpy\<close>, C strings, little-endian codecs, shared lemmas.
  \<^item> \<open>Block_Device\<close>: the disk API of \<open>disk.c\<close> (not under \<open>src/\<close>; modelled from the spec).
  \<^item> \<open>Fat\<close>: \<open>fat_get\<close>/\<open>fat_set\<close>, \<open>correct_block\<close>, \<open>first_avail_fat\<close> and the chain-freeing loop
    of \<open>fs_delete\<close> (\<open>free_chain\<close>, a \<open>partial_function (option)\<close>: a cyclic chain does not
    terminate, the value \<open>None\<close>); \<open>fat_chain\<close> relates a start index to its list of blocks.
  \<^item> \<open>FS_State\<close>: the structs \<open>superblock\<close>, \<open>file\<close>, \<open>fd\<close> as records; well-formedness.
  \<^item> \<open>Directory\<close>: \<open>fs_create\<close>, \<open>fs_delete\<close>, \<open>fs_ls\<close>.
  \<^item> \<open>Session\<close>: \<open>fs_open\<close>, \<open>fs_close\<close>, \<open>fs_stat\<close>, \<open>fs_lseek\<close>.
  \<^item> \<open>Engine\<close>: \<open>get_length\<close>, \<open>fs_write\<close> (split into \<open>write_chunk\<close>, \<open>next_block\<close>, the loop
    \<open>write_loop\<close>, \<open>first_block\<close>, \<open>write_blocks\<close>) and \<open>fs_read\<close> (\<open>read_chunk\<close>, \<open>read_loop\<close>).
    The \<open>while\<close> loops are \<open>fun\<close>s over the number of iterations left, computed from the
    count before the loop starts (\<open>iters\<close>); \<open>blocks_spanned_iters\<close> shows it is the number
    of iterations the C loop makes, so the bound is exact.
  \<^item> \<open>Write_Engine\<close>: the loop invariant of \<open>fs_write\<close> (\<open>wl_inv\<close>) and its correctness: the
    chain grows by free blocks only and the file's bytes become the old bytes patched with
    the buffer (\<open>file_bytes\<close>, \<open>patch\<close>).
  \<^item> \<open>Read_Engine\<close>: the loop invariant of \<open>fs_read\<close> (\<open>rl_inv\<close>) and the correctness of the
    whole of \<open>fs_read\<close> (\<open>fs_read_chain\<close>): it returns \<open>min count (size - offset)\<close> bytes, the
    file's bytes from the offset on.  A read of no bytes at an offset inside a block still makes
    one iteration of the C loop, which reads the block and copies nothing (\<open>read_loop_empty\<close>).
  \<^item> \<open>File_Transfer\<close>: \<open>file_ok\<close>, the layout of a file's chain that \<open>fs_write\<close> needs and
    re-establishes with the chain grown and the free count lowered by the blocks allocated
    (\<open>fs_write_ok\<close>), so that writes compose with seeks and reads.
  \<^item> \<open>Mount\<close>: the on-disk codecs (\<open>sb_of_block\<close>/\<open>block_of_sb\<close>, \<open>fat_of_bytes\<close>/\<open>fat_bytes\<close>,
    \<open>dir_of_block\<close>/\<open>block_of_dir\<close>) with their round trips, \<open>fs_mount\<close>, \<open>fs_umount\<close>, \<open>fs_info\<close>.
    The descriptor table \<open>fs_mount\<close> mallocs is built from the parameter \<open>fresh\<close>
    (\<open>mount_fd_table\<close>): its contents are whatever malloc returns, and the code sets only
    \<open>available\<close>.  The table always has \<open>FS_OPEN_MAX_COUNT\<close> entries.
  \<^item> \<open>File_Session\<close>: operations composed into sessions.  \<open>fs_create\<close> followed by
    \<open>fs_open\<close> of a new name; the first write to a file without blocks, which allocates the
    first free FAT entry as the chain's start (\<open>fs_write_first\<close>); and a seek to 0 followed
    by a read of a file laid out by \<open>file_ok\<close> (\<open>fs_reread\<close>).

  \<^bold>\<open>The properties\<close> are in this theory, C1 to C23.  Each states the contract of an
  operation for every state that meets its hypotheses.
  \<^item> C1: the write engine's correctness for a write starting inside the file's chain.
  \<^item> C2 to C5: the mount/unmount round trip, reclamation on delete, the allocator and the
    chain walk.
  \<^item> C6 to C12: creation and its errors, and the descriptors.
  \<^item> C13 and C14: the read engine, and writing followed by reading back.
  \<^item> C15 to C21: behaviours of the code that the spec forbids or does not cover:
    \<^item> C15: a short write across a block boundary;
    \<^item> C16: an overwrite grows the size;
    \<^item> C17: mounting twice;
    \<^item> C18 and C19: \<open>fs_info\<close> counts;
    \<^item> C20: deleting an open file;
    \<^item> C21: a write at the end of a full last block loses its data.
  \<^item> C22 and C23: whole sessions on a new file.  C22 is the spec's round trip; C23 is the
    concrete scenario of spec section 8.
  Each claim with hypotheses has a witness on one of the example states below.  The loops are
  \<open>fun\<close>s over the exact iteration count (see \<open>Engine\<close>), so they need no fuel; only the
  chain-freeing loop of \<open>fs_delete\<close> can diverge, and C3 shows it returns on a well-formed
  chain.

  \<^bold>\<open>Not modelled.\<close> \<open>fs_ls\<close> and \<open>fs_info\<close> print with \<open>printf\<close>; the model returns the
  printed values. \<open>disk.c\<close> (the block device) is outside \<open>src/\<close> and is modelled from the spec
  as a list of blocks. The test programs and shell of the repository are not part of the library.
\<close>

section \<open>Example states\<close>

text \<open>A small mounted file system used by the witnesses: seven blocks, four data blocks, a FAT
  whose entries 0 and 1 are used, one file \<open>a\<close> of 10 bytes in data block 1, opened on
  descriptor 0 at offset 10.\<close>


definition ex_name :: "char list" where
  "ex_name = ''a'' @ replicate 15 NUL"

definition ex_entry :: file_entry where
  "ex_entry = \<lparr>file_name = ex_name, file_size = 10, file_index = 1, file_padding = replicate 10 0\<rparr>"

definition ex_empty_entry :: file_entry where
  "ex_empty_entry = \<lparr>file_name = replicate 16 NUL, file_size = 0, file_index = FAT_EOC, file_padding = replicate 10 0\<rparr>"

definition ex_dir :: "file_entry list" where
  "ex_dir = ex_entry # replicate 127 ex_empty_entry"

definition ex_fd :: fd_entry where
  "ex_fd = \<lparr>fd_file_name = ex_name, fd_file_index = 0, fd_offset = 10, fd_available = False\<rparr>"

definition ex_free_fd :: fd_entry where
  "ex_free_fd = \<lparr>fd_file_name = replicate 16 NUL, fd_file_index = 0, fd_offset = 0, fd_available = True\<rparr>"

definition ex_fdt :: "fd_entry list" where
  "ex_fdt = ex_fd # replicate 31 ex_free_fd"

definition ex_sb :: super_block where
  "ex_sb = \<lparr>signature = ''ECS150FS'', total_blocks = 7, root_direct_index = 2, data_block_index = 3,
            num_data_blocks = 4, num_fat_blocks = 1, sb_padding = replicate 4079 0\<rparr>"

definition ex_fat :: "u16 list" where
  "ex_fat = FAT_EOC # FAT_EOC # replicate 2046 0"

definition ex_disk :: disk where
  "ex_disk = \<lparr>dk_name = ''disk'', dk_blocks = replicate 7 (replicate BLOCK_SIZE 0), dk_open = True\<rparr>"

definition ex_state :: fs_state where
  "ex_state = \<lparr>super_block = Some ex_sb, fat = Some ex_fat, root_direct = Some ex_dir,
               fd_table = Some ex_fdt, mounted = True, disk = ex_disk\<rparr>"

definition ex_full_state :: "u16 list \<Rightarrow> fs_state" where
  "ex_full_state ft = ex_state\<lparr>fat := Some ft,
     root_direct := Some (ex_dir[0 := ex_entry\<lparr>file_size := 4096\<rparr>]),
     fd_table := Some (ex_fdt[0 := ex_fd\<lparr>fd_offset := 4096\<rparr>])\<rparr>"

definition ex_blank_fat :: "u16 list" where
  "ex_blank_fat = FAT_EOC # replicate 2047 0"

definition ex_blank_state :: fs_state where
  "ex_blank_state = \<lparr>super_block = Some ex_sb, fat = Some ex_blank_fat,
     root_direct = Some (replicate 128 ex_empty_entry), fd_table = Some (replicate 32 ex_free_fd),
     mounted = True, disk = ex_disk\<rparr>"

section \<open>Properties\<close>

text \<open>Facts about the example state shared by the witnesses.\<close>

lemma ex_name_split: "ex_name = ''a'' @ NUL # replicate 14 NUL"
  by (simp add: ex_name_def numeral_eq_Suc)

lemma ex_entry_name: "entry_name ex_entry = Some ''a''"
  by (simp add: ex_entry_def entry_bytes_name_NUL ex_name_split c_str_def NUL_def)

lemma ex_entry_not_empty: "\<not> entry_empty ex_entry"
  by (simp add: entry_empty_def entry_bytes_def ex_entry_def ex_name_split NUL_def)

lemma ex_empty_entry_name: "entry_name ex_empty_entry = Some []"
  by (simp add: ex_empty_entry_def entry_bytes_name_NUL c_str_def NUL_def numeral_eq_Suc)

lemma ex_empty_entry_empty: "entry_empty ex_empty_entry"
  by (simp add: entry_empty_wf entry_wf_def ex_empty_entry_def FS_FILENAME_LEN_def)

lemma ex_dir_wf: "dir_wf ex_dir"
  by (simp add: dir_wf_def entry_wf_def ex_dir_def ex_entry_def ex_empty_entry_def ex_name_def
      FS_FILE_MAX_COUNT_def FS_FILENAME_LEN_def list_all_iff)

lemma ex_matching: "matching ''a'' ex_dir = [0]"
proof -
  have "entry_name ex_empty_entry \<noteq> Some ''a''" using ex_empty_entry_name by simp
  then show ?thesis by (simp add: ex_dir_def matching_Cons ex_entry_name matching_replicate)
qed

lemma ex_fdt_wf: "fdt_wf ex_fdt"
  by (simp add: fdt_wf_def fd_wf_def ex_fdt_def ex_fd_def ex_free_fd_def ex_name_def FS_OPEN_MAX_COUNT_def
      FS_FILENAME_LEN_def list_all_iff)

lemma ex_open: "open_fd ex_fdt 0 = Inr ex_fd"
proof -
  note nm = ex_name_split
  have "c_str (fd_name_bytes ex_fd) = Some ''a''"
    by (simp add: fd_name_bytes_def ex_fd_def nm c_str_def NUL_def)
  moreover have "\<not> fd_available ex_fd" by (simp add: ex_fd_def)
  ultimately show ?thesis by (simp add: open_fd_def fd_get_def fd_strlen_def FS_FILENAME_LEN_def ex_fdt_def)
qed

lemma ex_file_ok: "file_ok ex_sb ex_fat ex_disk 1 [1]"
  by (simp add: file_ok_def ex_fat_def ex_sb_def ex_disk_def FAT_EOC_def BLOCK_SIZE_def)

lemma ex_first_empty: "first_empty ex_dir = Some 1"
  by (simp add: ex_dir_def first_empty_Cons ex_entry_not_empty ex_empty_entry_empty numeral_eq_Suc)

lemma ex_first_available: "first_available ex_fdt = Some 1"
  by (simp add: first_available_def ex_fdt_def ex_fd_def ex_free_fd_def FS_OPEN_MAX_COUNT_def numeral_eq_Suc)

lemma ex_layout: "file_ok ex_sb ex_fat ex_disk FAT_EOC []"
  by (simp add: file_ok_def ex_fat_def ex_sb_def ex_disk_def FAT_EOC_def BLOCK_SIZE_def)

lemma ex_free_count: "free_count 4 ex_fat = 2"
  by (simp add: free_count_def ex_fat_def FAT_EOC_def upt_rec)

lemma ex_open_full: "open_fd (ex_fdt[0 := ex_fd\<lparr>fd_offset := 4096\<rparr>]) 0 = Inr (ex_fd\<lparr>fd_offset := 4096\<rparr>)"
proof -
  note nm = ex_name_split
  have "c_str (fd_name_bytes (ex_fd\<lparr>fd_offset := 4096\<rparr>)) = Some ''a''"
    by (simp add: fd_name_bytes_def ex_fd_def nm c_str_def NUL_def)
  moreover have "\<not> fd_available ex_fd" by (simp add: ex_fd_def)
  ultimately show ?thesis by (simp add: open_fd_def fd_get_def fd_strlen_def FS_FILENAME_LEN_def ex_fdt_def)
qed

lemma ex_file_ok_fat:
  assumes "take 2 ft = [FAT_EOC, FAT_EOC]" and "4 \<le> length ft"
  shows "file_ok ex_sb ft ex_disk 1 [1]"
proof -
  have "ft ! 0 = FAT_EOC" "ft ! 1 = FAT_EOC" using assms nth_take [of 0 2 ft] nth_take [of 1 2 ft] by simp_all
  then show ?thesis using assms(2) by (simp add: file_ok_def ex_sb_def ex_disk_def FAT_EOC_def BLOCK_SIZE_def)
qed

subsection \<open>The write engine\<close>

text \<open>C1: a write of \<open>count\<close> bytes at the descriptor's offset into a file that already has
  blocks linked in the FAT returns \<open>count\<close>, under these conditions:
  \<^item> the block holding the offset is already in the file's chain (\<open>pos\<close>).  This excludes a
    write at the end of a file whose last block is full; C21 shows that such a write loses
    its data.  It also excludes a file without blocks; C22 and C23 cover that case.
  \<^item> a write shorter than a block stays inside one block (\<open>safe\<close>); C15 shows the failure
    otherwise.
  \<^item> \<open>count < 65536\<close>, and there are enough free blocks for the blocks the write adds.
  Afterwards the file's chain is its old chain followed by blocks that were free.  The bytes of
  the chain on the disk are the old ones with the buffer copied in at the offset, and no other
  block or FAT entry changed.  The size grew by \<open>count\<close>, and the offset moved past the bytes
  written.\<close>

theorem fs_write_chain:
  assumes st: "mounted s" "fd_table s = Some fdt" "open_fd fdt fd = Inr f" "fd < int FS_OPEN_MAX_COUNT"
      "root_direct s = Some dir" "0 \<le> fd_file_index f" "nat (fd_file_index f) < length dir"
      "super_block s = Some sb" "fat s = Some ft"
    and e: "e = dir ! nat (fd_file_index f)" "file_index e \<noteq> FAT_EOC"
    and chain: "fat_chain ft (file_index e) bs"
    and fatok: "\<forall>b\<in>set bs. b < unat (num_data_blocks sb) \<and> ft ! b \<noteq> 0" "ft ! 0 \<noteq> 0"
      "unat (num_data_blocks sb) \<le> length ft" "unat (num_data_blocks sb) < 65535"
    and free: "(fd_offset f + count - 1) div BLOCK_SIZE < length bs + free_count (unat (num_data_blocks sb)) ft"
    and dsk: "dk_open (disk s)" "unat (data_block_index sb) + unat (num_data_blocks sb) \<le> length (dk_blocks (disk s))"
      "\<forall>x\<in>set (dk_blocks (disk s)). length x = BLOCK_SIZE"
    and pos: "fd_offset f div BLOCK_SIZE < length bs"
    and safe: "count < BLOCK_SIZE \<longrightarrow> fd_offset f mod BLOCK_SIZE + count \<le> BLOCK_SIZE"
    and bnd: "0 < count" "fd_offset f + count < 2 ^ 31" "count < 65536" "count \<le> length data"
    and sz: "sint (file_size e) + int count \<le> 2147483647"
  shows "\<exists>ft' d' ns. fs_write fd (Some data) count s =
           (Inr (int count), s\<lparr>fat := Some ft', disk := d',
              root_direct := Some (dir[nat (fd_file_index f) := e\<lparr>file_size := word_of_int (sint (file_size e) + int count)\<rparr>]),
              fd_table := Some (fdt[nat fd := f\<lparr>fd_offset := fd_offset f + count\<rparr>])\<rparr>) \<and>
         fat_chain ft' (file_index e) (bs @ ns) \<and> (\<forall>b\<in>set ns. ft ! b = 0) \<and>
         (\<forall>i. i \<notin> set (bs @ ns) \<longrightarrow> ft' ! i = ft ! i) \<and>
         (\<forall>i. i \<notin> (\<lambda>b. b + unat (data_block_index sb)) ` set (bs @ ns) \<longrightarrow> dk_blocks d' ! i = dk_blocks (disk s) ! i) \<and>
         file_bytes (dk_blocks d') (unat (data_block_index sb)) (bs @ ns) =
           patch (file_bytes (dk_blocks (disk s)) (unat (data_block_index sb)) (bs @ ns)) (fd_offset f) (take count data)"
proof -
  have fb: "first_block sb ft e = Inr (ft, e)" using e(2) by (rule first_block_chain)
  obtain w cs where wb: "write_blocks fd data count fdt f dir e sb ft s =
           (Inr (int count), s\<lparr>fat := Some (w_fat w), disk := w_disk w,
              root_direct := Some (dir[nat (fd_file_index f) := e\<lparr>file_size := word_of_int (sint (file_size e) + int count)\<rparr>]),
              fd_table := Some (fdt[nat fd := f\<lparr>fd_offset := fd_offset f + count\<rparr>])\<rparr>)"
    and inv: "wl_inv sb data (file_index e) (fd_offset f) count ft (disk s) bs w cs" and c0: "w_count w = 0"
    using write_blocks_correct [OF fb chain fatok free dsk pos safe bnd st(1-3,6,7) sz] by blast
  have wr: "fs_write fd (Some data) count s = write_blocks fd data count fdt f dir e sb ft s"
    using fs_write_blocks [OF st(1-7) bnd(1) st(8,9)] e(1) by simp
  obtain ns where ns: "cs = bs @ ns" "\<forall>b\<in>set ns. ft ! b = 0" using wl_final [OF inv c0] by blast
  show ?thesis
    apply (rule exI [of _ "w_fat w"], rule exI [of _ "w_disk w"], rule exI [of _ ns])
    using wr wb wl_final [OF inv c0] ns by simp
qed

text \<open>Witness: the 10-byte file \<open>a\<close> in data block 1, written with 5000 bytes from
  offset 10; the write takes a second block.\<close>

theorem fs_write_chain_witness:
  "\<exists>ft' d' ns. fs_write 0 (Some (replicate 5000 7)) 5000 ex_state =
           (Inr 5000, ex_state\<lparr>fat := Some ft', disk := d',
              root_direct := Some (ex_dir[0 := ex_entry\<lparr>file_size := 5010\<rparr>]),
              fd_table := Some (ex_fdt[0 := ex_fd\<lparr>fd_offset := 5010\<rparr>])\<rparr>) \<and>
         fat_chain ft' 1 ([1] @ ns) \<and> (\<forall>b\<in>set ns. ex_fat ! b = 0) \<and>
         (\<forall>i. i \<notin> set ([1] @ ns) \<longrightarrow> ft' ! i = ex_fat ! i) \<and>
         (\<forall>i. i \<notin> (\<lambda>b. b + 3) ` set ([1] @ ns) \<longrightarrow> dk_blocks d' ! i = dk_blocks ex_disk ! i) \<and>
         file_bytes (dk_blocks d') 3 ([1] @ ns) =
           patch (file_bytes (dk_blocks ex_disk) 3 ([1] @ ns)) 10 (take 5000 (replicate 5000 7))"
proof -
  note o = ex_open
  have fc: "(fd_offset ex_fd + 5000 - 1) div BLOCK_SIZE < length [1::nat] + free_count (unat (num_data_blocks ex_sb)) ex_fat"
    by (simp add: ex_fd_def ex_sb_def ex_fat_def free_count_def BLOCK_SIZE_def FAT_EOC_def upt_rec)
  have bl: "\<forall>x\<in>set (dk_blocks (disk ex_state)). length x = BLOCK_SIZE" by (simp add: ex_state_def ex_disk_def)
  have ch: "fat_chain ex_fat (file_index (ex_dir ! nat (fd_file_index ex_fd))) [1]"
    by (simp add: ex_fat_def ex_dir_def ex_entry_def ex_fd_def FAT_EOC_def)
  show ?thesis
    using fs_write_chain [of ex_state ex_fdt 0 ex_fd ex_dir ex_sb ex_fat "ex_dir ! nat (fd_file_index ex_fd)" "[1]" 5000
      "replicate 5000 7", OF _ _ o _ _ _ _ _ _ refl _ ch _ _ _ _ fc _ _ bl]
    by (simp add: ex_state_def ex_sb_def ex_dir_def ex_entry_def ex_fd_def ex_disk_def ex_fat_def FAT_EOC_def
      BLOCK_SIZE_def FS_OPEN_MAX_COUNT_def)
qed

subsection \<open>Mount and unmount\<close>

text \<open>C2: unmounting a mounted session writes the superblock, the FAT and the root directory
  back to the disk.  Mounting the same image again then restores them exactly.  The session
  holds its descriptor table, which \<open>fs_umount\<close> marks available before freeing it.\<close>

theorem umount_mount_roundtrip:
  assumes st: "mounted s" "super_block s = Some sb" "fat s = Some ft" "root_direct s = Some dir"
      "fd_table s = Some fdt" "FS_OPEN_MAX_COUNT \<le> length fdt"
    and wf: "dir_wf dir" "dk_open (disk s)" "signature sb = ''ECS150FS''" "length (sb_padding sb) = 4079"
      "int (unat (total_blocks sb)) = int (length (dk_blocks (disk s)))"
      "2 * length ft = unat (num_fat_blocks sb) * BLOCK_SIZE"
    and lay: "unat (num_fat_blocks sb) < unat (root_direct_index sb)"
      "unat (root_direct_index sb) < length (dk_blocks (disk s))"
  shows "\<exists>s' s''. fs_umount s = (Inr 0, s') \<and> \<not> mounted s' \<and>
           fs_mount (dk_name (disk s)) fresh s' = (Inr 0, s'') \<and> mounted s'' \<and>
           super_block s'' = Some sb \<and> fat s'' = Some ft \<and> root_direct s'' = Some dir \<and>
           (\<forall>p. unat (root_direct_index sb) < p \<longrightarrow> dk_blocks (disk s'') ! p = dk_blocks (disk s) ! p)"
proof -
  have sig: "length (signature sb) = 8" using wf(3) by simp
  obtain d' where u: "fs_umount s = (Inr 0, s\<lparr>disk := d', fd_table := None, super_block := None,
                                          root_direct := None, fat := None, mounted := False\<rparr>)"
    and d': "\<not> dk_open d'" "dk_name d' = dk_name (disk s)" "length (dk_blocks d') = length (dk_blocks (disk s))"
    and nth: "\<forall>p. dk_blocks d' ! p =
              (if p = 0 then block_of_sb sb
               else if p \<le> unat (num_fat_blocks sb) then fat_chunks (unat (num_fat_blocks sb)) ft ! (p - 1)
               else if p = unat (root_direct_index sb) then block_of_dir dir else dk_blocks (disk s) ! p)"
    using fs_umount_ok [OF st wf(1,2) sig wf(4,6) lay] by blast
  let ?s' = "s\<lparr>disk := d', fd_table := None, super_block := None, root_direct := None, fat := None, mounted := False\<rparr>"
  have b0: "dk_blocks (disk ?s') ! 0 = block_of_sb sb" using nth by simp
  have fb: "\<forall>j < unat (num_fat_blocks sb). dk_blocks (disk ?s') ! Suc j = fat_chunks (unat (num_fat_blocks sb)) ft ! j"
    using nth by simp
  have rb: "dk_blocks (disk ?s') ! unat (root_direct_index sb) = block_of_dir dir" using nth lay by simp
  have m: "fs_mount (dk_name (disk s)) fresh ?s' =
           (Inr 0, ?s'\<lparr>super_block := Some sb, disk := disk ?s'\<lparr>dk_open := True\<rparr>, fat := Some ft,
                      root_direct := Some dir, fd_table := Some (mount_fd_table fresh),
                      mounted := True\<rparr>)"
    by (rule fs_mount_ok [OF _ _ b0 wf(3) _ fb wf(6) rb wf(1)]) (use d' wf(5) lay in simp_all)
  show ?thesis using u m nth lay by auto
qed

text \<open>Witness: the example file system, whose FAT fills its one FAT block.\<close>

theorem umount_mount_roundtrip_witness:
  "\<exists>s' s''. fs_umount ex_state = (Inr 0, s') \<and> \<not> mounted s' \<and>
           fs_mount ''disk'' (\<lambda>_. ex_free_fd) s' = (Inr 0, s'') \<and> mounted s'' \<and>
           super_block s'' = Some ex_sb \<and> fat s'' = Some ex_fat \<and> root_direct s'' = Some ex_dir \<and>
           (\<forall>p. 2 < p \<longrightarrow> dk_blocks (disk s'') ! p = dk_blocks (disk ex_state) ! p)"
proof -
  note wf = ex_dir_wf
  show ?thesis
    using umount_mount_roundtrip [of ex_state ex_sb ex_fat ex_dir ex_fdt "\<lambda>_. ex_free_fd", OF _ _ _ _ _ _ wf]
    by (simp add: ex_state_def ex_sb_def ex_fat_def ex_disk_def ex_fdt_def BLOCK_SIZE_def FS_OPEN_MAX_COUNT_def)
qed

subsection \<open>Deleting files\<close>

text \<open>C3: deleting a file whose blocks form a chain in the FAT frees exactly the blocks of
  that chain (so the count of free entries that \<open>fs_info\<close> reports grows by the chain's
  length), leaves every other entry of the table alone and empties the file's directory
  entry, which stays well-formed.\<close>

theorem fs_delete_reclaims:
  assumes st: "mounted s" "root_direct s = Some dir" "dir_wf dir" "length n \<le> FS_FILENAME_LEN"
      "matching n dir \<noteq> []" "fat s = Some ft"
    and ch: "fat_chain ft (file_index (dir ! last (matching n dir))) bs" and nz: "\<forall>b\<in>set bs. ft ! b \<noteq> 0"
  shows "\<exists>ft' dir'. fs_delete n s = Some (Inr 0, s\<lparr>fat := Some ft', root_direct := Some dir'\<rparr>) \<and>
           length ft' = length ft \<and> (\<forall>i < length ft. ft' ! i = (if i \<in> set bs then 0 else ft ! i)) \<and>
           (\<forall>k \<le> length ft. free_count k ft' = free_count k ft + length (filter (\<lambda>b. b < k) bs)) \<and>
           dir_wf dir' \<and> entry_empty (dir' ! last (matching n dir)) \<and>
           (\<forall>i. i \<noteq> last (matching n dir) \<longrightarrow> dir' ! i = dir ! i)"
proof -
  let ?j = "last (matching n dir)"
  let ?dir' = "dir[?j := clear_entry (dir ! ?j)]"
  have j: "?j < length dir" using matching_last [OF st(5)] by simp
  have ej: "entry_wf (dir ! ?j)" using st(3) j by (simp add: dir_wf_def list_all_length)
  have wf': "dir_wf ?dir'" using st(3) clear_entry_empty [OF ej] j
    by (simp add: dir_wf_def list_all_length nth_list_update)
  have fc: "\<forall>k \<le> length ft. free_count k (free_blocks bs ft) = free_count k ft + length (filter (\<lambda>b. b < k) bs)"
    using free_count_free_blocks [OF fat_chain_distinct [OF ch] nz] by simp
  show ?thesis
    using fs_delete_chain [OF st ch] wf' fc clear_entry_empty [OF ej] j
    by (intro exI [of _ "free_blocks bs ft"] exI [of _ ?dir']) (simp add: free_blocks_nth)
qed

text \<open>Witness: deleting the example file \<open>a\<close>, whose chain is the single block 1.\<close>

theorem fs_delete_reclaims_witness:
  "\<exists>ft' dir'. fs_delete ''a'' ex_state = Some (Inr 0, ex_state\<lparr>fat := Some ft', root_direct := Some dir'\<rparr>) \<and>
           length ft' = length ex_fat \<and> (\<forall>i < length ex_fat. ft' ! i = (if i \<in> set [1] then 0 else ex_fat ! i)) \<and>
           (\<forall>k \<le> length ex_fat. free_count k ft' = free_count k ex_fat + length (filter (\<lambda>b. b < k) [1])) \<and>
           dir_wf dir' \<and> entry_empty (dir' ! 0) \<and> (\<forall>i. i \<noteq> 0 \<longrightarrow> dir' ! i = ex_dir ! i)"
proof -
  note m = ex_matching
  note wf = ex_dir_wf
  have ch: "fat_chain ex_fat (file_index (ex_dir ! last (matching ''a'' ex_dir))) [1]"
    unfolding m by (simp add: ex_fat_def ex_dir_def ex_entry_def FAT_EOC_def)
  have nz: "\<forall>b\<in>set [1]. ex_fat ! b \<noteq> 0" by (simp add: ex_fat_def FAT_EOC_def)
  show ?thesis
    using fs_delete_reclaims [of ex_state ex_dir "''a''" ex_fat "[1]", OF _ _ wf _ _ _ ch nz]
    by (simp add: m ex_state_def FS_FILENAME_LEN_def)
qed

subsection \<open>The FAT\<close>

text \<open>C4: \<open>first_avail_fat\<close> is the allocator the specification asks for: it returns the
  least index below \<open>num_data_blocks\<close> whose entry is free, and \<open>-1\<close> exactly when no
  entry there is free.\<close>

theorem first_avail_fat_least_free:
  assumes "n \<le> length ft"
  shows "(first_avail_fat n ft = Inr (-1) \<longleftrightarrow> (\<forall>i<n. ft ! i \<noteq> 0)) \<and>
         (\<forall>j. first_avail_fat n ft = Inr (int j) \<longleftrightarrow> j < n \<and> ft ! j = 0 \<and> (\<forall>i<j. ft ! i \<noteq> 0))"
proof -
  have e: "first_avail_fat n ft = Inr (case first_free n ft of None \<Rightarrow> -1 | Some j \<Rightarrow> int j)"
    using first_avail_fat_first_free [OF assms] .
  have least: "first_free n ft = Some j \<longleftrightarrow> j < n \<and> ft ! j = 0 \<and> (\<forall>i<j. ft ! i \<noteq> 0)" for j
  proof
    assume "j < n \<and> ft ! j = 0 \<and> (\<forall>i<j. ft ! i \<noteq> 0)"
    then show "first_free n ft = Some j"
      by (auto simp: first_free_def find_Some_iff intro!: exI [of _ j])
  qed (rule first_free_Some)
  show ?thesis
    using e least first_free_None [of n ft] by (cases "first_free n ft") auto
qed

text \<open>Witness: in the example table entries 0 and 1 are used, so the allocator returns 2.\<close>

theorem first_avail_fat_least_free_witness:
  "(first_avail_fat 4 ex_fat = Inr (-1) \<longleftrightarrow> (\<forall>i<4. ex_fat ! i \<noteq> 0)) \<and>
   (\<forall>j. first_avail_fat 4 ex_fat = Inr (int j) \<longleftrightarrow> j < 4 \<and> ex_fat ! j = 0 \<and> (\<forall>i<j. ex_fat ! i \<noteq> 0))"
  using first_avail_fat_least_free [of 4 ex_fat] by (simp add: ex_fat_def)

text \<open>C5: \<open>correct_block(index, k)\<close> refines dropping \<open>k\<close> blocks from the file's chain:
  when the FAT links the chain \<open>bs\<close> from \<open>index\<close>, the walk of \<open>k \<le> length bs\<close>
  steps ends at the start of the chain \<open>drop k bs\<close> (the end-of-chain marker when
  \<open>k = length bs\<close>).\<close>

theorem correct_block_drop:
  assumes "fat_chain ft x bs" and "k \<le> length bs"
  shows "\<exists>y. correct_block ft x k = Inr y \<and> fat_chain ft y (drop k bs)"
proof -
  have "fat_path ft x (take k bs @ drop k bs) FAT_EOC" using assms(1) by (simp add: fat_chain_def)
  then obtain y where py: "fat_path ft x (take k bs) y" and rest: "fat_path ft y (drop k bs) FAT_EOC"
    unfolding fat_path_append by blast
  have "correct_block ft x k = Inr y" using correct_block_path [OF py] assms(2) by simp
  then show ?thesis using rest by (simp add: fat_chain_def)
qed

text \<open>Witness: the chain 1, 2 of a small table, walked one step.\<close>

theorem correct_block_drop_witness:
  "\<exists>y. correct_block [FAT_EOC, 2, FAT_EOC, 0] 1 1 = Inr y \<and> fat_chain [FAT_EOC, 2, FAT_EOC, 0] y (drop 1 [1, 2])"
proof -
  have "fat_chain [FAT_EOC, 2, FAT_EOC, 0] 1 [1, 2]" by (simp add: FAT_EOC_def)
  then show ?thesis using correct_block_drop [of "[FAT_EOC, 2, FAT_EOC, 0]" 1 "[1, 2]" 1] by simp
qed

subsection \<open>The directory\<close>

text \<open>C6: creating a name that is not stored in the slots \<open>fs_create\<close> inspects puts it in
  the first empty slot with size 0 and no blocks; the directory stays well-formed, no other
  slot changes, and the name is then found by the lookup of \<open>fs_open\<close> and \<open>fs_delete\<close>.\<close>

theorem fs_create_new:
  assumes st: "mounted s" "root_direct s = Some dir" "dir_wf dir"
    and n: "length n \<le> FS_FILENAME_LEN" "NUL \<notin> set n"
    and fresh: "\<forall>e\<in>set (scanned dir). entry_name e \<noteq> Some n" and j: "first_empty dir = Some j"
  shows "\<exists>dir'. fs_create n s = (Inr 0, s\<lparr>root_direct := Some dir'\<rparr>) \<and> dir_wf dir' \<and>
           entry_name (dir' ! j) = Some n \<and> file_size (dir' ! j) = 0 \<and> file_index (dir' ! j) = FAT_EOC \<and>
           j \<in> set (matching n dir') \<and> (\<forall>i. i \<noteq> j \<longrightarrow> dir' ! i = dir ! i)"
proof -
  let ?dir' = "dir[j := create_entry n (dir ! j)]"
  have jl: "j < length dir" using j by (auto simp: first_empty_def find_Some_iff)
  have wf: "entry_wf (dir ! j)" using st(3) jl by (simp add: dir_wf_def list_all_length)
  have c: "fs_create n s = (Inr 0, s\<lparr>root_direct := Some ?dir'\<rparr>)"
    using n(1) fresh j by (simp add: fs_create_spec [OF st])
  have nm: "entry_name (?dir' ! j) = Some n" using jl create_entry_name [OF wf n(2,1)] by simp
  have "dir_wf ?dir'" using st(3) create_entry_wf [OF wf n(1)] jl
    by (simp add: dir_wf_def list_all_length nth_list_update)
  moreover have "j \<in> set (matching n ?dir')" using nm jl by (simp add: matching_def)
  ultimately show ?thesis using c nm jl by (intro exI [of _ ?dir']) (simp add: create_entry_def)
qed

text \<open>Witness: creating \<open>b\<close> in the example directory, whose first empty slot is 1.\<close>

theorem fs_create_new_witness:
  "\<exists>dir'. fs_create ''b'' ex_state = (Inr 0, ex_state\<lparr>root_direct := Some dir'\<rparr>) \<and> dir_wf dir' \<and>
           entry_name (dir' ! 1) = Some ''b'' \<and> file_size (dir' ! 1) = 0 \<and> file_index (dir' ! 1) = FAT_EOC \<and>
           1 \<in> set (matching ''b'' dir') \<and> (\<forall>i. i \<noteq> 1 \<longrightarrow> dir' ! i = ex_dir ! i)"
proof -
  note wf = ex_dir_wf
  note fe = ex_first_empty
  have sc: "scanned ex_dir = [ex_entry, ex_empty_entry]"
    unfolding scanned_def fe by (simp add: ex_dir_def numeral_eq_Suc)
  note ea = ex_entry_name
  note e0 = ex_empty_entry_name
  have fr: "\<forall>e\<in>set (scanned ex_dir). entry_name e \<noteq> Some ''b''" by (simp add: sc ea e0)
  show ?thesis
    using fs_create_new [of ex_state ex_dir "''b''" 1, OF _ _ wf _ _ fr fe]
    by (simp add: ex_state_def FS_FILENAME_LEN_def NUL_def)
qed

text \<open>C7: the directory's capacity: when every slot holds a file, creating a further name
  fails with \<open>DirectoryFull\<close> and changes nothing.\<close>

theorem fs_create_full:
  assumes "mounted s" "root_direct s = Some dir" "dir_wf dir" "length n \<le> FS_FILENAME_LEN"
    and "\<forall>e\<in>set dir. \<not> entry_empty e" and "\<forall>e\<in>set dir. entry_name e \<noteq> Some n"
  shows "fs_create n s = (Inl DirectoryFull, s)"
proof -
  have "first_empty dir = None" using assms(5) by (auto simp: first_empty_def find_None_iff)
  moreover have "scanned dir = dir" using calculation by (simp add: scanned_def)
  ultimately show ?thesis using assms by (simp add: fs_create_spec [OF assms(1-3)])
qed

text \<open>Witness: a directory of 128 files named \<open>a\<close>, asked to create \<open>b\<close>.\<close>

theorem fs_create_full_witness:
  "fs_create ''b'' (ex_state\<lparr>root_direct := Some (replicate 128 ex_entry)\<rparr>) =
     (Inl DirectoryFull, ex_state\<lparr>root_direct := Some (replicate 128 ex_entry)\<rparr>)"
proof -
  have wf: "dir_wf (replicate 128 ex_entry)"
    by (simp add: dir_wf_def entry_wf_def ex_entry_def ex_name_def FS_FILE_MAX_COUNT_def FS_FILENAME_LEN_def list_all_iff)
  note ne = ex_entry_not_empty
  note ea = ex_entry_name
  show ?thesis
    using fs_create_full [of "ex_state\<lparr>root_direct := Some (replicate 128 ex_entry)\<rparr>" "replicate 128 ex_entry" "''b''",
        OF _ _ wf] ne ea
    by (simp add: ex_state_def FS_FILENAME_LEN_def)
qed

text \<open>C8: \<open>fs_create\<close> stops scanning at the first empty slot, so a name stored in a
  later slot (after an earlier file was deleted) is not noticed: the call succeeds and the
  directory then holds two entries with the same name, contrary to the uniqueness invariant
  of the specification; the lookup of \<open>fs_open\<close> and \<open>fs_delete\<close> then finds the older
  entry and never the one just created.\<close>

theorem fs_create_duplicate_name:
  assumes st: "mounted s" "root_direct s = Some dir" "dir_wf dir"
    and n: "length n \<le> FS_FILENAME_LEN" "NUL \<notin> set n"
    and j: "first_empty dir = Some j" and k: "j < k" "k < length dir" "entry_name (dir ! k) = Some n"
    and fresh: "\<forall>e\<in>set (take (Suc j) dir). entry_name e \<noteq> Some n"
  shows "\<exists>dir'. fs_create n s = (Inr 0, s\<lparr>root_direct := Some dir'\<rparr>) \<and>
           entry_name (dir' ! j) = Some n \<and> entry_name (dir' ! k) = Some n \<and>
           find_file n dir' \<noteq> Inr (int j)"
proof -
  let ?dir' = "dir[j := create_entry n (dir ! j)]"
  have sc: "scanned dir = take (Suc j) dir" using j by (simp add: scanned_def)
  have jl: "j < length dir" using k by simp
  have wf: "entry_wf (dir ! j)" using st(3) jl by (simp add: dir_wf_def list_all_length)
  have c: "fs_create n s = (Inr 0, s\<lparr>root_direct := Some ?dir'\<rparr>)"
    using n(1) fresh by (simp add: fs_create_spec [OF st] sc j)
  have nj: "entry_name (?dir' ! j) = Some n" using jl create_entry_name [OF wf n(2,1)] by simp
  have nk: "entry_name (?dir' ! k) = Some n" using k by simp
  have wf': "dir_wf ?dir'" using st(3) create_entry_wf [OF wf n(1)] jl
    by (simp add: dir_wf_def list_all_length nth_list_update)
  have "k \<in> set (matching n ?dir')" using nk k by (simp add: matching_def)
  then have "k \<le> last (matching n ?dir')" "matching n ?dir' \<noteq> []" by (auto dest: matching_le_last)
  then have "find_file n ?dir' \<noteq> Inr (int j)" using k(1) by (simp add: find_file_wf [OF wf'])
  then show ?thesis using c nj nk by blast
qed

text \<open>Witness: slot 0 empty and file \<open>a\<close> in slot 1; creating \<open>a\<close> again fills slot 0.\<close>

theorem fs_create_duplicate_name_witness:
  "\<exists>dir'. fs_create ''a'' (ex_state\<lparr>root_direct := Some (ex_empty_entry # ex_entry # replicate 126 ex_empty_entry)\<rparr>) =
       (Inr 0, ex_state\<lparr>root_direct := Some dir'\<rparr>) \<and>
     entry_name (dir' ! 0) = Some ''a'' \<and> entry_name (dir' ! 1) = Some ''a'' \<and> find_file ''a'' dir' \<noteq> Inr (int 0)"
proof -
  let ?dir = "ex_empty_entry # ex_entry # replicate 126 ex_empty_entry"
  have wf: "dir_wf ?dir"
    by (simp add: dir_wf_def entry_wf_def ex_entry_def ex_empty_entry_def ex_name_def
        FS_FILE_MAX_COUNT_def FS_FILENAME_LEN_def list_all_iff)
  note em = ex_empty_entry_empty
  have fe: "first_empty ?dir = Some 0" by (simp add: first_empty_Cons em)
  note ea = ex_entry_name
  note e0 = ex_empty_entry_name
  show ?thesis
    using fs_create_duplicate_name [of "ex_state\<lparr>root_direct := Some ?dir\<rparr>" ?dir "''a''" 0 1, OF _ _ wf _ _ fe]
      ea e0 by (simp add: ex_state_def FS_FILENAME_LEN_def NUL_def)
qed

subsection \<open>Descriptors\<close>

text \<open>C9: opening a stored name binds the lowest available descriptor to the last slot
  holding that name, with cursor 0, marks it in use and leaves every other descriptor as
  it was; the table stays well-formed.\<close>

theorem fs_open_binds:
  assumes st: "mounted s" "root_direct s = Some dir" "dir_wf dir" "fd_table s = Some fdt" "fdt_wf fdt"
    and n: "length n \<le> FS_FILENAME_LEN" "matching n dir \<noteq> []" and fd: "first_available fdt = Some fd"
  shows "\<exists>fdt'. fs_open n s = (Inr (int fd), s\<lparr>fd_table := Some fdt'\<rparr>) \<and> fdt_wf fdt' \<and>
           \<not> fd_available (fdt' ! fd) \<and> fd_offset (fdt' ! fd) = 0 \<and>
           entry_name (dir ! nat (fd_file_index (fdt' ! fd))) = Some n \<and>
           (\<forall>i<fd. \<not> fd_available (fdt ! i)) \<and> (\<forall>i. i \<noteq> fd \<longrightarrow> fdt' ! i = fdt ! i)"
proof -
  let ?f = "open_entry n (int (last (matching n dir))) (fdt ! fd)"
  have fa: "fd < length fdt" "\<forall>i<fd. \<not> fd_available (fdt ! i)" using first_available_Some [OF st(5) fd] by simp_all
  have o: "fs_open n s = (Inr (int fd), s\<lparr>fd_table := Some (fdt[fd := ?f])\<rparr>)"
    using n fd by (simp add: fs_open_spec [OF st])
  have "length (fd_file_name (fdt ! fd)) = FS_FILENAME_LEN" using st(5) fa(1)
    by (simp add: fdt_wf_def fd_wf_def list_all_length)
  then have "fdt_wf (fdt[fd := ?f])" using st(5) fa(1) n(1)
    by (simp add: fdt_wf_def fd_wf_def list_all_length nth_list_update open_entry_def length_strcpy_field)
  moreover have "entry_name (dir ! last (matching n dir)) = Some n" using matching_last [OF n(2)] by simp
  ultimately show ?thesis using o fa by (intro exI [of _ "fdt[fd := ?f]"]) (simp add: open_entry_def)
qed

text \<open>Witness: opening \<open>a\<close> in the example, where descriptor 0 is in use.\<close>

theorem fs_open_binds_witness:
  "\<exists>fdt'. fs_open ''a'' ex_state = (Inr 1, ex_state\<lparr>fd_table := Some fdt'\<rparr>) \<and> fdt_wf fdt' \<and>
           \<not> fd_available (fdt' ! 1) \<and> fd_offset (fdt' ! 1) = 0 \<and>
           entry_name (ex_dir ! nat (fd_file_index (fdt' ! 1))) = Some ''a'' \<and>
           (\<forall>i<1. \<not> fd_available (ex_fdt ! i)) \<and> (\<forall>i. i \<noteq> 1 \<longrightarrow> fdt' ! i = ex_fdt ! i)"
proof -
  note wf = ex_dir_wf
  note fw = ex_fdt_wf
  note m = ex_matching
  note fa = ex_first_available
  show ?thesis
    using fs_open_binds [of ex_state ex_dir ex_fdt "''a''" 1, OF _ _ wf _ fw _ _ fa] m
    by (simp add: ex_state_def FS_FILENAME_LEN_def)
qed

text \<open>C10: the session's capacity: when all descriptors are in use, opening a stored name
  fails with \<open>DescriptorTableFull\<close> and changes nothing.\<close>

theorem fs_open_table_full:
  assumes "mounted s" "root_direct s = Some dir" "dir_wf dir" "fd_table s = Some fdt" "fdt_wf fdt"
    and "length n \<le> FS_FILENAME_LEN" "matching n dir \<noteq> []" and "\<forall>f\<in>set fdt. \<not> fd_available f"
  shows "fs_open n s = (Inl DescriptorTableFull, s)"
  using assms first_available_None [OF assms(5)] by (simp add: fs_open_spec [OF assms(1-5)])

text \<open>Witness: the example with all 32 descriptors open on \<open>a\<close>.\<close>

theorem fs_open_table_full_witness:
  "fs_open ''a'' (ex_state\<lparr>fd_table := Some (replicate 32 ex_fd)\<rparr>) =
     (Inl DescriptorTableFull, ex_state\<lparr>fd_table := Some (replicate 32 ex_fd)\<rparr>)"
proof -
  note wf = ex_dir_wf
  have fw: "fdt_wf (replicate 32 ex_fd)"
    by (simp add: fdt_wf_def fd_wf_def ex_fd_def ex_name_def FS_OPEN_MAX_COUNT_def FS_FILENAME_LEN_def list_all_iff)
  note m = ex_matching
  show ?thesis
    using fs_open_table_full [of "ex_state\<lparr>fd_table := Some (replicate 32 ex_fd)\<rparr>" ex_dir "replicate 32 ex_fd" "''a''",
        OF _ _ wf _ fw] m
    by (simp add: ex_state_def ex_fd_def FS_FILENAME_LEN_def)
qed

text \<open>C11: closing an open descriptor makes it available again and nothing else; closing
  it a second time fails with \<open>NotOpen\<close>, and a descriptor outside the table is refused
  with \<open>InvalidArgument\<close>.\<close>

theorem fs_close_once:
  assumes st: "mounted s" "fd_table s = Some fdt" "fdt_wf fdt"
    and fd: "0 \<le> fd" "fd < int FS_OPEN_MAX_COUNT" "\<not> fd_available (fdt ! nat fd)"
  shows "\<exists>s'. fs_close fd s = (Inr 0, s') \<and>
           s' = s\<lparr>fd_table := Some (fdt[nat fd := (fdt ! nat fd)\<lparr>fd_available := True\<rparr>])\<rparr> \<and>
           fs_close fd s' = (Inl NotOpen, s') \<and>
           (\<forall>g. g < 0 \<or> int FS_OPEN_MAX_COUNT \<le> g \<longrightarrow> fs_close g s = (Inl InvalidArgument, s))"
proof -
  let ?fdt' = "fdt[nat fd := (fdt ! nat fd)\<lparr>fd_available := True\<rparr>]"
  have l: "nat fd < length fdt" using st(3) fd(1,2) by (simp add: fdt_wf_def)
  have w: "fdt_wf ?fdt'" using st(3) l by (simp add: fdt_wf_def fd_wf_def list_all_length nth_list_update)
  have c1: "fs_close fd s = (Inr 0, s\<lparr>fd_table := Some ?fdt'\<rparr>)" using fd by (simp add: fs_close_spec [OF st])
  have c2: "fs_close fd (s\<lparr>fd_table := Some ?fdt'\<rparr>) = (Inl NotOpen, s\<lparr>fd_table := Some ?fdt'\<rparr>)"
    using fd l by (simp add: fs_close_spec [OF _ _ w] st)
  have "\<forall>g. g < 0 \<or> int FS_OPEN_MAX_COUNT \<le> g \<longrightarrow> fs_close g s = (Inl InvalidArgument, s)"
    by (simp add: fs_close_spec [OF st])
  then show ?thesis using c1 c2 by blast
qed

text \<open>Witness: closing descriptor 0 of the example.\<close>

theorem fs_close_once_witness:
  "\<exists>s'. fs_close 0 ex_state = (Inr 0, s') \<and>
     s' = ex_state\<lparr>fd_table := Some (ex_fdt[0 := ex_fd\<lparr>fd_available := True\<rparr>])\<rparr> \<and>
     fs_close 0 s' = (Inl NotOpen, s') \<and>
     (\<forall>g. g < 0 \<or> int FS_OPEN_MAX_COUNT \<le> g \<longrightarrow> fs_close g ex_state = (Inl InvalidArgument, ex_state))"
proof -
  note fw = ex_fdt_wf
  show ?thesis
    using fs_close_once [of ex_state ex_fdt 0, OF _ _ fw]
    by (simp add: ex_state_def ex_fdt_def ex_fd_def FS_OPEN_MAX_COUNT_def)
qed

text \<open>C12: the boundary of \<open>fs_lseek\<close>: on an open descriptor of a file of size
  \<open>sz\<close>, seeking to \<open>sz\<close> succeeds and sets the cursor, and seeking to \<open>sz + 1\<close> fails
  with \<open>OffsetOutOfRange\<close> and changes nothing (the comparison is made on the \<open>int\<close>
  values of both sides, which equal the sizes below \<open>2^31 - 1\<close>).\<close>

theorem fs_lseek_boundary:
  assumes st: "mounted s" "fd_table s = Some fdt" "open_fd fdt fd = Inr f" "root_direct s = Some dir"
      "0 \<le> fd_file_index f" "nat (fd_file_index f) < length dir"
    and sz: "sz = unat (file_size (dir ! nat (fd_file_index f)))" "sz < 2 ^ 31 - 1"
  shows "fs_lseek fd sz s = (Inr 0, s\<lparr>fd_table := Some (fdt[nat fd := f\<lparr>fd_offset := sz\<rparr>])\<rparr>) \<and>
         fs_lseek fd (sz + 1) s = (Inl OffsetOutOfRange, s)"
proof -
  have si: "sint (file_size (dir ! nat (fd_file_index f))) = int sz"
    using sz by (simp add: sint_small)
  have "c_int sz = int sz" "c_int (sz + 1) = int sz + 1" using sz(2) by (simp_all add: c_int_small)
  then show ?thesis using si by (simp add: fs_lseek_open [OF st])
qed

text \<open>Witness: descriptor 0 of the example, on the 10-byte file \<open>a\<close>.\<close>

theorem fs_lseek_boundary_witness:
  "fs_lseek 0 10 ex_state = (Inr 0, ex_state\<lparr>fd_table := Some (ex_fdt[0 := ex_fd\<lparr>fd_offset := 10\<rparr>])\<rparr>) \<and>
   fs_lseek 0 11 ex_state = (Inl OffsetOutOfRange, ex_state)"
proof -
  note o = ex_open
  have "(10::nat) = unat (file_size (ex_dir ! nat (fd_file_index ex_fd)))"
    by (simp add: ex_dir_def ex_entry_def ex_fd_def)
  from fs_lseek_boundary [of ex_state ex_fdt 0 ex_fd ex_dir, OF _ _ o _ _ _ this]
  show ?thesis by (simp add: ex_state_def ex_fd_def ex_dir_def)
qed

subsection \<open>The read engine and its composition with the write engine\<close>

text \<open>C13: \<open>fs_read\<close> of \<open>count\<close> bytes returns \<open>min count (size - offset)\<close> bytes, which
  are the bytes of the file's chain on the disk from the descriptor's offset on, copied to
  the front of the caller's buffer, and advances the offset by as many; in particular a
  read at the end of the file returns 0 bytes.\<close>

theorem fs_read_file_bytes:
  assumes st: "mounted s" "fd_table s = Some fdt" "open_fd fdt fd = Inr f" "root_direct s = Some dir"
      "0 \<le> fd_file_index f" "nat (fd_file_index f) < length dir" "super_block s = Some sb" "fat s = Some ft"
    and e: "e = dir ! nat (fd_file_index f)" and ok: "file_ok sb ft (disk s) (file_index e) bs"
    and sz: "unat (file_size e) < 2 ^ 31" "fd_offset f \<le> unat (file_size e)" "count + fd_offset f < 2 ^ 31"
    and n: "n = min count (unat (file_size e) - fd_offset f)"
    and fit: "fd_offset f + n \<le> BLOCK_SIZE * length bs"
    and safe: "n < BLOCK_SIZE \<longrightarrow> fd_offset f mod BLOCK_SIZE + n \<le> BLOCK_SIZE" and dst: "n \<le> length dst"
  shows "fs_read fd (Some dst) count s =
           (Inr (int n, take n (drop (fd_offset f) (file_bytes (dk_blocks (disk s)) (unat (data_block_index sb)) bs))
                        @ drop n dst),
            s\<lparr>fd_table := Some (fdt[nat fd := f\<lparr>fd_offset := fd_offset f + n\<rparr>])\<rparr>)"
proof -
  let ?F = "file_bytes (dk_blocks (disk s)) (unat (data_block_index sb)) bs"
  have env: "rl_env sb (disk s) ft (file_index e) bs" using ok by (rule file_ok_env)
  have "length ?F = BLOCK_SIZE * length bs" using env by (rule length_file_bytes_env)
  then have "length (take n (drop (fd_offset f) ?F)) = n" using fit by simp
  then show ?thesis using fs_read_chain [OF st e env sz n fit safe dst] by (simp add: patch_def)
qed

text \<open>Witness: the example descriptor is at the end of the 10-byte file \<open>a\<close>, so a
  read of 5 bytes returns none and leaves the buffer alone.\<close>

theorem fs_read_file_bytes_witness:
  "fs_read 0 (Some (replicate 5 9)) 5 ex_state =
     (Inr (0, replicate 5 9), ex_state\<lparr>fd_table := Some (ex_fdt[0 := ex_fd\<lparr>fd_offset := 10\<rparr>])\<rparr>)"
proof -
  have ok: "file_ok ex_sb ex_fat (disk ex_state) (file_index (ex_dir ! nat (fd_file_index ex_fd))) [1]"
    using ex_file_ok by (simp add: ex_state_def ex_dir_def ex_entry_def ex_fd_def)
  show ?thesis
    using fs_read_file_bytes [of ex_state ex_fdt 0 ex_fd ex_dir ex_sb ex_fat, OF _ _ ex_open _ _ _ _ _ refl ok,
        of 5 0 "replicate 5 9"]
    by (simp add: ex_state_def ex_dir_def ex_entry_def ex_fd_def BLOCK_SIZE_def)
qed

text \<open>C14: what is written can be read back, for a write that starts inside a block already
  in the chain of a file that has blocks (\<open>pos\<close>), under the conditions of C1.  After
  \<open>fs_write\<close> of \<open>count\<close> bytes at the cursor, seeking back to where the write started and
  reading \<open>count\<close> bytes returns exactly the bytes written.  Two cases are outside this
  statement.  A write at the end of a file whose last block is full loses its data (C21).  The
  first write to a new file is covered by C22 and C23.\<close>

theorem fs_write_read_back:
  assumes st: "mounted s" "fd_table s = Some fdt" "open_fd fdt fd = Inr f" "fd < int FS_OPEN_MAX_COUNT"
      "root_direct s = Some dir" "0 \<le> fd_file_index f" "nat (fd_file_index f) < length dir"
      "super_block s = Some sb" "fat s = Some ft"
    and e: "e = dir ! nat (fd_file_index f)" "file_index e \<noteq> FAT_EOC"
    and ok: "file_ok sb ft (disk s) (file_index e) bs"
    and free: "(fd_offset f + count - 1) div BLOCK_SIZE < length bs + free_count (unat (num_data_blocks sb)) ft"
    and pos: "fd_offset f div BLOCK_SIZE < length bs"
    and safe: "count < BLOCK_SIZE \<longrightarrow> fd_offset f mod BLOCK_SIZE + count \<le> BLOCK_SIZE"
    and bnd: "0 < count" "count < 65536" "count \<le> length data" "count \<le> length dst"
    and sz: "fd_offset f \<le> unat (file_size e)" "unat (file_size e) + count < 2 ^ 31"
    and short: "NUL \<in> set (fd_file_name f)"
  shows "\<exists>s' s''. fs_write fd (Some data) count s = (Inr (int count), s') \<and>
           fs_lseek fd (fd_offset f) s' = (Inr 0, s'') \<and>
           fst (fs_read fd (Some dst) count s'') = Inr (int count, take count data @ drop count dst)"
proof -
  let ?off = "fd_offset f"
  let ?i = "nat (fd_file_index f)"
  let ?dbi = "unat (data_block_index sb)"
  define e' where "e' = e\<lparr>file_size := word_of_int (sint (file_size e) + int count)\<rparr>"
  have fsa: "sint (file_size e) + int count \<le> 2147483647" "unat (file_size e') = unat (file_size e) + count"
    "sint (file_size e') = int (unat (file_size e) + count)"
    using file_size_add [OF sz(2)] unfolding e'_def by simp_all
  have bnd2: "?off + count < 2 ^ 31" using sz by linarith
  obtain ft' d' ns where w: "fs_write fd (Some data) count s =
           (Inr (int count), s\<lparr>fat := Some ft', disk := d', root_direct := Some (dir[?i := e']),
              fd_table := Some (fdt[nat fd := f\<lparr>fd_offset := ?off + count\<rparr>])\<rparr>)"
    and ok': "file_ok sb ft' d' (file_index e) (bs @ ns)"
    and fb: "file_bytes (dk_blocks d') ?dbi (bs @ ns) =
               patch (file_bytes (dk_blocks (disk s)) ?dbi (bs @ ns)) ?off (take count data)"
    and fit: "?off + count \<le> BLOCK_SIZE * length (bs @ ns)"
    using fs_write_ok [OF st e(1) first_block_chain [OF e(2)] ok free pos safe bnd(1) bnd2 bnd(2,3) fsa(1)]
    unfolding e'_def by auto
  let ?s' = "s\<lparr>fat := Some ft', disk := d', root_direct := Some (dir[?i := e']),
              fd_table := Some (fdt[nat fd := f\<lparr>fd_offset := ?off + count\<rparr>])\<rparr>"
  let ?f'' = "f\<lparr>fd_offset := ?off\<rparr>"
  let ?s'' = "?s'\<lparr>fd_table := Some (fdt[nat fd := ?f''])\<rparr>"
  have o': "open_fd (fdt[nat fd := f\<lparr>fd_offset := ?off + count\<rparr>]) fd = Inr (f\<lparr>fd_offset := ?off + count\<rparr>)"
    by (rule open_fd_offset [OF st(3) short])
  have o'': "open_fd (fdt[nat fd := ?f'']) fd = Inr ?f''" by (rule open_fd_offset [OF st(3) short])
  have ofs: "int (fd_offset f) \<le> uint (file_size e)" using sz(1) by (metis of_nat_mono uint_nat)
  have ls: "fs_lseek fd ?off ?s' = (Inr 0, ?s'')"
    using fs_lseek_open [of ?s' _ fd _ "dir[?i := e']", OF _ _ o'] st(1,6,7) sz fsa(3) ofs
    by (simp add: c_int_small)
  have ok0: "\<forall>x\<in>set (dk_blocks (disk s)). length x = BLOCK_SIZE" using ok unfolding file_ok_def by blast
  have "\<forall>b\<in>set (bs @ ns). b + ?dbi < length (dk_blocks (disk s))"
    using ok ok' unfolding file_ok_def by fastforce
  then have "length (file_bytes (dk_blocks (disk s)) ?dbi (bs @ ns)) = BLOCK_SIZE * length (bs @ ns)"
    using ok0 by (intro length_file_bytes_in)
  then have rdb: "take count (drop ?off (file_bytes (dk_blocks d') ?dbi (bs @ ns))) = take count data"
    unfolding fb using take_drop_patch [of ?off "take count data"] fit bnd(3) by simp
  have env': "rl_env sb (disk ?s'') ft' (file_index e') (bs @ ns)"
    using file_ok_env [OF ok'] by (simp add: e'_def)
  have rd: "fs_read fd (Some dst) count ?s'' =
              (Inr (int count, patch dst 0 (take count (drop ?off (file_bytes (dk_blocks d') ?dbi (bs @ ns))))),
               ?s''\<lparr>fd_table := Some ((fdt[nat fd := ?f''])[nat fd := ?f''\<lparr>fd_offset := ?off + count\<rparr>])\<rparr>)"
    using fs_read_chain [of ?s'' "fdt[nat fd := ?f'']" fd ?f'' "dir[?i := e']" sb ft' e' "bs @ ns" count count dst,
        OF _ _ o'' _ _ _ _ _ _ env'] st(1,6,7,8) sz fsa(2) bnd fit safe
    by simp
  show ?thesis using w ls rd rdb bnd(3) by (simp add: patch_def)
qed

text \<open>Witness: 5000 bytes appended to the example file \<open>a\<close> (which takes a second
  block), read back from offset 10.\<close>

theorem fs_write_read_back_witness:
  "\<exists>s' s''. fs_write 0 (Some (replicate 5000 7)) 5000 ex_state = (Inr 5000, s') \<and>
      fs_lseek 0 10 s' = (Inr 0, s'') \<and>
      fst (fs_read 0 (Some (replicate 5000 0)) 5000 s'') = Inr (5000, replicate 5000 7)"
proof -
  have ok: "file_ok ex_sb ex_fat (disk ex_state) (file_index (ex_dir ! nat (fd_file_index ex_fd))) [1]"
    using ex_file_ok by (simp add: ex_state_def ex_dir_def ex_entry_def ex_fd_def)
  have fc: "(fd_offset ex_fd + 5000 - 1) div BLOCK_SIZE < length [1::nat] + free_count (unat (num_data_blocks ex_sb)) ex_fat"
    by (simp add: ex_fd_def ex_sb_def ex_fat_def free_count_def BLOCK_SIZE_def FAT_EOC_def upt_rec)
  have nm: "NUL \<in> set (fd_file_name ex_fd)" by (simp add: ex_fd_def ex_name_def)
  show ?thesis
    using fs_write_read_back [of ex_state ex_fdt 0 ex_fd ex_dir ex_sb ex_fat "ex_dir ! nat (fd_file_index ex_fd)"
        "[1]" 5000 "replicate 5000 7" "replicate 5000 0", OF _ _ ex_open _ _ _ _ _ _ refl _ ok fc _ _ _ _ _ _ _ _ nm]
    by (simp add: ex_state_def ex_sb_def ex_dir_def ex_entry_def ex_fd_def ex_fat_def FAT_EOC_def
      BLOCK_SIZE_def FS_OPEN_MAX_COUNT_def)
qed

subsection \<open>Findings\<close>

text \<open>C15: a write of fewer than \<open>BLOCK_SIZE\<close> bytes that crosses a block boundary is
  undefined behaviour: \<open>get_length\<close> gives the whole count as the length of the first copy,
  and the \<open>memcpy\<close> into the bounce buffer at the offset within the block runs past the
  end of the buffer (fs.c 453 and 472).  The specification asks for partial-block writes
  with read-modify-write of each block touched.\<close>

theorem fs_write_short_cross:
  assumes st: "mounted s" "fd_table s = Some fdt" "open_fd fdt fd = Inr f" "fd < int FS_OPEN_MAX_COUNT"
      "root_direct s = Some dir" "0 \<le> fd_file_index f" "nat (fd_file_index f) < length dir"
      "super_block s = Some sb" "fat s = Some ft"
    and e: "e = dir ! nat (fd_file_index f)" "file_index e \<noteq> FAT_EOC"
    and ok: "file_ok sb ft (disk s) (file_index e) bs" and pos: "fd_offset f div BLOCK_SIZE < length bs"
    and cross: "count < BLOCK_SIZE" "BLOCK_SIZE < fd_offset f mod BLOCK_SIZE + count" and lim: "fd_offset f < 2 ^ 31"
  shows "fs_write fd (Some data) count s = (Inl (Undefined BounceOverflow), s)"
proof -
  let ?off = "fd_offset f"
  let ?j = "fd_offset f div BLOCK_SIZE"
  let ?i = "nat (fd_file_index f)"
  let ?dbi = "unat (data_block_index sb)"
  let ?ds = "dk_blocks (disk s)"
  have o: "fat_chain ft (file_index e) bs" "\<forall>b\<in>set bs. b < unat (num_data_blocks sb) \<and> ft ! b \<noteq> 0"
    "unat (num_data_blocks sb) < 65535" "dk_open (disk s)" "?dbi + unat (num_data_blocks sb) \<le> length ?ds"
    "\<forall>x\<in>set ?ds. length x = BLOCK_SIZE"
    using ok unfolding file_ok_def by blast+
  have c0: "0 < count" using cross(2) by (simp add: BLOCK_SIZE_def)
  have b: "bs ! ?j < unat (num_data_blocks sb)" using o(2) pos nth_mem by blast
  have blk: "bs ! ?j + ?dbi < length ?ds" using b o(5) by simp
  have lB: "length (?ds ! (bs ! ?j + ?dbi)) = BLOCK_SIZE" using o(6) blk nth_mem by blast
  have wr: "fs_write fd (Some data) count s = write_blocks fd data count fdt f dir e sb ft s"
    using fs_write_blocks [OF st(1-7) c0 st(8,9)] e(1) by simp
  have "?j < 2 ^ 31" using lim by (meson div_le_dividend le_less_trans)
  then have wk: "walk (Some ft) (file_index e) ?j = Inr (word_of_nat (bs ! ?j))" by (rule walk_chain [OF o(1) pos])
  have stat: "fs_stat fd (s\<lparr>root_direct := Some (dir[?i := e]), fat := Some ft\<rparr>) = Inr (sint (file_size e))"
    using fs_stat_open [of "s\<lparr>root_direct := Some (dir[?i := e]), fat := Some ft\<rparr>" fdt fd f "dir[?i := e]"] st e(1)
    by simp
  have "?off mod BLOCK_SIZE < BLOCK_SIZE" by (simp add: BLOCK_SIZE_def)
  then have "blocks_spanned count ?off = iters count (?off mod BLOCK_SIZE)"
    using c0 cross(1) by (intro blocks_spanned_iters) (simp_all add: BLOCK_SIZE_def)
  then have "blocks_spanned count ?off \<noteq> 0" using c0 iters_0_iff by simp
  then obtain k where k: "blocks_spanned count ?off = Suc k" using not0_implies_Suc by blast
  have u: "unat (word_of_nat (bs ! ?j) :: u16) = bs ! ?j" "unat (word_of_nat (?off mod BLOCK_SIZE) :: u16) = ?off mod BLOCK_SIZE"
    "unat (word_of_nat (get_length count (?off mod BLOCK_SIZE)) :: u16) = count"
    using b o(3) cross(1) by (simp_all add: unat_of_nat_u16 get_length_def BLOCK_SIZE_def)
  let ?w0 = "\<lparr>w_cur = word_of_nat (bs ! ?j), w_count = count, w_offset = ?off,
             w_btr = word_of_nat (?off mod BLOCK_SIZE), w_length = word_of_nat (get_length count (?off mod BLOCK_SIZE)),
             w_bytes = 0, w_bounce = replicate BLOCK_SIZE 0, w_fat = ft, w_disk = disk s\<rparr>"
  have "write_chunk sb data ?w0 = Inl (Undefined BounceOverflow)"
    using o(4) blk lB u cross(2) by (intro write_chunk_overflow) (simp_all add: block_read_def)
  then have "write_loop (blocks_spanned count ?off) sb data ?w0 = Inl (Undefined BounceOverflow)"
    unfolding k by simp
  then show ?thesis
    unfolding wr write_blocks_def using first_block_chain [OF e(2)] wk stat by (simp add: Let_def)
qed

text \<open>Witness: appending 100 bytes to a file of 4000 bytes.\<close>

theorem fs_write_short_cross_witness:
  "fs_write 0 (Some (replicate 100 7)) 100
     (ex_state\<lparr>root_direct := Some (ex_dir[0 := ex_entry\<lparr>file_size := 4000\<rparr>]),
               fd_table := Some (ex_fdt[0 := ex_fd\<lparr>fd_offset := 4000\<rparr>])\<rparr>) =
   (Inl (Undefined BounceOverflow),
    ex_state\<lparr>root_direct := Some (ex_dir[0 := ex_entry\<lparr>file_size := 4000\<rparr>]),
              fd_table := Some (ex_fdt[0 := ex_fd\<lparr>fd_offset := 4000\<rparr>])\<rparr>)"
proof -
  have o: "open_fd (ex_fdt[nat 0 := ex_fd\<lparr>fd_offset := 4000\<rparr>]) 0 = Inr (ex_fd\<lparr>fd_offset := 4000\<rparr>)"
    using open_fd_offset [OF ex_open] by (simp add: ex_fd_def ex_name_def)
  have ok: "file_ok ex_sb ex_fat (disk ex_state) (file_index (ex_entry\<lparr>file_size := 4000\<rparr>)) [1]"
    using ex_file_ok by (simp add: ex_state_def ex_entry_def)
  show ?thesis
    using fs_write_short_cross [of _ "ex_fdt[nat 0 := ex_fd\<lparr>fd_offset := 4000\<rparr>]" 0 _ "ex_dir[0 := ex_entry\<lparr>file_size := 4000\<rparr>]"
        ex_sb ex_fat "ex_entry\<lparr>file_size := 4000\<rparr>" "[1]" 100 "replicate 100 7", OF _ _ o, of "ex_state\<lparr>root_direct := Some (ex_dir[0 := ex_entry\<lparr>file_size := 4000\<rparr>]),
               fd_table := Some (ex_fdt[0 := ex_fd\<lparr>fd_offset := 4000\<rparr>])\<rparr>"]
      ok
    by (simp add: ex_state_def ex_dir_def ex_entry_def ex_fd_def FAT_EOC_def BLOCK_SIZE_def FS_OPEN_MAX_COUNT_def)
qed

text \<open>C16: \<open>fs_write\<close> adds the number of bytes written to the file's size even when
  they overwrite bytes inside the file (fs.c 492): overwriting \<open>count\<close> bytes that all lie
  before the end of the file returns \<open>count\<close> and makes the size grow by \<open>count\<close>,
  although the file's contents end where they did.\<close>

theorem fs_write_overwrite_grows:
  assumes st: "mounted s" "fd_table s = Some fdt" "open_fd fdt fd = Inr f" "fd < int FS_OPEN_MAX_COUNT"
      "root_direct s = Some dir" "0 \<le> fd_file_index f" "nat (fd_file_index f) < length dir"
      "super_block s = Some sb" "fat s = Some ft"
    and e: "e = dir ! nat (fd_file_index f)" "file_index e \<noteq> FAT_EOC"
    and ok: "file_ok sb ft (disk s) (file_index e) bs"
    and fit: "unat (file_size e) \<le> BLOCK_SIZE * length bs"
    and safe: "count < BLOCK_SIZE \<longrightarrow> fd_offset f mod BLOCK_SIZE + count \<le> BLOCK_SIZE"
    and bnd: "0 < count" "count < 65536" "count \<le> length data"
    and inside: "fd_offset f + count \<le> unat (file_size e)" and sz: "unat (file_size e) + count < 2 ^ 31"
  shows "\<exists>s' dir'. fs_write fd (Some data) count s = (Inr (int count), s') \<and> root_direct s' = Some dir' \<and>
           unat (file_size (dir' ! nat (fd_file_index f))) = unat (file_size e) + count"
proof -
  let ?off = "fd_offset f"
  define e' where "e' = e\<lparr>file_size := word_of_int (sint (file_size e) + int count)\<rparr>"
  have fsa: "sint (file_size e) + int count \<le> 2147483647" "unat (file_size e') = unat (file_size e) + count"
    using file_size_add [OF sz] unfolding e'_def by simp_all
  have bnd2: "?off + count < 2 ^ 31" using sz inside by linarith
  have "?off + count - 1 < BLOCK_SIZE * length bs" using inside fit bnd(1) by linarith
  then have lt: "(?off + count - 1) div BLOCK_SIZE < length bs" by (simp add: less_mult_imp_div_less mult.commute)
  then have free: "(?off + count - 1) div BLOCK_SIZE < length bs + free_count (unat (num_data_blocks sb)) ft" by simp
  have "?off div BLOCK_SIZE \<le> (?off + count - 1) div BLOCK_SIZE" using bnd(1) by (intro div_le_mono) simp
  then have pos: "?off div BLOCK_SIZE < length bs" using lt by linarith
  obtain ft' d' where w: "fs_write fd (Some data) count s =
           (Inr (int count), s\<lparr>fat := Some ft', disk := d', root_direct := Some (dir[nat (fd_file_index f) := e']),
              fd_table := Some (fdt[nat fd := f\<lparr>fd_offset := ?off + count\<rparr>])\<rparr>)"
    using fs_write_ok [OF st e(1) first_block_chain [OF e(2)] ok free pos safe bnd(1) bnd2 bnd(2,3) fsa(1)]
    unfolding e'_def by auto
  then show ?thesis using st(7) fsa(2) by simp
qed

text \<open>Witness: overwriting the first 5 of the 10 bytes of the example file makes it 15
  bytes long.\<close>

theorem fs_write_overwrite_grows_witness:
  "\<exists>s' dir'. fs_write 0 (Some (replicate 5 7)) 5 (ex_state\<lparr>fd_table := Some (ex_fdt[0 := ex_fd\<lparr>fd_offset := 0\<rparr>])\<rparr>) =
      (Inr 5, s') \<and> root_direct s' = Some dir' \<and> unat (file_size (dir' ! 0)) = 15"
proof -
  have o: "open_fd (ex_fdt[nat 0 := ex_fd\<lparr>fd_offset := 0\<rparr>]) 0 = Inr (ex_fd\<lparr>fd_offset := 0\<rparr>)"
    using open_fd_offset [OF ex_open] by (simp add: ex_fd_def ex_name_def)
  have ok: "file_ok ex_sb ex_fat (disk (ex_state\<lparr>fd_table := Some (ex_fdt[0 := ex_fd\<lparr>fd_offset := 0\<rparr>])\<rparr>))
      (file_index (ex_dir ! nat (fd_file_index (ex_fd\<lparr>fd_offset := 0\<rparr>)))) [1]"
    using ex_file_ok by (simp add: ex_state_def ex_dir_def ex_entry_def ex_fd_def)
  show ?thesis
    using fs_write_overwrite_grows [of "ex_state\<lparr>fd_table := Some (ex_fdt[0 := ex_fd\<lparr>fd_offset := 0\<rparr>])\<rparr>"
        "ex_fdt[nat 0 := ex_fd\<lparr>fd_offset := 0\<rparr>]" 0 "ex_fd\<lparr>fd_offset := 0\<rparr>" ex_dir ex_sb ex_fat _ "[1]" 5
        "replicate 5 7", OF _ _ o _ _ _ _ _ _ refl _ ok]
    by (simp add: ex_state_def ex_dir_def ex_entry_def ex_fd_def FAT_EOC_def BLOCK_SIZE_def FS_OPEN_MAX_COUNT_def)
qed

text \<open>C17: \<open>fs_mount\<close> does not check whether a file system is mounted.  Called on a
  mounted session it first replaces \<open>super_block\<close> by a fresh, unread buffer and then
  fails to open the disk, which is still open; the session stays marked mounted, and the
  superblock it would write back is gone, so the next \<open>fs_umount\<close> reads uninitialised
  memory.  The specification requires \<open>AlreadyMounted\<close> and no partial state after a
  failed mount.  That the device refuses to open a disk that is already open is the
  behaviour of the model of \<open>disk.c\<close> (\<open>block_disk_open\<close>).  That file is not in the
  repository, and the spec only says that \<open>open\<close> may fail; the theorem depends on this
  assumption.  If the device allowed a second open, the code would re-read the metadata and
  still never report \<open>AlreadyMounted\<close>.\<close>

theorem fs_mount_when_mounted:
  assumes "mounted s" and "dk_open (disk s)"
  shows "fs_mount name fresh s = (Inl IOFailure, s\<lparr>super_block := None\<rparr>) \<and>
         mounted (s\<lparr>super_block := None\<rparr>) \<and>
         fs_umount (s\<lparr>super_block := None\<rparr>) = (Inl (Undefined UninitialisedRead), s\<lparr>super_block := None\<rparr>)"
  using assms by (simp add: fs_mount_def block_disk_open_def fs_umount_def)

text \<open>Witness: mounting the example's disk again.\<close>

theorem fs_mount_when_mounted_witness:
  "fs_mount ''disk'' (\<lambda>_. ex_free_fd) ex_state = (Inl IOFailure, ex_state\<lparr>super_block := None\<rparr>) \<and>
   mounted (ex_state\<lparr>super_block := None\<rparr>) \<and>
   fs_umount (ex_state\<lparr>super_block := None\<rparr>) = (Inl (Undefined UninitialisedRead), ex_state\<lparr>super_block := None\<rparr>)"
  using fs_mount_when_mounted [of ex_state "''disk''" "\<lambda>_. ex_free_fd"] by (simp add: ex_state_def ex_disk_def)

text \<open>C18: \<open>fs_info\<close> reports the number of free entries among the first
  \<open>num_data_blocks\<close> of the FAT and the number of directory entries of size 0; it
  reads the tables without checking \<open>mounted\<close>.\<close>

theorem fs_info_counts:
  assumes "super_block s = Some sb" "fat s = Some ft" "root_direct s = Some dir" "dir_wf dir"
    and "unat (num_data_blocks sb) \<le> length ft"
  shows "\<exists>i. fs_info s = Inr i \<and> info_fat_free i = int (free_count (unat (num_data_blocks sb)) ft) \<and>
             info_rdir_free i = int (length (filter (\<lambda>e. file_size e = 0) dir)) \<and>
             info_data_blk_count i = int (unat (num_data_blocks sb))"
proof -
  have "rdir_free_count dir = Inr (int (length (filter (\<lambda>e. file_size e = 0) dir)))"
    using assms(4) dir_wf_take [OF assms(4)] by (simp add: rdir_free_count_def dir_wf_def)
  then show ?thesis using assms(1-3,5) fat_free_scan_count [of 0 "unat (num_data_blocks sb)" ft]
    by (simp add: fs_info_def free_count_def)
qed

text \<open>Witness: in the example, FAT entries 2 and 3 of the four data blocks are free and
  127 directory entries have size 0.\<close>

theorem fs_info_counts_witness:
  "\<exists>i. fs_info ex_state = Inr i \<and> info_fat_free i = 2 \<and> info_rdir_free i = 127 \<and> info_data_blk_count i = 4"
proof -
  note ex_free_count
  moreover have "length (filter (\<lambda>e. file_size e = 0) ex_dir) = 127"
    by (simp add: ex_dir_def ex_entry_def ex_empty_entry_def)
  ultimately show ?thesis
    using fs_info_counts [of ex_state ex_sb ex_fat ex_dir, OF _ _ _ ex_dir_wf]
    by (simp add: ex_state_def ex_sb_def ex_fat_def)
qed

text \<open>C19: \<open>fs_info\<close> counts a directory slot as free when its size is 0 (fs.c 150),
  while a slot holds a file when its name is not empty.  Creating a file fills an empty
  slot with a file of size 0, so after a successful \<open>fs_create\<close> \<open>fs_info\<close> reports
  exactly what it reported before: the new file still counts as a free slot.\<close>

theorem fs_create_info_unchanged:
  assumes st: "mounted s" "root_direct s = Some dir" "dir_wf dir"
    and n: "length n \<le> FS_FILENAME_LEN" and fresh: "\<forall>e\<in>set (scanned dir). entry_name e \<noteq> Some n"
    and j: "first_empty dir = Some j" "file_size (dir ! j) = 0"
  shows "\<exists>s'. fs_create n s = (Inr 0, s') \<and> fs_info s' = fs_info s"
proof -
  let ?dir' = "dir[j := create_entry n (dir ! j)]"
  have jl: "j < length dir" using j(1) by (auto simp: first_empty_def find_Some_iff)
  have "length (filter (\<lambda>e. file_size e = 0) (take FS_FILE_MAX_COUNT ?dir')) =
        length (filter (\<lambda>e. file_size e = 0) (take FS_FILE_MAX_COUNT dir))"
    using st(3) jl j(2) length_filter_update [of j dir "\<lambda>e. file_size e = 0"]
    by (simp add: dir_wf_def create_entry_def)
  then have rd: "rdir_free_count ?dir' = rdir_free_count dir" by (simp add: rdir_free_count_def)
  have "fs_info (s\<lparr>root_direct := Some ?dir'\<rparr>) = fs_info s"
    using st(2) by (simp add: fs_info_def rd cong: sum.case_cong split: option.splits)
  then show ?thesis using fs_create_spec [OF st] n fresh j(1) by fastforce
qed

text \<open>Witness: creating \<open>b\<close> in the example directory.\<close>

theorem fs_create_info_unchanged_witness:
  "\<exists>s'. fs_create ''b'' ex_state = (Inr 0, s') \<and> fs_info s' = fs_info ex_state"
proof -
  have fe: "first_empty ex_dir = Some 1"
    by (simp add: ex_dir_def first_empty_Cons ex_entry_not_empty ex_empty_entry_empty numeral_eq_Suc)
  have "scanned ex_dir = [ex_entry, ex_empty_entry]"
    unfolding scanned_def fe by (simp add: ex_dir_def numeral_eq_Suc)
  then have fr: "\<forall>e\<in>set (scanned ex_dir). entry_name e \<noteq> Some ''b''"
    by (simp add: ex_entry_name ex_empty_entry_name)
  show ?thesis
    using fs_create_info_unchanged [of ex_state ex_dir "''b''" 1, OF _ _ ex_dir_wf _ fr fe]
    by (simp add: ex_state_def ex_dir_def ex_empty_entry_def FS_FILENAME_LEN_def)
qed

text \<open>C20: \<open>fs_delete\<close> does not look at the descriptor table (fs.c 203--240): a file
  can be deleted while a descriptor is open on it.  The call succeeds, the descriptor stays
  open and bound to the slot just cleared, and \<open>fs_stat\<close> on it now reports an empty
  file instead of failing.  The specification requires \<open>FileInUse\<close> or the invalidation of
  the descriptors (section 9).\<close>

theorem fs_delete_while_open:
  assumes st: "mounted s" "root_direct s = Some dir" "dir_wf dir" "length n \<le> FS_FILENAME_LEN"
      "matching n dir \<noteq> []" "fat s = Some ft"
    and ch: "fat_chain ft (file_index (dir ! last (matching n dir))) bs"
    and fd: "fd_table s = Some fdt" "open_fd fdt fd = Inr f" "fd_file_index f = int (last (matching n dir))"
  shows "\<exists>s'. fs_delete n s = Some (Inr 0, s') \<and> fd_table s' = Some fdt \<and>
              fs_stat fd s' = Inr 0 \<and> (\<exists>dir'. root_direct s' = Some dir' \<and> entry_empty (dir' ! nat (fd_file_index f)))"
proof -
  let ?j = "last (matching n dir)"
  let ?dir' = "dir[?j := clear_entry (dir ! ?j)]"
  let ?s' = "s\<lparr>fat := Some (free_blocks bs ft), root_direct := Some ?dir'\<rparr>"
  have j: "?j < length dir" using matching_last [OF st(5)] by simp
  have ej: "entry_wf (dir ! ?j)" using st(3) j by (simp add: dir_wf_def list_all_length)
  have "fs_stat fd ?s' = Inr (sint (file_size (?dir' ! nat (fd_file_index f))))"
    using fs_stat_open [of ?s' fdt fd f ?dir'] st(1) fd j by simp
  then have "fs_stat fd ?s' = Inr 0" using fd(3) j by (simp add: clear_entry_def)
  then show ?thesis using fs_delete_chain [OF st ch] fd clear_entry_empty [OF ej] j by simp
qed

text \<open>Witness: deleting the example file \<open>a\<close> while descriptor 0 is open on it.\<close>

theorem fs_delete_while_open_witness:
  "\<exists>s'. fs_delete ''a'' ex_state = Some (Inr 0, s') \<and> fd_table s' = Some ex_fdt \<and>
        fs_stat 0 s' = Inr 0 \<and> (\<exists>dir'. root_direct s' = Some dir' \<and> entry_empty (dir' ! 0))"
proof -
  have ch: "fat_chain ex_fat (file_index (ex_dir ! last (matching ''a'' ex_dir))) [1]"
    unfolding ex_matching by (simp add: ex_fat_def ex_dir_def ex_entry_def FAT_EOC_def)
  show ?thesis
    using fs_delete_while_open [of ex_state ex_dir "''a''" ex_fat "[1]" ex_fdt 0 ex_fd, OF _ _ ex_dir_wf _ _ _ ch _ ex_open]
      ex_matching
    by (simp add: ex_state_def ex_fd_def FS_FILENAME_LEN_def)
qed

text \<open>C21: a write at the end of a file whose last block is full is lost (fs.c 440--441 and
  470--489).  The walk to the block of the offset runs off the chain and returns the
  end-of-chain marker \<open>0xFFFF\<close>; the loop reads and writes block \<open>0xFFFF + data_block_index\<close>,
  which is past the end of the disk, so both calls fail and their results are ignored, and
  then reads \<open>fat[0xFFFF]\<close>.  When the table has at most 65535 entries that read is out of
  bounds; otherwise the call returns \<open>count\<close> and grows the size and the offset by
  \<open>count\<close> while neither the disk nor the table changed.  A file written in chunks of
  \<open>BLOCK_SIZE\<close> bytes thus keeps only its first chunk.\<close>

theorem fs_write_end_of_chain:
  assumes st: "mounted s" "fd_table s = Some fdt" "open_fd fdt fd = Inr f" "fd < int FS_OPEN_MAX_COUNT"
      "root_direct s = Some dir" "0 \<le> fd_file_index f" "nat (fd_file_index f) < length dir"
      "super_block s = Some sb" "fat s = Some ft"
    and e: "e = dir ! nat (fd_file_index f)" "file_index e \<noteq> FAT_EOC"
    and ok: "file_ok sb ft (disk s) (file_index e) bs" and at: "fd_offset f = BLOCK_SIZE * length bs"
    and c: "0 < count" "count \<le> BLOCK_SIZE" "count \<le> length data"
    and small: "length (dk_blocks (disk s)) \<le> 65535"
    and sz: "unat (file_size e) + count < 2 ^ 31" "fd_offset f + count < 2 ^ 31"
  shows "fs_write fd (Some data) count s =
           (if length ft \<le> 65535 then (Inl (Undefined FatOutOfBounds), s)
            else (Inr (int count),
                  s\<lparr>root_direct := Some (dir[nat (fd_file_index f) :=
                        e\<lparr>file_size := word_of_int (sint (file_size e) + int count)\<rparr>]),
                    fd_table := Some (fdt[nat fd := f\<lparr>fd_offset := fd_offset f + count\<rparr>])\<rparr>))"
proof -
  let ?off = "fd_offset f"
  let ?i = "nat (fd_file_index f)"
  let ?dbi = "unat (data_block_index sb)"
  have ch: "fat_chain ft (file_index e) bs" using ok unfolding file_ok_def by blast
  have j: "?off div BLOCK_SIZE = length bs" "?off mod BLOCK_SIZE = 0" using at by (simp_all add: BLOCK_SIZE_def)
  have "length bs < 2 ^ 31" using sz(2) at by (simp add: BLOCK_SIZE_def)
  then have wk: "walk (Some ft) (file_index e) (?off div BLOCK_SIZE) = Inr FAT_EOC"
    using walk_chain_le [OF ch, of "length bs"] j(1) by simp
  have stat: "fs_stat fd (s\<lparr>root_direct := Some (dir[?i := e]), fat := Some ft\<rparr>) = Inr (sint (file_size e))"
    using fs_stat_open [of "s\<lparr>root_direct := Some (dir[?i := e]), fat := Some ft\<rparr>" fdt fd f "dir[?i := e]"] st e(1)
    by simp
  have bsp: "blocks_spanned count ?off = 1"
    using c(1,2) j(2) by (cases "count = BLOCK_SIZE") (simp_all add: blocks_spanned_def BLOCK_SIZE_def)
  have u: "unat FAT_EOC = 65535" by (simp add: FAT_EOC_def)
  have gl: "get_length count 0 = count" using c(2) by (simp add: get_length_def BLOCK_SIZE_def)
  have uc: "unat (word_of_nat count :: u16) = count" using c(2) by (simp add: unat_of_nat_u16 BLOCK_SIZE_def)
  have rd: "block_read (65535 + ?dbi) (disk s) = None" using small by (simp add: block_read_def)
  have wr: "\<And>b. block_write (65535 + ?dbi) b (disk s) = None" using small by (simp add: block_write_def)
  have mc: "memcpy (replicate BLOCK_SIZE 0) 0 data 0 count = Some (patch (replicate BLOCK_SIZE 0) 0 (take count (drop 0 data)))"
    using c(2,3) by (intro memcpy_eq_patch) simp_all
  let ?w0 = "\<lparr>w_cur = FAT_EOC, w_count = count, w_offset = ?off, w_btr = word_of_nat 0,
             w_length = word_of_nat (get_length count 0), w_bytes = 0, w_bounce = replicate BLOCK_SIZE 0,
             w_fat = ft, w_disk = disk s\<rparr>"
  obtain w1 where ch1: "write_chunk sb data ?w0 = Inr w1" and w1: "w_cur w1 = FAT_EOC" "w_fat w1 = ft"
    "w_disk w1 = disk s" "w_bytes w1 = word_of_nat count"
    using rd wr mc u uc unfolding write_chunk_def gl by (simp add: Let_def)
  have nb: "next_block False sb w1 =
              (if length ft \<le> 65535 then Inl (Undefined FatOutOfBounds) else Inr (w1\<lparr>w_cur := ft ! 65535\<rparr>))"
    using w1 u by (simp add: next_block_def)
  have lp: "write_loop (blocks_spanned count ?off) sb data ?w0 =
              (if length ft \<le> 65535 then Inl (Undefined FatOutOfBounds) else Inr (w1\<lparr>w_cur := ft ! 65535\<rparr>))"
    unfolding bsp using ch1 nb by (simp add: One_nat_def)
  have fs: "file_size e + word_of_nat count = word_of_int (sint (file_size e) + int count)"
    using sint_small [of "file_size e"] sz(1) by simp
  have "uint (file_size e) = int (unat (file_size e))" by (simp only: uint_nat)
  moreover have "unat (file_size e) + count < 2147483648" using sz(1) by simp
  ultimately have ov: "\<not> 2147483647 < sint (file_size e) + int count"
    using sint_small [of "file_size e"] sz(1) by linarith
  have om: "(fd_offset f + count) mod 18446744073709551616 = fd_offset f + count" using sz(2) by simp
  have sf: "s\<lparr>fat := Some ft\<rparr> = s" using st(9) by (cases s) simp
  have wb: "fs_write fd (Some data) count s = write_blocks fd data count fdt f dir e sb ft s"
    using fs_write_blocks [OF st(1-7) c(1) st(8,9)] e(1) by simp
  show ?thesis
    unfolding wb write_blocks_def using first_block_chain [OF e(2)] wk stat lp j(2) w1 uc st(7,9) e(1) ov fs om sf
    by (simp add: Let_def c_ret_def sint_small)
qed

theorem fs_write_end_of_chain_witness:
  "fs_write 0 (Some (replicate 100 7)) 100 (ex_full_state ex_fat) =
     (Inl (Undefined FatOutOfBounds), ex_full_state ex_fat) \<and>
   fs_write 0 (Some (replicate 100 7)) 100 (ex_full_state (ex_fat @ replicate 63488 0)) =
     (Inr 100, (ex_full_state (ex_fat @ replicate 63488 0))\<lparr>
        root_direct := Some (ex_dir[0 := ex_entry\<lparr>file_size := 4196\<rparr>]),
        fd_table := Some (ex_fdt[0 := ex_fd\<lparr>fd_offset := 4196\<rparr>])\<rparr>)"
proof -
  let ?f = "ex_fd\<lparr>fd_offset := 4096\<rparr>"
  let ?e = "ex_entry\<lparr>file_size := 4096\<rparr>"
  have ok1: "file_ok ex_sb ex_fat (disk (ex_full_state ex_fat)) (file_index ?e) [1]"
    using ex_file_ok by (simp add: ex_full_state_def ex_state_def ex_entry_def)
  have ok2: "file_ok ex_sb (ex_fat @ replicate 63488 0) (disk (ex_full_state (ex_fat @ replicate 63488 0)))
               (file_index ?e) [1]"
    using ex_file_ok_fat [of "ex_fat @ replicate 63488 0"]
    by (simp add: ex_full_state_def ex_state_def ex_entry_def ex_fat_def)
  have o: "open_fd (ex_fdt[0 := ?f]) 0 = Inr ?f" by (rule ex_open_full)
  have 1: "fs_write 0 (Some (replicate 100 7)) 100 (ex_full_state ex_fat) =
             (Inl (Undefined FatOutOfBounds), ex_full_state ex_fat)"
    using fs_write_end_of_chain [of "ex_full_state ex_fat" "ex_fdt[0 := ?f]" 0 ?f "ex_dir[0 := ?e]" ex_sb ex_fat
        ?e "[1]" 100 "replicate 100 7", OF _ _ o _ _ _ _ _ _ _ _ ok1]
    by (simp add: ex_full_state_def ex_state_def ex_dir_def ex_entry_def ex_fd_def ex_disk_def ex_fat_def
        FAT_EOC_def BLOCK_SIZE_def FS_OPEN_MAX_COUNT_def)
  have 2: "fs_write 0 (Some (replicate 100 7)) 100 (ex_full_state (ex_fat @ replicate 63488 0)) =
     (Inr 100, (ex_full_state (ex_fat @ replicate 63488 0))\<lparr>
        root_direct := Some (ex_dir[0 := ex_entry\<lparr>file_size := 4196\<rparr>]),
        fd_table := Some (ex_fdt[0 := ex_fd\<lparr>fd_offset := 4196\<rparr>])\<rparr>)"
    using fs_write_end_of_chain [of "ex_full_state (ex_fat @ replicate 63488 0)" "ex_fdt[0 := ?f]" 0 ?f
        "ex_dir[0 := ?e]" ex_sb "ex_fat @ replicate 63488 0" ?e "[1]" 100 "replicate 100 7", OF _ _ o _ _ _ _ _ _ _ _ ok2]
    by (simp add: ex_full_state_def ex_state_def ex_dir_def ex_entry_def ex_fd_def ex_disk_def ex_fat_def
        FAT_EOC_def BLOCK_SIZE_def FS_OPEN_MAX_COUNT_def)
  show ?thesis using 1 2 by (rule conjI)
qed

text \<open>C22: the round trip of a new file (spec section 8, first property).  In a mounted image
  whose table and disk are laid out as the superblock says, creating a new name, opening it,
  writing \<open>data\<close> at offset 0, seeking back to 0 and reading \<open>length data\<close> bytes returns
  exactly \<open>data\<close>, when there are enough free blocks for it.  The data must be shorter than
  65536 bytes: \<open>fs_write\<close> counts the bytes written in a \<open>uint16_t\<close>.\<close>

theorem fs_fresh_round_trip:
  assumes st: "mounted s" "root_direct s = Some dir" "dir_wf dir" "fd_table s = Some fdt" "fdt_wf fdt"
      "super_block s = Some sb" "fat s = Some ft"
    and n: "NUL \<notin> set n" "length n < FS_FILENAME_LEN" and new: "\<forall>e\<in>set dir. entry_name e \<noteq> Some n"
    and j: "first_empty dir = Some j" and fd: "first_available fdt = Some fd"
    and lay: "file_ok sb ft (disk s) FAT_EOC []"
    and free: "(length data - 1) div BLOCK_SIZE < free_count (unat (num_data_blocks sb)) ft"
    and bnd: "0 < length data" "length data < 65536" "length data \<le> length dst"
  shows "\<exists>s1 s2 s3 s4. fs_create n s = (Inr 0, s1) \<and> fs_open n s1 = (Inr (int fd), s2) \<and>
           fs_write (int fd) (Some data) (length data) s2 = (Inr (int (length data)), s3) \<and>
           fs_lseek (int fd) 0 s3 = (Inr 0, s4) \<and>
           fst (fs_read (int fd) (Some dst) (length data) s4) =
             Inr (int (length data), data @ drop (length data) dst)"
proof -
  let ?L = "length data"
  obtain s1 s2 f e ft' d' cs where w: "fs_create n s = (Inr 0, s1)" "fs_open n s1 = (Inr (int fd), s2)"
      "fs_write (int fd) (Some data) ?L s2 =
        (Inr (int ?L), s\<lparr>fat := Some ft', disk := d', root_direct := Some (dir[j := e]),
                              fd_table := Some (fdt[fd := f])\<rparr>)"
    and r: "j < length dir" "open_fd (fdt[fd := f]) (int fd) = Inr f" "fd_file_index f = int j"
      "NUL \<in> set (fd_file_name f)" "file_size e = word_of_nat ?L" "file_ok sb ft' d' (file_index e) cs"
      "?L \<le> BLOCK_SIZE * length cs" "take ?L (file_bytes (dk_blocks d') (unat (data_block_index sb)) cs) = take ?L data"
    using fs_session_first_write [OF st n new j fd lay free bnd(1,2) le_refl] by blast
  let ?s3 = "s\<lparr>fat := Some ft', disk := d', root_direct := Some (dir[j := e]), fd_table := Some (fdt[fd := f])\<rparr>"
  have u: "unat (file_size e) = ?L" using r(5) bnd(2) by (simp add: unat_of_nat)
  have "fs_lseek (int fd) 0 ?s3 = (Inr 0, ?s3\<lparr>fd_table := Some ((fdt[fd := f])[nat (int fd) := f\<lparr>fd_offset := 0\<rparr>])\<rparr>) \<and>
        fs_read (int fd) (Some dst) ?L (?s3\<lparr>fd_table := Some ((fdt[fd := f])[nat (int fd) := f\<lparr>fd_offset := 0\<rparr>])\<rparr>) =
          (Inr (int (min ?L (unat (file_size e))),
                patch dst 0 (take (min ?L (unat (file_size e)))
                  (file_bytes (dk_blocks (disk ?s3)) (unat (data_block_index sb)) cs))),
           ?s3\<lparr>fd_table := Some ((fdt[fd := f])[nat (int fd) := f\<lparr>fd_offset := min ?L (unat (file_size e))\<rparr>])\<rparr>)"
    using r(1-4,6,7) u bnd(2,3) st(1,6)
    by (intro fs_reread [of ?s3 "fdt[fd := f]" "int fd" f "dir[j := e]" sb ft' e cs]) simp_all
  then show ?thesis using w r(8) u by (auto simp: patch_def)
qed

text \<open>Witness: a new file \<open>b\<close> of the example image receives 100 bytes and reads them back.\<close>

theorem fs_fresh_round_trip_witness:
  "\<exists>s1 s2 s3 s4. fs_create ''b'' ex_state = (Inr 0, s1) \<and> fs_open ''b'' s1 = (Inr 1, s2) \<and>
     fs_write 1 (Some (replicate 100 7)) 100 s2 = (Inr 100, s3) \<and> fs_lseek 1 0 s3 = (Inr 0, s4) \<and>
     fst (fs_read 1 (Some (replicate 100 0)) 100 s4) = Inr (100, replicate 100 7)"
proof -
  have fr: "\<forall>e\<in>set ex_dir. entry_name e \<noteq> Some ''b''"
    by (simp add: ex_dir_def ex_entry_name ex_empty_entry_name)
  have lay: "file_ok ex_sb ex_fat (disk ex_state) FAT_EOC []" using ex_layout by (simp add: ex_state_def)
  have fc: "(length (replicate 100 (7::u8)) - 1) div BLOCK_SIZE < free_count (unat (num_data_blocks ex_sb)) ex_fat"
    using ex_free_count by (simp add: ex_sb_def BLOCK_SIZE_def)
  show ?thesis
    using fs_fresh_round_trip [of ex_state ex_dir ex_fdt ex_sb ex_fat "''b''" 1 1 "replicate 100 7" "replicate 100 0",
        OF _ _ ex_dir_wf _ ex_fdt_wf _ _ _ _ fr ex_first_empty ex_first_available lay fc]
    by (simp add: ex_state_def FS_FILENAME_LEN_def NUL_def)
qed

text \<open>C23: the concrete scenario of spec section 8 with \<open>BLOCK_SIZE = 4096\<close>.  On a mounted,
  well laid out image with at least three free data blocks, a new name is created and opened;
  writing 5000 bytes \<open>d1\<close> returns 5000 and makes the size 5000; writing 4096 bytes \<open>d2\<close> at
  the offset 5000 the first write left returns 4096 and makes the size 9096; after seeking
  to 0, reading 20000 bytes returns 9096 bytes, \<open>d1\<close> followed by \<open>d2\<close>.  (The lengths of
  the chain, 2 and then 3 in the spec, are not part of the statement.)\<close>

theorem fs_spec_scenario:
  assumes st: "mounted s" "root_direct s = Some dir" "dir_wf dir" "fd_table s = Some fdt" "fdt_wf fdt"
      "super_block s = Some sb" "fat s = Some ft"
    and n: "NUL \<notin> set n" "length n < FS_FILENAME_LEN" and new: "\<forall>e\<in>set dir. entry_name e \<noteq> Some n"
    and j: "first_empty dir = Some j" and fd: "first_available fdt = Some fd"
    and lay: "file_ok sb ft (disk s) FAT_EOC []"
    and free: "3 \<le> free_count (unat (num_data_blocks sb)) ft"
    and d: "length d1 = 5000" "length d2 = 4096" "length dst = 20000"
  shows "\<exists>s1 s2 s3 s4 s5. fs_create n s = (Inr 0, s1) \<and> fs_open n s1 = (Inr (int fd), s2) \<and>
           fs_write (int fd) (Some d1) 5000 s2 = (Inr 5000, s3) \<and> fs_stat (int fd) s3 = Inr 5000 \<and>
           fs_write (int fd) (Some d2) 4096 s3 = (Inr 4096, s4) \<and> fs_stat (int fd) s4 = Inr 9096 \<and>
           fs_lseek (int fd) 0 s4 = (Inr 0, s5) \<and>
           fst (fs_read (int fd) (Some dst) 20000 s5) = Inr (9096, d1 @ d2 @ drop 9096 dst)"
proof -
  let ?nd = "unat (num_data_blocks sb)"
  let ?dbi = "unat (data_block_index sb)"
  have free1: "(5000 - 1) div BLOCK_SIZE < free_count ?nd ft" using free by (simp add: BLOCK_SIZE_def)
  obtain s1 s2 f e ft3 d3 cs where w: "fs_create n s = (Inr 0, s1)" "fs_open n s1 = (Inr (int fd), s2)"
      "fs_write (int fd) (Some d1) 5000 s2 =
        (Inr 5000, s\<lparr>fat := Some ft3, disk := d3, root_direct := Some (dir[j := e]),
                              fd_table := Some (fdt[fd := f])\<rparr>)"
    and r: "j < length dir" "fd < length fdt" "open_fd (fdt[fd := f]) (int fd) = Inr f" "fd_file_index f = int j"
      "fd_offset f = 5000" "NUL \<in> set (fd_file_name f)" "file_size e = word_of_nat 5000" "file_index e \<noteq> FAT_EOC"
      "file_ok sb ft3 d3 (file_index e) cs" "free_count ?nd ft3 + length cs = free_count ?nd ft"
      "5000 \<le> BLOCK_SIZE * length cs" "take 5000 (file_bytes (dk_blocks d3) ?dbi cs) = take 5000 d1"
    using fs_session_first_write [OF st n new j fd lay free1, of d1] d(1) by auto
  let ?s3 = "s\<lparr>fat := Some ft3, disk := d3, root_direct := Some (dir[j := e]), fd_table := Some (fdt[fd := f])\<rparr>"
  have lim: "int fd < int FS_OPEN_MAX_COUNT" using r(2) st(5) by (simp add: fdt_wf_def)
  have se: "sint (file_size e) = 5000" using r(7) by simp
  have st3: "fs_stat (int fd) ?s3 = Inr 5000" using fs_stat_open [of ?s3 "fdt[fd := f]" "int fd" f "dir[j := e]"] r se st(1)
    by simp
  have cs2: "2 \<le> length cs" using r(11) by (simp add: BLOCK_SIZE_def)
  obtain ft4 d4 ns where w2: "fs_write (int fd) (Some d2) 4096 ?s3 =
        (Inr 4096, ?s3\<lparr>fat := Some ft4, disk := d4,
           root_direct := Some ((dir[j := e])[nat (fd_file_index f) := e\<lparr>file_size := word_of_int (sint (file_size e) + int 4096)\<rparr>]),
           fd_table := Some ((fdt[fd := f])[nat (int fd) := f\<lparr>fd_offset := fd_offset f + 4096\<rparr>])\<rparr>)"
    and r2: "file_ok sb ft4 d4 (file_index e) (cs @ ns)"
      "file_bytes (dk_blocks d4) ?dbi (cs @ ns) = patch (file_bytes (dk_blocks d3) ?dbi (cs @ ns)) 5000 (take 4096 d2)"
      "fd_offset f + 4096 \<le> BLOCK_SIZE * length (cs @ ns)"
    using fs_write_ok [of ?s3 "fdt[fd := f]" "int fd" f "dir[j := e]" sb ft3 e ft3 e cs 4096 d2] r st(1,6) lim
      first_block_chain [OF r(8)] free cs2 d(2) se by (auto simp: BLOCK_SIZE_def)
  let ?e4 = "e\<lparr>file_size := word_of_int (sint (file_size e) + int 4096)\<rparr>"
  let ?f4 = "f\<lparr>fd_offset := fd_offset f + 4096\<rparr>"
  let ?s4 = "?s3\<lparr>fat := Some ft4, disk := d4, root_direct := Some (dir[j := ?e4]), fd_table := Some (fdt[fd := ?f4])\<rparr>"
  have u4: "unat (file_size ?e4) = 9096" "sint (file_size ?e4) = 9096" using se by simp_all
  have o4: "open_fd (fdt[fd := ?f4]) (int fd) = Inr ?f4" using open_fd_offset [OF r(3) r(6)] by simp
  have st4: "fs_stat (int fd) ?s4 = Inr 9096" using fs_stat_open [of ?s4 "fdt[fd := ?f4]" "int fd" ?f4 "dir[j := ?e4]"] r o4 u4 st(1)
    by simp
  have rr: "fs_lseek (int fd) 0 ?s4 = (Inr 0, ?s4\<lparr>fd_table := Some ((fdt[fd := ?f4])[nat (int fd) := ?f4\<lparr>fd_offset := 0\<rparr>])\<rparr>) \<and>
        fs_read (int fd) (Some dst) 20000 (?s4\<lparr>fd_table := Some ((fdt[fd := ?f4])[nat (int fd) := ?f4\<lparr>fd_offset := 0\<rparr>])\<rparr>) =
          (Inr (int (min 20000 (unat (file_size ?e4))),
                patch dst 0 (take (min 20000 (unat (file_size ?e4))) (file_bytes (dk_blocks (disk ?s4)) ?dbi (cs @ ns)))),
           ?s4\<lparr>fd_table := Some ((fdt[fd := ?f4])[nat (int fd) := ?f4\<lparr>fd_offset := min 20000 (unat (file_size ?e4))\<rparr>])\<rparr>)"
    using r(1,4,6) r2(1,3) r(5) u4 d(3) st(1,6) o4
    by (intro fs_reread [of ?s4 "fdt[fd := ?f4]" "int fd" ?f4 "dir[j := ?e4]" sb ft4 ?e4 "cs @ ns"]) simp_all
  have l3: "length (file_bytes (dk_blocks d3) ?dbi cs) = BLOCK_SIZE * length cs"
    using r(9) by (rule file_ok_bytes_length)
  have bb: "\<forall>b\<in>set (cs @ ns). b + ?dbi < length (dk_blocks d3)"
  proof
    fix b assume "b \<in> set (cs @ ns)"
    then have "b < ?nd" using r2(1) unfolding file_ok_def by blast
    moreover have "?dbi + ?nd \<le> length (dk_blocks d3)" using r(9) unfolding file_ok_def by blast
    ultimately show "b + ?dbi < length (dk_blocks d3)" by linarith
  qed
  have "length (file_bytes (dk_blocks d3) ?dbi (cs @ ns)) = BLOCK_SIZE * length (cs @ ns)"
    using r(9) bb unfolding file_ok_def by (intro length_file_bytes_in) auto
  then have "take (5000 + length (take 4096 d2)) (file_bytes (dk_blocks d4) ?dbi (cs @ ns)) =
               take 5000 (file_bytes (dk_blocks d3) ?dbi (cs @ ns)) @ take 4096 d2"
    unfolding r2(2) using r2(3) r(5) d(2) by (intro take_patch) simp
  moreover have "take 5000 (file_bytes (dk_blocks d3) ?dbi (cs @ ns)) = d1"
    using l3 r(11,12) d(1) by (simp add: file_bytes_append)
  ultimately have tk: "take 9096 (file_bytes (dk_blocks d4) ?dbi (cs @ ns)) = d1 @ d2" using d(2) by simp
  have l4: "9096 \<le> length (file_bytes (dk_blocks d4) ?dbi (cs @ ns))"
    using file_ok_bytes_length [OF r2(1)] r2(3) r(5) by simp
  show ?thesis
    using w st3 w2 st4 rr tk r(4) u4 d l4 by (auto simp: patch_def min_absorb2)
qed

text \<open>Witness: the scenario on a blank image with four data blocks, three of them free,
  with \<open>d1\<close> 5000 bytes of 1 and \<open>d2\<close> 4096 bytes of 2.\<close>

theorem fs_spec_scenario_witness:
  "\<exists>s1 s2 s3 s4 s5. fs_create ''a.txt'' ex_blank_state = (Inr 0, s1) \<and> fs_open ''a.txt'' s1 = (Inr 0, s2) \<and>
     fs_write 0 (Some (replicate 5000 1)) 5000 s2 = (Inr 5000, s3) \<and> fs_stat 0 s3 = Inr 5000 \<and>
     fs_write 0 (Some (replicate 4096 2)) 4096 s3 = (Inr 4096, s4) \<and> fs_stat 0 s4 = Inr 9096 \<and>
     fs_lseek 0 0 s4 = (Inr 0, s5) \<and>
     fst (fs_read 0 (Some (replicate 20000 0)) 20000 s5) =
       Inr (9096, replicate 5000 1 @ replicate 4096 2 @ replicate 10904 0)"
proof -
  have rd: "replicate 128 ex_empty_entry = ex_empty_entry # replicate 127 ex_empty_entry"
    by (subst replicate_Suc [symmetric]) simp
  have rf: "replicate 32 ex_free_fd = ex_free_fd # replicate 31 ex_free_fd"
    by (subst replicate_Suc [symmetric]) simp
  have wf: "dir_wf (replicate 128 ex_empty_entry)"
    by (simp add: dir_wf_def entry_wf_def ex_empty_entry_def FS_FILE_MAX_COUNT_def FS_FILENAME_LEN_def list_all_iff)
  have fw: "fdt_wf (replicate 32 ex_free_fd)"
    by (simp add: fdt_wf_def fd_wf_def ex_free_fd_def FS_OPEN_MAX_COUNT_def FS_FILENAME_LEN_def list_all_iff)
  have fr: "\<forall>e\<in>set (replicate 128 ex_empty_entry). entry_name e \<noteq> Some ''a.txt''"
    by (simp add: ex_empty_entry_name)
  have fe: "first_empty (replicate 128 ex_empty_entry) = Some 0"
    unfolding rd by (simp add: first_empty_Cons ex_empty_entry_empty)
  have fa: "first_available (replicate 32 ex_free_fd) = Some 0"
    unfolding rf by (simp add: first_available_def ex_free_fd_def FS_OPEN_MAX_COUNT_def)
  have lay: "file_ok ex_sb ex_blank_fat (disk ex_blank_state) FAT_EOC []"
    by (simp add: file_ok_def ex_blank_state_def ex_blank_fat_def ex_sb_def ex_disk_def FAT_EOC_def BLOCK_SIZE_def)
  have fc: "3 \<le> free_count (unat (num_data_blocks ex_sb)) ex_blank_fat"
    by (simp add: free_count_def ex_sb_def ex_blank_fat_def FAT_EOC_def upt_rec)
  show ?thesis
    using fs_spec_scenario [of ex_blank_state "replicate 128 ex_empty_entry" "replicate 32 ex_free_fd" ex_sb
        ex_blank_fat "''a.txt''" 0 0 "replicate 5000 1" "replicate 4096 2" "replicate 20000 0",
        OF _ _ wf _ fw _ _ _ _ fr fe fa lay fc]
    by (simp add: ex_blank_state_def FS_FILENAME_LEN_def NUL_def)
qed

end
